theory Spec2Isabelle
  imports Main "HOL-Library.Multiset"
begin

section \<open>The JavaScript Date builtin\<close>

text \<open>
  The calendar screen (\<^verbatim>\<open>src/screens/DashboardScreen.tsx\<close>, \<^verbatim>\<open>CalendarScreen\<close>) does all of
  its date arithmetic through the \<^verbatim>\<open>Date\<close> builtin. The builtin is embedded here after
  ECMA-262 (section "Date Objects"): a date is a day number counted from 1 January 1970,
  a year owns the days from \<open>DayFromYear y\<close> on, and the month and the day of the month
  are read off the day within the year.

  Every \<^verbatim>\<open>Date\<close> the screen builds is built from a year, a month and a day
  (\<^verbatim>\<open>new Date(y, m, d)\<close>) or by \<^verbatim>\<open>setMonth\<close> on such a date, so its time of day is local
  midnight throughout and only the local day number is kept. Local time is taken to be
  UTC for these dates. They are written and read in local time alike, so another
  offset would change two things only: the day, within one day of 20 April -271821
  and of 13 September 275760, on which a date stops being valid, and the dates of a
  calendar day that a time zone skipped. No month begins or ends within a day of those
  two limits, so what is proved of months below does not depend on the first; the second
  is outside the embedding.
\<close>

definition DayFromYear :: "int \<Rightarrow> int" where
  "DayFromYear y =
     365 * (y - 1970) + (y - 1969) div 4 - (y - 1901) div 100 + (y - 1601) div 400"

definition DaysInYear :: "int \<Rightarrow> int" where
  "DaysInYear y =
     (if y mod 4 \<noteq> 0 then 365
      else if y mod 100 \<noteq> 0 then 366
      else if y mod 400 \<noteq> 0 then 365
      else 366)"

text \<open>
  ECMA-262 specifies \<^verbatim>\<open>YearFromTime\<close> as the largest year whose first day is not after
  the given day. The computation below finds it by peeling off 400-year, 100-year, 4-year
  and 1-year blocks counted from 1 January 1601 (day \<open>-134774\<close>); lemma
  \<open>YearFromDay_unique\<close> shows that it is the year of the specification.
\<close>

definition YearFromDay :: "int \<Rightarrow> int" where
  "YearFromDay d =
     (let d0 = d + 134774;
          n400 = d0 div 146097;
          r400 = d0 mod 146097;
          n100 = min (r400 div 36524) 3;
          r100 = r400 - 36524 * n100;
          n4 = r100 div 1461;
          r4 = r100 mod 1461;
          n1 = min (r4 div 365) 3
      in 1601 + 400 * n400 + 100 * n100 + 4 * n4 + n1)"

definition DayWithinYear :: "int \<Rightarrow> int" where
  "DayWithinYear d = d - DayFromYear (YearFromDay d)"

definition LeapDays :: "int \<Rightarrow> int" where
  "LeapDays y = (if DaysInYear y = 366 then 1 else 0)"

text \<open>The day within the year on which month \<open>m\<close> (0 = January) starts.\<close>

definition monthStart :: "int \<Rightarrow> int \<Rightarrow> int" where
  "monthStart l m =
     (if m = 0 then 0 else if m = 1 then 31 else if m = 2 then 59 + l
      else if m = 3 then 90 + l else if m = 4 then 120 + l else if m = 5 then 151 + l
      else if m = 6 then 181 + l else if m = 7 then 212 + l else if m = 8 then 243 + l
      else if m = 9 then 273 + l else if m = 10 then 304 + l else 334 + l)"

definition monthOfDayWithinYear :: "int \<Rightarrow> int \<Rightarrow> int" where
  "monthOfDayWithinYear l w =
     (if w < 31 then 0 else if w < 59 + l then 1 else if w < 90 + l then 2
      else if w < 120 + l then 3 else if w < 151 + l then 4 else if w < 181 + l then 5
      else if w < 212 + l then 6 else if w < 243 + l then 7 else if w < 273 + l then 8
      else if w < 304 + l then 9 else if w < 334 + l then 10 else 11)"

definition MonthFromDay :: "int \<Rightarrow> int" where
  "MonthFromDay d = monthOfDayWithinYear (LeapDays (YearFromDay d)) (DayWithinYear d)"

definition DateFromDay :: "int \<Rightarrow> int" where
  "DateFromDay d =
     DayWithinYear d - monthStart (LeapDays (YearFromDay d)) (MonthFromDay d) + 1"

definition WeekDay :: "int \<Rightarrow> int" where
  "WeekDay d = (d + 4) mod 7"

text \<open>
  \<^verbatim>\<open>MakeDay(year, month, date)\<close>: the month is carried into the year
  (\<open>month = -1\<close> is December of the year before, \<open>month = 12\<close> January of the year
  after), and the day of the month is an offset from the first of that month, so day 0 is
  the last day of the month before.
\<close>

definition MakeDay :: "int \<Rightarrow> int \<Rightarrow> int \<Rightarrow> int" where
  "MakeDay year month date =
     (let ym = year + month div 12;
          mn = month mod 12
      in DayFromYear ym + monthStart (LeapDays ym) mn + date - 1)"

section \<open>Numbers and dates\<close>

text \<open>
  The numbers of the screen are integers or \<^verbatim>\<open>NaN\<close>: the fields of an invalid date are
  \<^verbatim>\<open>NaN\<close>, arithmetic on \<^verbatim>\<open>NaN\<close> gives \<^verbatim>\<open>NaN\<close>, and every comparison with \<^verbatim>\<open>NaN\<close>
  is false.
\<close>

datatype number = Num int | NaN

definition numAdd :: "number \<Rightarrow> number \<Rightarrow> number" where
  "numAdd a b = (case (a, b) of (Num x, Num y) \<Rightarrow> Num (x + y) | _ \<Rightarrow> NaN)"

definition numSub :: "number \<Rightarrow> number \<Rightarrow> number" where
  "numSub a b = (case (a, b) of (Num x, Num y) \<Rightarrow> Num (x - y) | _ \<Rightarrow> NaN)"

definition numLe :: "number \<Rightarrow> number \<Rightarrow> bool" where
  "numLe a b = (case (a, b) of (Num x, Num y) \<Rightarrow> x \<le> y | _ \<Rightarrow> False)"

definition numGe :: "number \<Rightarrow> number \<Rightarrow> bool" where
  "numGe a b = (case (a, b) of (Num x, Num y) \<Rightarrow> x \<ge> y | _ \<Rightarrow> False)"

text \<open>
  A \<^verbatim>\<open>Date\<close> holds a time value or is invalid. \<^verbatim>\<open>TimeClip\<close> makes a date invalid when
  its time value is more than 8.64e15 milliseconds, that is 100,000,000 days, from the
  epoch: the first valid day is 20 April -271821, the last is 13 September 275760.
\<close>

datatype Date = ValidDate int | InvalidDate

definition TimeClip :: "int \<Rightarrow> Date" where
  "TimeClip day = (if - 100000000 \<le> day \<and> day \<le> 100000000 then ValidDate day else InvalidDate)"

text \<open>
  \<^verbatim>\<open>new Date(year, month, date)\<close>. The constructor (and only the constructor) reads a
  year from 0 to 99 as a year of the twentieth century (\<^verbatim>\<open>MakeFullYear\<close>); an argument
  that is \<^verbatim>\<open>NaN\<close> gives an invalid date.
\<close>

definition MakeFullYear :: "int \<Rightarrow> int" where
  "MakeFullYear year = (if 0 \<le> year \<and> year \<le> 99 then 1900 + year else year)"

definition newDate :: "number \<Rightarrow> number \<Rightarrow> number \<Rightarrow> Date" where
  "newDate year month date =
     (case (year, month, date) of
        (Num y, Num m, Num d) \<Rightarrow> TimeClip (MakeDay (MakeFullYear y) m d)
      | _ \<Rightarrow> InvalidDate)"

definition getFullYear :: "Date \<Rightarrow> number" where
  "getFullYear t = (case t of ValidDate day \<Rightarrow> Num (YearFromDay day) | InvalidDate \<Rightarrow> NaN)"

definition getMonth :: "Date \<Rightarrow> number" where
  "getMonth t = (case t of ValidDate day \<Rightarrow> Num (MonthFromDay day) | InvalidDate \<Rightarrow> NaN)"

definition getDate :: "Date \<Rightarrow> number" where
  "getDate t = (case t of ValidDate day \<Rightarrow> Num (DateFromDay day) | InvalidDate \<Rightarrow> NaN)"

definition getDay :: "Date \<Rightarrow> number" where
  "getDay t = (case t of ValidDate day \<Rightarrow> Num (WeekDay day) | InvalidDate \<Rightarrow> NaN)"

text \<open>
  \<^verbatim>\<open>t.setMonth(month)\<close> keeps the year and the day of the month of \<open>t\<close>; an invalid
  date stays invalid, and the result is clipped like every new time value.
\<close>

definition setMonth :: "Date \<Rightarrow> number \<Rightarrow> Date" where
  "setMonth t month =
     (case (t, month) of
        (ValidDate day, Num m) \<Rightarrow> TimeClip (MakeDay (YearFromDay day) m (DateFromDay day))
      | _ \<Rightarrow> InvalidDate)"

section \<open>Strings\<close>

text \<open>
  \<^verbatim>\<open>String(n)\<close> of a number, \<^verbatim>\<open>s.padStart(targetLength, c)\<close> for a one-character
  pad string, and \<^verbatim>\<open>s.startsWith(k)\<close>.
\<close>

function digits :: "nat \<Rightarrow> string" where
  "digits n = (if n < 10 then [''0123456789'' ! n] else digits (n div 10) @ [''0123456789'' ! (n mod 10)])"
  by pat_completeness auto
termination
  by (relation "measure (\<lambda>n. n)") auto

declare digits.simps [simp del]

definition String :: "number \<Rightarrow> string" where
  "String x =
     (case x of
        NaN \<Rightarrow> ''NaN''
      | Num n \<Rightarrow> (if n < 0 then CHR ''-'' # digits (nat (- n)) else digits (nat n)))"

definition padStart :: "nat \<Rightarrow> char \<Rightarrow> string \<Rightarrow> string" where
  "padStart targetLength padChar s = replicate (targetLength - length s) padChar @ s"

fun startsWith :: "string \<Rightarrow> string \<Rightarrow> bool" where
  "startsWith s [] = True"
| "startsWith [] (k # ks) = False"
| "startsWith (c # s) (k # ks) = (c = k \<and> startsWith s ks)"

section \<open>Events, tasks and the date-match filter\<close>

text \<open>
  The interfaces \<^verbatim>\<open>CalendarEvent\<close> and \<^verbatim>\<open>Task\<close>. An optional field is an option; so is
  \<^verbatim>\<open>start_datetime\<close>, which the filter guards with \<^verbatim>\<open>?.\<close> as it does \<^verbatim>\<open>due_date\<close>.
  A collection is read as \<^verbatim>\<open>(events || [])\<close> and each element as \<^verbatim>\<open>event?.\<close>, so a
  collection may be undefined (\<open>None\<close>) and may hold null elements (\<open>None\<close>).
  A date field that is there is a string, as the interfaces declare it; what the filter
  does with the untyped values that \<^verbatim>\<open>loadCalendarData\<close> may store is embedded
  separately, in the section on the filter at run time.
\<close>

record CalendarEvent =
  event_id :: int
  event_title :: string
  event_description :: "string option"
  start_datetime :: "string option"
  end_datetime :: "string option"
  event_type :: string
  event_color :: "string option"

record Task =
  task_id :: int
  task_title :: string
  task_description :: "string option"
  due_date :: "string option"
  task_status :: string
  task_priority :: string

record DayItems =
  dayEvents :: "CalendarEvent list"
  dayTasks :: "Task list"

text \<open>\<^verbatim>\<open>x || []\<close> for a collection.\<close>

definition orEmpty :: "'a list option \<Rightarrow> 'a list" where
  "orEmpty xs = (case xs of None \<Rightarrow> [] | Some ys \<Rightarrow> ys)"

text \<open>
  \<^verbatim>\<open>xs.filter(x => x?.field?.startsWith(dateString))\<close>: a null element and an element
  without the field give \<^verbatim>\<open>undefined\<close>, which the filter drops.
\<close>

definition matchesDate :: "string \<Rightarrow> string option \<Rightarrow> bool" where
  "matchesDate dateString field =
     (case field of None \<Rightarrow> False | Some s \<Rightarrow> startsWith s dateString)"

fun filterByDate :: "('a \<Rightarrow> string option) \<Rightarrow> string \<Rightarrow> 'a option list \<Rightarrow> 'a list" where
  "filterByDate field dateString [] = []"
| "filterByDate field dateString (None # xs) = filterByDate field dateString xs"
| "filterByDate field dateString (Some x # xs) =
     (if matchesDate dateString (field x) then x # filterByDate field dateString xs
      else filterByDate field dateString xs)"

text \<open>
  The template \<^verbatim>\<open>`${year}-${String(month).padStart(2, '0')}-${String(day).padStart(2, '0')}`\<close>
  that both filters build, here with the one-based month.
\<close>

definition dateString :: "number \<Rightarrow> number \<Rightarrow> number \<Rightarrow> string" where
  "dateString year month day =
     String year @ ''-'' @ padStart 2 CHR ''0'' (String month) @ ''-''
       @ padStart 2 CHR ''0'' (String day)"

text \<open>
  \<^verbatim>\<open>getEventsForDate(date)\<close>. The component's \<^verbatim>\<open>currentYear\<close>, \<^verbatim>\<open>currentMonth\<close>
  (zero-based), \<^verbatim>\<open>events\<close> and \<^verbatim>\<open>tasks\<close> are parameters; the debug logging is left
  out.
\<close>

definition getEventsForDate ::
  "number \<Rightarrow> number \<Rightarrow> CalendarEvent option list option \<Rightarrow> Task option list option \<Rightarrow> number
   \<Rightarrow> DayItems" where
  "getEventsForDate currentYear currentMonth events tasks date =
     (let dateString = dateString currentYear (numAdd currentMonth (Num 1)) date
      in \<lparr>dayEvents = filterByDate start_datetime dateString (orEmpty events),
          dayTasks = filterByDate due_date dateString (orEmpty tasks)\<rparr>)"

section \<open>The month grid\<close>

definition getDaysInMonth :: "number \<Rightarrow> number \<Rightarrow> number" where
  "getDaysInMonth year month = getDate (newDate year (numAdd month (Num 1)) (Num 0))"

definition getFirstDayOfMonth :: "number \<Rightarrow> number \<Rightarrow> number" where
  "getFirstDayOfMonth year month = getDay (newDate year month (Num 1))"

text \<open>
  What \<^verbatim>\<open>renderCalendarDay(day, isCurrentMonth)\<close> puts into the cell it renders: the day
  number, the flag, and the events and tasks \<^verbatim>\<open>getEventsForDate(day)\<close> returns. The
  cell's styling (today, selected), its React key and the debug logging are left out.
\<close>

record DayCell =
  cellDay :: number
  isCurrentMonth :: bool
  cellEvents :: "CalendarEvent list"
  cellTasks :: "Task list"

definition renderCalendarDay ::
  "number \<Rightarrow> number \<Rightarrow> CalendarEvent option list option \<Rightarrow> Task option list option \<Rightarrow> number
   \<Rightarrow> bool \<Rightarrow> DayCell" where
  "renderCalendarDay currentYear currentMonth events tasks day isCurrent =
     (let items = getEventsForDate currentYear currentMonth events tasks day
      in \<lparr>cellDay = day, isCurrentMonth = isCurrent,
          cellEvents = dayEvents items, cellTasks = dayTasks items\<rparr>)"

text \<open>
  The two loop shapes of \<^verbatim>\<open>renderCalendar\<close>, each pushing onto \<^verbatim>\<open>calendarDays\<close>:
  \<^verbatim>\<open>for (let i = start; i >= 0; i--)\<close> and \<^verbatim>\<open>for (let day = start; day <= limit; day++)\<close>.
  A bound that is \<^verbatim>\<open>NaN\<close> fails the test at once, and the loop adds nothing.
\<close>

function pushDown :: "(number \<Rightarrow> 'a) \<Rightarrow> number \<Rightarrow> 'a list \<Rightarrow> 'a list" where
  "pushDown f i calendarDays =
     (if numGe i (Num 0) then pushDown f (numSub i (Num 1)) (calendarDays @ [f i])
      else calendarDays)"
  by pat_completeness auto
termination
  by (relation "measure (\<lambda>(f, i, calendarDays). case i of Num k \<Rightarrow> nat (k + 1) | NaN \<Rightarrow> 0)")
     (auto simp: numGe_def numSub_def split: number.splits)

declare pushDown.simps [simp del]

function pushUp :: "(number \<Rightarrow> 'a) \<Rightarrow> number \<Rightarrow> number \<Rightarrow> 'a list \<Rightarrow> 'a list" where
  "pushUp f day limit calendarDays =
     (if numLe day limit then pushUp f (numAdd day (Num 1)) limit (calendarDays @ [f day])
      else calendarDays)"
  by pat_completeness auto
termination
  by (relation "measure (\<lambda>(f, day, limit, calendarDays).
        case (day, limit) of (Num d, Num l) \<Rightarrow> nat (l + 1 - d) | _ \<Rightarrow> 0)")
     (auto simp: numLe_def numAdd_def split: number.splits)

declare pushUp.simps [simp del]

definition renderCalendar ::
  "number \<Rightarrow> number \<Rightarrow> CalendarEvent option list option \<Rightarrow> Task option list option
   \<Rightarrow> DayCell list" where
  "renderCalendar currentYear currentMonth events tasks =
     (let daysInMonth = getDaysInMonth currentYear currentMonth;
          firstDayOfMonth = getFirstDayOfMonth currentYear currentMonth;
          daysInPrevMonth = getDaysInMonth currentYear (numSub currentMonth (Num 1));
          cell = renderCalendarDay currentYear currentMonth events tasks;
          calendarDays = pushDown (\<lambda>i. cell (numSub daysInPrevMonth i) False)
            (numSub firstDayOfMonth (Num 1)) [];
          calendarDays = pushUp (\<lambda>day. cell day True) (Num 1) daysInMonth calendarDays;
          remainingDays = Num (42 - int (length calendarDays))
      in pushUp (\<lambda>day. cell day False) (Num 1) remainingDays calendarDays)"

section \<open>Day selection and the agenda\<close>

text \<open>
  \<^verbatim>\<open>getEventsForSelectedDate()\<close>, with the component's \<^verbatim>\<open>selectedDate\<close>, \<^verbatim>\<open>events\<close> and
  \<^verbatim>\<open>tasks\<close> as parameters.
\<close>

definition getEventsForSelectedDate ::
  "Date option \<Rightarrow> CalendarEvent option list option \<Rightarrow> Task option list option \<Rightarrow> DayItems" where
  "getEventsForSelectedDate selectedDate events tasks =
     (case selectedDate of
        None \<Rightarrow> \<lparr>dayEvents = [], dayTasks = []\<rparr>
      | Some sel \<Rightarrow>
          (let year = getFullYear sel;
               month = numAdd (getMonth sel) (Num 1);
               day = getDate sel;
               dateString = dateString year month day
           in \<lparr>dayEvents = filterByDate start_datetime dateString (orEmpty events),
               dayTasks = filterByDate due_date dateString (orEmpty tasks)\<rparr>))"

text \<open>
  An agenda item is an event or a task under the tag \<^verbatim>\<open>type: 'event'\<close> or
  \<^verbatim>\<open>type: 'task'\<close>.
\<close>

datatype AgendaItem = EventItem CalendarEvent | TaskItem Task

subsection \<open>Parsing a date string\<close>

text \<open>
  \<^verbatim>\<open>new Date(string).getTime()\<close> is a number of milliseconds since the epoch, in UTC, or
  \<^verbatim>\<open>NaN\<close> (here \<open>None\<close>). ECMA-262 fixes it for its date-time string format:
  \<^verbatim>\<open>YYYY-MM-DD\<close> alone is midnight UTC of that day; with a time
  \<^verbatim>\<open>THH:mm\<close>, \<^verbatim>\<open>THH:mm:ss\<close> or \<^verbatim>\<open>THH:mm:ss.sss\<close> it is that local time, or that time
  at the offset \<^verbatim>\<open>Z\<close> or \<^verbatim>\<open>+HH:mm\<close>/\<^verbatim>\<open>-HH:mm\<close> when one follows; an element out of
  its bounds makes the result \<^verbatim>\<open>NaN\<close>. A string that is not in the format is left to
  the engine. The embedding reads the forms just listed. Every other string, and the
  cases on which engines are known to differ (a day past the end of its month, hour 24),
  go to a parameter \<open>engine\<close>; the offset of local time from UTC, in milliseconds at a
  given local time, is a parameter \<open>localTZA\<close>.
\<close>

definition isDigit :: "char \<Rightarrow> bool" where
  "isDigit c = (c \<in> set ''0123456789'')"

definition digitsOnly :: "string \<Rightarrow> bool" where
  "digitsOnly s = list_all isDigit s"

definition digitValue :: "char \<Rightarrow> nat" where
  "digitValue c = of_char c - of_char CHR ''0''"

definition numberOf :: "string \<Rightarrow> int" where
  "numberOf s = int (foldl (\<lambda>n c. 10 * n + digitValue c) 0 s)"

datatype reading = Time int | Illegal | Unspecified

datatype zone = NoZone | Zulu | Offset bool int int

text \<open>The three parts of a string, where it has them: the date, the time, the zone.\<close>

definition readDate :: "string \<Rightarrow> (int \<times> int \<times> int) option" where
  "readDate s =
     (if 10 \<le> length s \<and> digitsOnly (take 4 s) \<and> s ! 4 = CHR ''-'' \<and>
         digitsOnly (take 2 (drop 5 s)) \<and> s ! 7 = CHR ''-'' \<and> digitsOnly (take 2 (drop 8 s))
      then Some (numberOf (take 4 s), numberOf (take 2 (drop 5 s)), numberOf (take 2 (drop 8 s)))
      else None)"

definition readTime :: "string \<Rightarrow> ((int \<times> int \<times> int \<times> int) \<times> string) option" where
  "readTime r =
     (if 6 \<le> length r \<and> r ! 0 = CHR ''T'' \<and> digitsOnly (take 2 (drop 1 r)) \<and>
         r ! 3 = CHR '':'' \<and> digitsOnly (take 2 (drop 4 r))
      then
        (let hh = numberOf (take 2 (drop 1 r));
             mi = numberOf (take 2 (drop 4 r));
             r1 = drop 6 r
         in if 3 \<le> length r1 \<and> r1 ! 0 = CHR '':'' \<and> digitsOnly (take 2 (drop 1 r1)) then
              (let ss = numberOf (take 2 (drop 1 r1));
                   r2 = drop 3 r1
               in if 4 \<le> length r2 \<and> r2 ! 0 = CHR ''.'' \<and> digitsOnly (take 3 (drop 1 r2))
                  then Some ((hh, mi, ss, numberOf (take 3 (drop 1 r2))), drop 4 r2)
                  else Some ((hh, mi, ss, 0), r2))
            else Some ((hh, mi, 0, 0), r1))
      else None)"

definition readZone :: "string \<Rightarrow> zone option" where
  "readZone z =
     (if z = [] then Some NoZone
      else if z = ''Z'' then Some Zulu
      else if length z = 6 \<and> (z ! 0 = CHR ''+'' \<or> z ! 0 = CHR ''-'') \<and>
          digitsOnly (take 2 (drop 1 z)) \<and> z ! 3 = CHR '':'' \<and> digitsOnly (take 2 (drop 4 z))
      then Some (Offset (z ! 0 = CHR ''+'') (numberOf (take 2 (drop 1 z))) (numberOf (take 2 (drop 4 z))))
      else None)"

text \<open>The length of month \<open>m\<close> (0 = January) of a year with \<open>l\<close> leap days.\<close>

definition monthLength :: "int \<Rightarrow> int \<Rightarrow> int" where
  "monthLength l m =
     (if m = 1 then 28 + l
      else if m = 3 \<or> m = 5 \<or> m = 8 \<or> m = 10 then 30 else 31)"

text \<open>The day number of a date, the milliseconds of a time, and the zone's bounds.\<close>

definition dayOf :: "int \<Rightarrow> int \<Rightarrow> int \<Rightarrow> reading" where
  "dayOf y m d =
     (if m < 1 \<or> 12 < m \<or> d < 1 \<or> 31 < d then Illegal
      else if monthLength (LeapDays y) (m - 1) < d then Unspecified
      else Time (MakeDay y (m - 1) d))"

definition msOf :: "int \<times> int \<times> int \<times> int \<Rightarrow> reading" where
  "msOf t =
     (case t of (hh, mi, ss, ms) \<Rightarrow>
        if 24 < hh \<or> 59 < mi \<or> 59 < ss then Illegal
        else if hh = 24 then Unspecified
        else Time (3600000 * hh + 60000 * mi + 1000 * ss + ms))"

definition zoneIllegal :: "zone \<Rightarrow> bool" where
  "zoneIllegal z = (case z of Offset east hh mm \<Rightarrow> 23 < hh \<or> 59 < mm | _ \<Rightarrow> False)"

definition toUTC :: "(int \<Rightarrow> int) \<Rightarrow> zone \<Rightarrow> int \<Rightarrow> int" where
  "toUTC localTZA z t =
     (case z of
        NoZone \<Rightarrow> t - localTZA t
      | Zulu \<Rightarrow> t
      | Offset east hh mm \<Rightarrow>
          (if east then t - (3600000 * hh + 60000 * mm) else t + (3600000 * hh + 60000 * mm)))"

definition isoParse :: "(int \<Rightarrow> int) \<Rightarrow> string \<Rightarrow> reading" where
  "isoParse localTZA s =
     (if s = [] then Illegal
      else
        (case readDate s of
           None \<Rightarrow> Unspecified
         | Some (y, m, d) \<Rightarrow>
             (if drop 10 s = [] then
                (case dayOf y m d of Time day \<Rightarrow> Time (86400000 * day) | other \<Rightarrow> other)
              else
                (case readTime (drop 10 s) of
                   None \<Rightarrow> Unspecified
                 | Some (t, z) \<Rightarrow>
                     (case readZone z of
                        None \<Rightarrow> Unspecified
                      | Some zone \<Rightarrow>
                          (if dayOf y m d = Illegal \<or> msOf t = Illegal \<or> zoneIllegal zone
                           then Illegal
                           else
                             (case (dayOf y m d, msOf t) of
                                (Time day, Time ms) \<Rightarrow>
                                  Time (toUTC localTZA zone (86400000 * day + ms))
                              | _ \<Rightarrow> Unspecified)))))))"

text \<open>\<^verbatim>\<open>TimeClip\<close> on a time value in milliseconds.\<close>

definition clipTime :: "int \<Rightarrow> int option" where
  "clipTime t =
     (if - 8640000000000000 \<le> t \<and> t \<le> 8640000000000000 then Some t else None)"

definition dateParse :: "(int \<Rightarrow> int) \<Rightarrow> (string \<Rightarrow> int option) \<Rightarrow> string \<Rightarrow> int option" where
  "dateParse localTZA engine s =
     (case isoParse localTZA s of
        Time t \<Rightarrow> clipTime t
      | Illegal \<Rightarrow> None
      | Unspecified \<Rightarrow> engine s)"

subsection \<open>Merging and sorting\<close>

text \<open>
  The comparator's \<^verbatim>\<open>aTime\<close>: \<^verbatim>\<open>new Date(a.start_datetime).getTime()\<close> for an event,
  \<^verbatim>\<open>new Date(a.due_date || '').getTime()\<close> for a task; \<^verbatim>\<open>new Date(undefined)\<close> is invalid.
  The parser is a parameter \<open>parse\<close> here; the screen's is \<open>dateParse localTZA engine\<close>.
\<close>

definition itemTime :: "(string \<Rightarrow> int option) \<Rightarrow> AgendaItem \<Rightarrow> int option" where
  "itemTime parse a =
     (case a of
        EventItem e \<Rightarrow> (case start_datetime e of None \<Rightarrow> None | Some s \<Rightarrow> parse s)
      | TaskItem t \<Rightarrow> parse (case due_date t of None \<Rightarrow> [] | Some s \<Rightarrow> s))"

text \<open>\<^verbatim>\<open>aTime - bTime\<close>: the difference, or \<^verbatim>\<open>NaN\<close> when either side is.\<close>

definition compareItems :: "(string \<Rightarrow> int option) \<Rightarrow> AgendaItem \<Rightarrow> AgendaItem \<Rightarrow> int option" where
  "compareItems parse a b =
     (case (itemTime parse a, itemTime parse b) of
        (Some aTime, Some bTime) \<Rightarrow> Some (aTime - bTime)
      | _ \<Rightarrow> None)"

text \<open>
  \<^verbatim>\<open>Array.prototype.sort(comparator)\<close> reads a \<^verbatim>\<open>NaN\<close> result as 0. ECMA-262 asks for
  a permutation of the array, sorted and stable when the comparator is consistent on the
  elements (it never answers \<^verbatim>\<open>NaN\<close>, and its answers form a total order of classes
  of equals), and leaves the order to the engine when it is not. The sort of the engine
  is therefore a parameter \<open>engineSort\<close> of the agenda, of which \<open>conformingSort\<close> says
  what the standard does: on a consistent comparator it returns what the stable
  insertion sort \<open>sortWith\<close> returns.
\<close>

definition sortOrder :: "int option \<Rightarrow> int" where
  "sortOrder v = (case v of None \<Rightarrow> 0 | Some n \<Rightarrow> n)"

fun insertSorted :: "('a \<Rightarrow> 'a \<Rightarrow> int option) \<Rightarrow> 'a \<Rightarrow> 'a list \<Rightarrow> 'a list" where
  "insertSorted comparator x [] = [x]"
| "insertSorted comparator x (y # ys) =
     (if sortOrder (comparator x y) \<le> 0 then x # y # ys
      else y # insertSorted comparator x ys)"

definition sortWith :: "('a \<Rightarrow> 'a \<Rightarrow> int option) \<Rightarrow> 'a list \<Rightarrow> 'a list" where
  "sortWith comparator xs = foldr (insertSorted comparator) xs []"

definition consistentComparator :: "('a \<Rightarrow> 'a \<Rightarrow> int option) \<Rightarrow> 'a set \<Rightarrow> bool" where
  "consistentComparator c S \<longleftrightarrow>
     (\<forall>a\<in>S. \<forall>b\<in>S. c a b \<noteq> None) \<and>
     (\<forall>a\<in>S. sortOrder (c a a) = 0) \<and>
     (\<forall>a\<in>S. \<forall>b\<in>S. sortOrder (c a b) = 0 \<longrightarrow> sortOrder (c b a) = 0) \<and>
     (\<forall>a\<in>S. \<forall>b\<in>S. \<forall>d\<in>S.
        sortOrder (c a b) = 0 \<and> sortOrder (c b d) = 0 \<longrightarrow> sortOrder (c a d) = 0) \<and>
     (\<forall>a\<in>S. \<forall>b\<in>S. \<forall>d\<in>S.
        sortOrder (c a b) < 0 \<and> sortOrder (c b d) < 0 \<longrightarrow> sortOrder (c a d) < 0) \<and>
     (\<forall>a\<in>S. \<forall>b\<in>S. \<forall>d\<in>S.
        sortOrder (c a b) > 0 \<and> sortOrder (c b d) > 0 \<longrightarrow> sortOrder (c a d) > 0)"

definition conformingSort ::
  "(('a \<Rightarrow> 'a \<Rightarrow> int option) \<Rightarrow> 'a list \<Rightarrow> 'a list) \<Rightarrow> bool" where
  "conformingSort engineSort \<longleftrightarrow>
     (\<forall>c xs. mset (engineSort c xs) = mset xs \<and>
        (consistentComparator c (set xs) \<longrightarrow> engineSort c xs = sortWith c xs))"

definition allItems ::
  "((AgendaItem \<Rightarrow> AgendaItem \<Rightarrow> int option) \<Rightarrow> AgendaItem list \<Rightarrow> AgendaItem list) \<Rightarrow>
   (string \<Rightarrow> int option) \<Rightarrow> DayItems \<Rightarrow> AgendaItem list" where
  "allItems engineSort parse items =
     engineSort (compareItems parse) (map EventItem (dayEvents items) @ map TaskItem (dayTasks items))"

text \<open>The three views of \<^verbatim>\<open>renderSelectedDayEvents()\<close>.\<close>

datatype AgendaView = NoSelection | EmptyDay | EventsList "AgendaItem list"

definition renderSelectedDayEvents ::
  "((AgendaItem \<Rightarrow> AgendaItem \<Rightarrow> int option) \<Rightarrow> AgendaItem list \<Rightarrow> AgendaItem list) \<Rightarrow>
   (string \<Rightarrow> int option) \<Rightarrow> Date option \<Rightarrow> CalendarEvent option list option \<Rightarrow>
   Task option list option \<Rightarrow> AgendaView" where
  "renderSelectedDayEvents engineSort parse selectedDate events tasks =
     (if selectedDate = None then NoSelection
      else
        (let items = allItems engineSort parse (getEventsForSelectedDate selectedDate events tasks)
         in if length items = 0 then EmptyDay else EventsList items))"

section \<open>Loading the month view\<close>

text \<open>
  The responses of \<^verbatim>\<open>getMonthView\<close> and \<^verbatim>\<open>tasksApi.getAll\<close> are untyped (\<^verbatim>\<open>any\<close>):
  a JSON value, or \<^verbatim>\<open>undefined\<close>. Of a number only its truthiness is used.
\<close>

datatype json =
  JUndefined | JNull | JBool bool | JNum int | JStr string
  | JArr "json list" | JObj "(string \<times> json) list"

text \<open>
  \<^verbatim>\<open>x?.name\<close>, and \<^verbatim>\<open>x.name\<close> for an \<open>x\<close> that is neither null nor undefined: the
  property of an object, \<^verbatim>\<open>undefined\<close> where there is none (an array, a string, a number
  and a boolean have no property \<^verbatim>\<open>weeks\<close> or \<^verbatim>\<open>events\<close>).
\<close>

definition property :: "json \<Rightarrow> string \<Rightarrow> json" where
  "property x name =
     (case x of
        JObj members \<Rightarrow> (case map_of members name of None \<Rightarrow> JUndefined | Some v \<Rightarrow> v)
      | _ \<Rightarrow> JUndefined)"

definition isArray :: "json \<Rightarrow> bool" where
  "isArray x = (case x of JArr _ \<Rightarrow> True | _ \<Rightarrow> False)"

definition truthy :: "json \<Rightarrow> bool" where
  "truthy x =
     (case x of
        JUndefined \<Rightarrow> False | JNull \<Rightarrow> False | JBool b \<Rightarrow> b
      | JNum n \<Rightarrow> n \<noteq> 0 | JStr s \<Rightarrow> s \<noteq> [] | _ \<Rightarrow> True)"

definition elements :: "json \<Rightarrow> json list" where
  "elements x = (case x of JArr xs \<Rightarrow> xs | _ \<Rightarrow> [])"

text \<open>\<^verbatim>\<open>xs.flat()\<close>: an element that is an array is replaced by its elements.\<close>

definition flat :: "json list \<Rightarrow> json list" where
  "flat xs = concat (map (\<lambda>x. case x of JArr ys \<Rightarrow> ys | _ \<Rightarrow> [x]) xs)"

definition flatMap :: "(json \<Rightarrow> json) \<Rightarrow> json list \<Rightarrow> json list" where
  "flatMap f xs = flat (map f xs)"

text \<open>
  The part of \<^verbatim>\<open>loadCalendarData\<close> that turns the two responses into \<^verbatim>\<open>eventsArray\<close>
  and \<^verbatim>\<open>tasksArray\<close>. The branches are tried in the order of the source: the
  \<^verbatim>\<open>weeks\<close> structure, the array, the \<^verbatim>\<open>events\<close> member. The log statements between
  them read \<^verbatim>\<open>weeks.length\<close> and \<^verbatim>\<open>weeks[0]?.[0]\<close> of a value already known to be an
  array and are left out.
\<close>

definition hasEvents :: "json \<Rightarrow> bool" where
  "hasEvents day = (truthy day \<and> truthy (property day ''events'') \<and> isArray (property day ''events''))"

definition eventsArray :: "json \<Rightarrow> json list" where
  "eventsArray eventsData =
     (if truthy (property eventsData ''weeks'') \<and> isArray (property eventsData ''weeks'') then
        flatMap (\<lambda>day. property day ''events'')
          (filter hasEvents (flat (elements (property eventsData ''weeks''))))
      else if isArray eventsData then elements eventsData
      else if truthy (property eventsData ''events'') \<and> isArray (property eventsData ''events'') then
        elements (property eventsData ''events'')
      else [])"

definition tasksArray :: "json \<Rightarrow> json list" where
  "tasksArray tasksData = (if isArray tasksData then elements tasksData else [])"

section \<open>The filter and the agenda at run time\<close>

text \<open>
  \<^verbatim>\<open>loadCalendarData\<close> stores the elements of the responses as they arrive, so what
  the filter meets at run time is a JSON value whose date field may be anything. Of
  \<^verbatim>\<open>x?.field?.startsWith(dateString)\<close>: an \<open>x\<close> that is null or undefined, or has no such
  field, gives \<^verbatim>\<open>undefined\<close>; so does a field that is null or undefined; a string
  is asked whether it starts with the key; any other value has no \<^verbatim>\<open>startsWith\<close>, and
  the call raises a \<^verbatim>\<open>TypeError\<close>, which ends the filter.
\<close>

datatype runtimeError = TypeError

definition startsWithCall :: "json \<Rightarrow> string \<Rightarrow> runtimeError + bool" where
  "startsWithCall field key =
     (case field of
        JUndefined \<Rightarrow> Inr False
      | JNull \<Rightarrow> Inr False
      | JStr s \<Rightarrow> Inr (startsWith s key)
      | _ \<Rightarrow> Inl TypeError)"

fun filterAtRuntime :: "string \<Rightarrow> string \<Rightarrow> json list \<Rightarrow> runtimeError + json list" where
  "filterAtRuntime name key [] = Inr []"
| "filterAtRuntime name key (x # xs) =
     (case startsWithCall (property x name) key of
        Inl e \<Rightarrow> Inl e
      | Inr keep \<Rightarrow>
          (case filterAtRuntime name key xs of
             Inl e \<Rightarrow> Inl e
           | Inr kept \<Rightarrow> Inr (if keep then x # kept else kept)))"

text \<open>The body shared by the two filters: the events are filtered first, then the tasks.\<close>

definition filterBoth ::
  "string \<Rightarrow> json list option \<Rightarrow> json list option \<Rightarrow> runtimeError + (json list \<times> json list)" where
  "filterBoth key events tasks =
     (case filterAtRuntime ''start_datetime'' key (orEmpty events) of
        Inl e \<Rightarrow> Inl e
      | Inr keptEvents \<Rightarrow>
          (case filterAtRuntime ''due_date'' key (orEmpty tasks) of
             Inl e \<Rightarrow> Inl e
           | Inr keptTasks \<Rightarrow> Inr (keptEvents, keptTasks)))"

definition getEventsForDateAtRuntime ::
  "number \<Rightarrow> number \<Rightarrow> json list option \<Rightarrow> json list option \<Rightarrow> number
   \<Rightarrow> runtimeError + (json list \<times> json list)" where
  "getEventsForDateAtRuntime currentYear currentMonth events tasks date =
     filterBoth (dateString currentYear (numAdd currentMonth (Num 1)) date) events tasks"

definition getEventsForSelectedDateAtRuntime ::
  "Date option \<Rightarrow> json list option \<Rightarrow> json list option
   \<Rightarrow> runtimeError + (json list \<times> json list)" where
  "getEventsForSelectedDateAtRuntime selectedDate events tasks =
     (case selectedDate of
        None \<Rightarrow> Inr ([], [])
      | Some sel \<Rightarrow>
          filterBoth (dateString (getFullYear sel) (numAdd (getMonth sel) (Num 1)) (getDate sel))
            events tasks)"

text \<open>
  \<^verbatim>\<open>new Date(value).getTime()\<close> of a JSON value: a string is parsed, \<^verbatim>\<open>undefined\<close> is
  invalid, \<^verbatim>\<open>null\<close>, a boolean and a number are taken as a time value, and an array
  or an object goes through its string form, which is left to a parameter. It never
  raises. A task's \<^verbatim>\<open>a.due_date || ''\<close> replaces a falsy value by the empty string.
\<close>

definition valueTime ::
  "(string \<Rightarrow> int option) \<Rightarrow> (json \<Rightarrow> int option) \<Rightarrow> json \<Rightarrow> int option" where
  "valueTime parse other v =
     (case v of
        JUndefined \<Rightarrow> None
      | JNull \<Rightarrow> Some 0
      | JBool b \<Rightarrow> Some (if b then 1 else 0)
      | JNum n \<Rightarrow> clipTime n
      | JStr s \<Rightarrow> parse s
      | _ \<Rightarrow> other v)"

datatype itemAtRuntime = EventAtRuntime json | TaskAtRuntime json

definition itemTimeAtRuntime ::
  "(string \<Rightarrow> int option) \<Rightarrow> (json \<Rightarrow> int option) \<Rightarrow> itemAtRuntime \<Rightarrow> int option" where
  "itemTimeAtRuntime parse other a =
     (case a of
        EventAtRuntime x \<Rightarrow> valueTime parse other (property x ''start_datetime'')
      | TaskAtRuntime x \<Rightarrow>
          (if truthy (property x ''due_date'') then valueTime parse other (property x ''due_date'')
           else parse []))"

definition compareAtRuntime ::
  "(string \<Rightarrow> int option) \<Rightarrow> (json \<Rightarrow> int option) \<Rightarrow> itemAtRuntime \<Rightarrow> itemAtRuntime
   \<Rightarrow> int option" where
  "compareAtRuntime parse other a b =
     (case (itemTimeAtRuntime parse other a, itemTimeAtRuntime parse other b) of
        (Some aTime, Some bTime) \<Rightarrow> Some (aTime - bTime)
      | _ \<Rightarrow> None)"

text \<open>
  \<^verbatim>\<open>allItems\<close> of \<^verbatim>\<open>renderSelectedDayEvents()\<close> for a selected date: the error of the
  filter, or the sorted items (the empty list is the "no events or tasks" view).
\<close>

definition allItemsAtRuntime ::
  "((itemAtRuntime \<Rightarrow> itemAtRuntime \<Rightarrow> int option) \<Rightarrow> itemAtRuntime list \<Rightarrow> itemAtRuntime list) \<Rightarrow>
   (string \<Rightarrow> int option) \<Rightarrow> (json \<Rightarrow> int option) \<Rightarrow> Date \<Rightarrow> json list option \<Rightarrow>
   json list option \<Rightarrow> runtimeError + itemAtRuntime list" where
  "allItemsAtRuntime engineSort parse other sel events tasks =
     (case getEventsForSelectedDateAtRuntime (Some sel) events tasks of
        Inl e \<Rightarrow> Inl e
      | Inr (keptEvents, keptTasks) \<Rightarrow>
          Inr (engineSort (compareAtRuntime parse other)
                 (map EventAtRuntime keptEvents @ map TaskAtRuntime keptTasks)))"

text \<open>A typed event and a typed task as the JSON objects they are at run time.\<close>

definition dateMember :: "string \<Rightarrow> string option \<Rightarrow> (string \<times> json) list" where
  "dateMember name field = (case field of None \<Rightarrow> [] | Some s \<Rightarrow> [(name, JStr s)])"

definition eventObject :: "CalendarEvent option \<Rightarrow> json" where
  "eventObject x =
     (case x of
        None \<Rightarrow> JNull
      | Some e \<Rightarrow>
          JObj ([(''id'', JNum (event_id e)), (''title'', JStr (event_title e)),
                 (''event_type'', JStr (event_type e))]
                @ dateMember ''start_datetime'' (start_datetime e)))"

definition taskObject :: "Task option \<Rightarrow> json" where
  "taskObject x =
     (case x of
        None \<Rightarrow> JNull
      | Some t \<Rightarrow>
          JObj ([(''id'', JNum (task_id t)), (''title'', JStr (task_title t)),
                 (''status'', JStr (task_status t)), (''priority'', JStr (task_priority t))]
                @ dateMember ''due_date'' (due_date t)))"

section \<open>Navigation\<close>

record NavState =
  currentDate :: Date
  selectedDate :: "Date option"

text \<open>\<^verbatim>\<open>useState(new Date(2025, 7, 1))\<close> and \<^verbatim>\<open>useState(null)\<close>.\<close>

definition initialState :: NavState where
  "initialState = \<lparr>currentDate = newDate (Num 2025) (Num 7) (Num 1), selectedDate = None\<rparr>"

definition currentYear :: "NavState \<Rightarrow> number" where
  "currentYear st = getFullYear (currentDate st)"

definition currentMonth :: "NavState \<Rightarrow> number" where
  "currentMonth st = getMonth (currentDate st)"

datatype Direction = Prev | Next

definition navigateMonth :: "Direction \<Rightarrow> NavState \<Rightarrow> NavState" where
  "navigateMonth direction st =
     (let prev = currentDate st
      in st\<lparr>currentDate :=
           (if direction = Prev then setMonth prev (numSub (getMonth prev) (Num 1))
            else setMonth prev (numAdd (getMonth prev) (Num 1)))\<rparr>)"

definition handleDayPress :: "number \<Rightarrow> bool \<Rightarrow> NavState \<Rightarrow> NavState" where
  "handleDayPress day isCurrent st =
     (if \<not> isCurrent then st
      else st\<lparr>selectedDate := Some (newDate (currentYear st) (currentMonth st) day)\<rparr>)"

text \<open>The states the two handlers can produce from the initial state.\<close>

inductive reachable :: "NavState \<Rightarrow> bool" where
  initial: "reachable initialState"
| navigate: "reachable st \<Longrightarrow> reachable (navigateMonth direction st)"
| press: "reachable st \<Longrightarrow> reachable (handleDayPress day isCurrent st)"

section \<open>Notions of the specification\<close>

text \<open>The non-null elements of a collection, in order.\<close>

definition present :: "'a option list option \<Rightarrow> 'a list" where
  "present xs = concat (map (\<lambda>x. case x of None \<Rightarrow> [] | Some y \<Rightarrow> [y]) (orEmpty xs))"

text \<open>A date field that is there and whose string begins with the key.\<close>

definition beginsWith :: "string \<Rightarrow> string option \<Rightarrow> bool" where
  "beginsWith key field = (case field of None \<Rightarrow> False | Some s \<Rightarrow> take (length key) s = key)"

text \<open>
  The key as the specification words it, "a zero-padded YYYY-MM-DD string": four digits
  of year, two of month, two of day.
\<close>

definition isoDateKey :: "number \<Rightarrow> number \<Rightarrow> number \<Rightarrow> string" where
  "isoDateKey year month day =
     padStart 4 CHR ''0'' (String year) @ ''-'' @ padStart 2 CHR ''0'' (String month) @ ''-''
       @ padStart 2 CHR ''0'' (String day)"

text \<open>A calendar date with a four-digit year: year, one-based month, day of that month.\<close>

definition calendarDate :: "int \<Rightarrow> int \<Rightarrow> int \<Rightarrow> bool" where
  "calendarDate y m d \<longleftrightarrow>
     0 \<le> y \<and> y \<le> 9999 \<and> 1 \<le> m \<and> m \<le> 12 \<and> 1 \<le> d \<and> d \<le> monthLength (LeapDays y) (m - 1)"

text \<open>
  A date field is taken as well formed when it is a date \<^verbatim>\<open>YYYY-MM-DD\<close>, alone (a due
  date) or followed by a time that \<^verbatim>\<open>T\<close> introduces (a start timestamp). The time part
  is not looked at, so a string that fails this test is malformed on any stricter
  reading as well.
\<close>

definition wellFormedDate :: "string \<Rightarrow> bool" where
  "wellFormedDate s =
     (readDate (take 10 s) \<noteq> None \<and> (drop 10 s = [] \<or> take 1 (drop 10 s) = ''T''))"

text \<open>
  At run time: the date field of an element is missing (the element is null or
  undefined, or has no such field, or the field is null or undefined) or is a string.
\<close>

definition missingField :: "string \<Rightarrow> json \<Rightarrow> bool" where
  "missingField name x = (property x name = JUndefined \<or> property x name = JNull)"

definition textField :: "string \<Rightarrow> json \<Rightarrow> bool" where
  "textField name x = (case property x name of JStr s \<Rightarrow> True | _ \<Rightarrow> False)"

definition fieldBeginsWith :: "string \<Rightarrow> string \<Rightarrow> json \<Rightarrow> bool" where
  "fieldBeginsWith name key x =
     (case property x name of JStr s \<Rightarrow> take (length key) s = key | _ \<Rightarrow> False)"

definition missingOrText :: "string \<Rightarrow> json list option \<Rightarrow> bool" where
  "missingOrText name xs = list_all (\<lambda>x. missingField name x \<or> textField name x) (orEmpty xs)"

text \<open>The agenda in the comparator's order: no item is put after a later item.\<close>

fun inOrder :: "('a \<Rightarrow> 'a \<Rightarrow> int option) \<Rightarrow> 'a list \<Rightarrow> bool" where
  "inOrder comparator [] = True"
| "inOrder comparator (x # xs) =
     (list_all (\<lambda>y. sortOrder (comparator x y) \<le> 0) xs \<and> inOrder comparator xs)"

text \<open>
  Months counted from January of the year 0, and the day number of the first day of
  such a month. A first of a month is a valid date from month \<open>firstMonth\<close>
  (May -271821) to month \<open>lastMonth\<close> (September 275760).
\<close>

definition firstOfMonth :: "int \<Rightarrow> int" where
  "firstOfMonth k = MakeDay 0 k 1"

definition firstMonth :: int where
  "firstMonth = 12 * (- 271821) + 4"

definition lastMonth :: int where
  "lastMonth = 12 * 275760 + 8"

definition monthNumber :: "Date \<Rightarrow> number" where
  "monthNumber t =
     (case t of ValidDate day \<Rightarrow> Num (12 * YearFromDay day + MonthFromDay day) | InvalidDate \<Rightarrow> NaN)"

text \<open>
  The weekday on which a calendar month begins, and the number of its days: those from
  its first day up to the first day of the month after it. The month is zero-based and
  may lie outside 0 to 11, counting on into the years before and after.
\<close>

definition weekdayOfFirst :: "int \<Rightarrow> int \<Rightarrow> int" where
  "weekdayOfFirst y m = WeekDay (MakeDay y m 1)"

definition daysOfMonth :: "int \<Rightarrow> int \<Rightarrow> int" where
  "daysOfMonth y m = MakeDay y (m + 1) 1 - MakeDay y m 1"

text \<open>
  The values a loop of \<^verbatim>\<open>renderCalendar\<close> runs through: from a bound down to 0, and
  from 1 up to a bound; none when the bound is \<^verbatim>\<open>NaN\<close>.
\<close>

definition countDown :: "number \<Rightarrow> number list" where
  "countDown i = (case i of NaN \<Rightarrow> [] | Num k \<Rightarrow> map Num (rev [0..k]))"

definition countUp :: "number \<Rightarrow> number list" where
  "countUp limit = (case limit of NaN \<Rightarrow> [] | Num k \<Rightarrow> map Num [1..k])"

section \<open>Sample data\<close>

definition eventAt :: "string \<Rightarrow> CalendarEvent" where
  "eventAt start =
     \<lparr>event_id = 1, event_title = ''Interview'', event_description = None,
      start_datetime = Some start, end_datetime = None, event_type = ''interview'',
      event_color = None\<rparr>"

definition taskDue :: "string \<Rightarrow> Task" where
  "taskDue due =
     \<lparr>task_id = 2, task_title = ''Send thank-you note'', task_description = None,
      due_date = Some due, task_status = ''pending'', task_priority = ''high''\<rparr>"

text \<open>
  The navigation state after 23707 presses of the "previous month" button, which displays
  January of the year 50; the state after 3284821 presses of "next month", which displays
  September 275760, the last month a \<^verbatim>\<open>Date\<close> can begin in; and the state one press
  further.
\<close>

definition year50 :: NavState where
  "year50 = (navigateMonth Prev ^^ 23707) initialState"

definition september275760 :: NavState where
  "september275760 = (navigateMonth Next ^^ 3284821) initialState"

definition pastLastMonth :: NavState where
  "pastLastMonth = (navigateMonth Next ^^ 3284822) initialState"

text \<open>An engine that recognises no string outside the standard format.\<close>

definition strictEngine :: "string \<Rightarrow> int option" where
  "strictEngine s = None"

text \<open>Local time at UTC, two hours east of it (UTC+02:00), and fourteen (UTC+14:00).\<close>

definition utc :: "int \<Rightarrow> int" where
  "utc t = 0"

definition utcPlus2 :: "int \<Rightarrow> int" where
  "utcPlus2 t = 7200000"

definition utcPlus14 :: "int \<Rightarrow> int" where
  "utcPlus14 t = 50400000"

section \<open>Properties of the Date builtin\<close>

lemma div_step:
  fixes x k :: int
  assumes "0 < k"
  shows "(x + 1) div k = x div k + (if (x + 1) mod k = 0 then 1 else 0)"
proof -
  have b: "0 \<le> x mod k" "x mod k < k" using assms by simp_all
  show ?thesis
  proof (cases "x mod k = k - 1")
    case True
    have "k * (x div k) + x mod k = x" by simp
    then have "k * (x div k) + (k - 1) = x" using True by simp
    then have e: "x + 1 = k * (x div k + 1) + 0" by (simp add: algebra_simps)
    have "(x + 1) div k = x div k + 1" by (rule int_div_pos_eq[OF e]) (use assms in auto)
    moreover have "(x + 1) mod k = 0" by (rule int_mod_pos_eq[OF e]) (use assms in auto)
    ultimately show ?thesis by simp
  next
    case False
    then have c: "x mod k + 1 < k" using b by simp
    have e: "x + 1 = k * (x div k) + (x mod k + 1)" by simp
    have "(x + 1) div k = x div k" by (rule int_div_pos_eq[OF e]) (use b c in auto)
    moreover have "(x + 1) mod k = x mod k + 1" by (rule int_mod_pos_eq[OF e]) (use b c in auto)
    ultimately show ?thesis using b by simp
  qed
qed

lemma mod_shift4: "((y::int) - 1968) mod 4 = y mod 4"
proof -
  have "y - 1968 = y + 4 * (- 492)" by simp
  then show ?thesis by (metis mod_mult_self2)
qed

lemma mod_shift100: "((y::int) - 1900) mod 100 = y mod 100"
proof -
  have "y - 1900 = y + 100 * (- 19)" by simp
  then show ?thesis by (metis mod_mult_self2)
qed

lemma mod_shift400: "((y::int) - 1600) mod 400 = y mod 400"
proof -
  have "y - 1600 = y + 400 * (- 4)" by simp
  then show ?thesis by (metis mod_mult_self2)
qed

lemma mod100_mod4: "(y::int) mod 100 = 0 \<Longrightarrow> y mod 4 = 0"
  by presburger

lemma mod400_mod100: "(y::int) mod 400 = 0 \<Longrightarrow> y mod 100 = 0"
  by presburger

text \<open>A year is as long as the distance to the first day of the next year.\<close>

lemma DayFromYear_Suc: "DayFromYear (y + 1) = DayFromYear y + DaysInYear y"
proof -
  have a: "(y + 1 - 1969) div 4 = (y - 1969) div 4 + (if y mod 4 = 0 then 1 else 0)"
    using div_step[of 4 "y - 1969"] mod_shift4[of y] by (simp add: algebra_simps)
  have b: "(y + 1 - 1901) div 100 = (y - 1901) div 100 + (if y mod 100 = 0 then 1 else 0)"
    using div_step[of 100 "y - 1901"] mod_shift100[of y] by (simp add: algebra_simps)
  have c: "(y + 1 - 1601) div 400 = (y - 1601) div 400 + (if y mod 400 = 0 then 1 else 0)"
    using div_step[of 400 "y - 1601"] mod_shift400[of y] by (simp add: algebra_simps)
  show ?thesis
    unfolding DayFromYear_def DaysInYear_def a b c
    using mod100_mod4[of y] mod400_mod100[of y] by auto
qed

lemma DaysInYear_pos: "365 \<le> DaysInYear y" "DaysInYear y \<le> 366"
  by (simp_all add: DaysInYear_def)

lemma DayFromYear_mono: "y \<le> y' \<Longrightarrow> DayFromYear y \<le> DayFromYear y'"
proof (induction y' rule: int_ge_induct)
  case base
  show ?case by simp
next
  case (step i)
  then show ?case using DayFromYear_Suc[of i] DaysInYear_pos(1)[of i] by linarith
qed

lemma DayFromYear_decomp:
  assumes "0 \<le> b" "b \<le> 3" "0 \<le> c" "c \<le> 24" "0 \<le> e" "e \<le> 3"
  shows "DayFromYear (1601 + 400 * a + 100 * b + 4 * c + e)
         = 146097 * a + 36524 * b + 1461 * c + 365 * e - 134774"
proof -
  let ?y = "1601 + 400 * a + 100 * b + 4 * c + e"
  have e4: "?y - 1969 = 4 * (100 * a + 25 * b + c - 92) + e" by simp
  have e100: "?y - 1901 = 100 * (4 * a + b - 3) + (4 * c + e)" by simp
  have e400: "?y - 1601 = 400 * a + (100 * b + 4 * c + e)" by simp
  have d4: "(?y - 1969) div 4 = 100 * a + 25 * b + c - 92"
    by (rule int_div_pos_eq[OF e4]) (use assms in auto)
  have d100: "(?y - 1901) div 100 = 4 * a + b - 3"
    by (rule int_div_pos_eq[OF e100]) (use assms in auto)
  have d400: "(?y - 1601) div 400 = a"
    by (rule int_div_pos_eq[OF e400]) (use assms in auto)
  show ?thesis unfolding DayFromYear_def d4 d100 d400 by simp
qed

lemma mod_known:
  fixes k q r :: int
  assumes "y = k * q + r" "0 \<le> r" "r < k"
  shows "y mod k = r"
  using assms by (rule int_mod_pos_eq)

lemma DaysInYear_decomp:
  assumes "0 \<le> b" "b \<le> 3" "0 \<le> c" "c \<le> 24" "0 \<le> e" "e \<le> 3"
  shows "DaysInYear (1601 + 400 * a + 100 * b + 4 * c + e)
         = (if e = 3 \<and> (c \<noteq> 24 \<or> b = 3) then 366 else 365)"
proof -
  let ?y = "1601 + 400 * a + 100 * b + 4 * c + e"
  show ?thesis
  proof (cases "e = 3")
    case False
    have "?y mod 4 = e + 1"
      by (rule mod_known[where q = "400 + 100 * a + 25 * b + c"]) (use assms False in auto)
    then show ?thesis using assms False by (simp add: DaysInYear_def)
  next
    case e3: True
    have m4: "?y mod 4 = 0"
      by (rule mod_known[where q = "401 + 100 * a + 25 * b + c"]) (use e3 in auto)
    show ?thesis
    proof (cases "c = 24")
      case False
      have "?y mod 100 = 4 * c + 4"
        by (rule mod_known[where q = "16 + 4 * a + b"]) (use assms e3 False in auto)
      then show ?thesis using assms e3 False m4 by (simp add: DaysInYear_def)
    next
      case c24: True
      have m100: "?y mod 100 = 0"
        by (rule mod_known[where q = "17 + 4 * a + b"]) (use e3 c24 in auto)
      show ?thesis
      proof (cases "b = 3")
        case False
        have "?y mod 400 = 100 * b + 100"
          by (rule mod_known[where q = "4 + a"]) (use assms e3 c24 False in auto)
        then show ?thesis using assms e3 c24 False m4 m100 by (simp add: DaysInYear_def)
      next
        case True
        have "?y mod 400 = 0"
          by (rule mod_known[where q = "5 + a"]) (use e3 c24 True in auto)
        then show ?thesis using e3 c24 True m4 m100 by (simp add: DaysInYear_def)
      qed
    qed
  qed
qed

text \<open>The computed year owns the day: the day lies within the year's own days.\<close>

lemma YearFromDay_bounds:
  "DayFromYear (YearFromDay d) \<le> d \<and>
   d < DayFromYear (YearFromDay d) + DaysInYear (YearFromDay d)"
proof -
  define d0 where "d0 = d + 134774"
  define a where "a = d0 div 146097"
  define r where "r = d0 mod 146097"
  define b where "b = min (r div 36524) 3"
  define r100 where "r100 = r - 36524 * b"
  define c where "c = r100 div 1461"
  define r4 where "r4 = r100 mod 1461"
  define e where "e = min (r4 div 365) 3"
  have Y: "YearFromDay d = 1601 + 400 * a + 100 * b + 4 * c + e"
    unfolding YearFromDay_def Let_def a_def r_def b_def r100_def c_def r4_def e_def d0_def ..
  have d0: "d0 = 146097 * a + r" unfolding a_def r_def by simp
  have r: "0 \<le> r" "r < 146097" unfolding r_def by simp_all
  have rdiv: "0 \<le> r div 36524" "r div 36524 \<le> 4" using r by simp_all
  have b: "0 \<le> b" "b \<le> 3" unfolding b_def using rdiv by simp_all
  have rr: "r = 36524 * (r div 36524) + r mod 36524" by simp
  have rm: "0 \<le> r mod 36524" "r mod 36524 < 36524" by simp_all
  have r100: "0 \<le> r100" "r100 \<le> 36524" "b < 3 \<Longrightarrow> r100 < 36524"
    unfolding r100_def b_def using rr rm rdiv r by (auto simp: min_def)
  have c: "0 \<le> c" "c \<le> 24" unfolding c_def using r100 by simp_all
  have r100e: "r100 = 1461 * c + r4" unfolding c_def r4_def by simp
  have r4: "0 \<le> r4" "r4 < 1461" unfolding r4_def by simp_all
  have r4div: "0 \<le> r4 div 365" "r4 div 365 \<le> 4" using r4 by simp_all
  have e: "0 \<le> e" "e \<le> 3" unfolding e_def using r4div by simp_all
  have r4r: "r4 = 365 * (r4 div 365) + r4 mod 365" by simp
  have r4m: "0 \<le> r4 mod 365" "r4 mod 365 < 365" by simp_all
  have doy: "0 \<le> r4 - 365 * e" "r4 - 365 * e \<le> 365" "e < 3 \<Longrightarrow> r4 - 365 * e < 365"
    unfolding e_def using r4r r4m r4div r4 by (auto simp: min_def)
  have dfy: "DayFromYear (YearFromDay d) = 146097 * a + 36524 * b + 1461 * c + 365 * e - 134774"
    unfolding Y by (rule DayFromYear_decomp) (use b c e in auto)
  have diy: "DaysInYear (YearFromDay d) = (if e = 3 \<and> (c \<noteq> 24 \<or> b = 3) then 366 else 365)"
    unfolding Y by (rule DaysInYear_decomp) (use b c e in auto)
  have deq: "d = DayFromYear (YearFromDay d) + (r4 - 365 * e)"
    unfolding dfy using d0 r100e by (simp add: d0_def r100_def)
  have "r4 - 365 * e < DaysInYear (YearFromDay d)"
  proof (cases "e = 3 \<and> c = 24 \<and> b \<noteq> 3")
    case True
    then have "r100 < 36524" using r100(3) b by simp
    then have "r4 < 1460" using r100e True by simp
    then show ?thesis using True diy by simp
  next
    case False
    then show ?thesis using diy doy e by (auto split: if_splits)
  qed
  then show ?thesis using deq doy by linarith
qed

text \<open>
  Hence \<open>YearFromDay\<close> is the year function of the specification: a day that lies
  within the days of year \<open>y\<close> has year \<open>y\<close>.
\<close>

lemma YearFromDay_unique:
  assumes "DayFromYear y \<le> d" "d < DayFromYear y + DaysInYear y"
  shows "YearFromDay d = y"
proof (rule ccontr)
  assume ne: "YearFromDay d \<noteq> y"
  let ?z = "YearFromDay d"
  have zb: "DayFromYear ?z \<le> d" "d < DayFromYear (?z + 1)"
    using YearFromDay_bounds[of d] DayFromYear_Suc[of ?z] by simp_all
  have yb: "d < DayFromYear (y + 1)" using assms(2) DayFromYear_Suc[of y] by simp
  show False
  proof (cases "?z < y")
    case True
    then have "DayFromYear (?z + 1) \<le> DayFromYear y" by (intro DayFromYear_mono) simp
    then show False using zb assms by linarith
  next
    case False
    then have "y + 1 \<le> ?z" using ne by simp
    then have "DayFromYear (y + 1) \<le> DayFromYear ?z" by (rule DayFromYear_mono)
    then show False using zb yb by linarith
  qed
qed

lemma LeapDays_range: "0 \<le> LeapDays y" "LeapDays y \<le> 1"
  by (simp_all add: LeapDays_def)

lemma DaysInYear_LeapDays: "DaysInYear y = 365 + LeapDays y"
  using DaysInYear_pos[of y] by (auto simp: LeapDays_def DaysInYear_def)

lemma DayWithinYear_range: "0 \<le> DayWithinYear d" "DayWithinYear d < 365 + LeapDays (YearFromDay d)"
  using YearFromDay_bounds[of d] by (simp_all add: DayWithinYear_def DaysInYear_LeapDays)

lemma month_table_range:
  assumes "0 \<le> l" "l \<le> 1" "0 \<le> w" "w < 365 + l"
  shows "0 \<le> monthOfDayWithinYear l w" "monthOfDayWithinYear l w \<le> 11"
    "1 \<le> w - monthStart l (monthOfDayWithinYear l w) + 1"
    "w - monthStart l (monthOfDayWithinYear l w) + 1 \<le> monthLength l (monthOfDayWithinYear l w)"
  using assms by (auto simp: monthOfDayWithinYear_def monthStart_def monthLength_def)

lemma month_cases:
  fixes m :: int
  assumes "0 \<le> m" "m \<le> 11"
  shows "m = 0 \<or> m = 1 \<or> m = 2 \<or> m = 3 \<or> m = 4 \<or> m = 5
    \<or> m = 6 \<or> m = 7 \<or> m = 8 \<or> m = 9 \<or> m = 10 \<or> m = 11"
  using assms by presburger

lemma month_table_inverse:
  assumes l: "0 \<le> l" "l \<le> 1" and m: "0 \<le> m" "m \<le> 11"
    and k: "1 \<le> k" "k \<le> monthLength l m"
  shows "monthOfDayWithinYear l (monthStart l m + k - 1) = m \<and>
    0 \<le> monthStart l m + k - 1 \<and> monthStart l m + k - 1 < 365 + l"
  using month_cases[OF m] l k
  apply (elim disjE)
  apply (simp_all add: monthOfDayWithinYear_def monthStart_def monthLength_def)
  done

lemma month_norm: "0 \<le> (m::int) mod 12" "m mod 12 \<le> 11"
  by simp_all

text \<open>Reading back a date made from a year, a month and a day of that month.\<close>

lemma MakeDay_fields:
  assumes "1 \<le> k" "k \<le> monthLength (LeapDays (y + m div 12)) (m mod 12)"
  shows "YearFromDay (MakeDay y m k) = y + m div 12"
    and "MonthFromDay (MakeDay y m k) = m mod 12"
    and "DateFromDay (MakeDay y m k) = k"
proof -
  let ?ym = "y + m div 12" and ?mn = "m mod 12"
  let ?l = "LeapDays ?ym"
  let ?w = "monthStart ?l ?mn + k - 1"
  have md: "MakeDay y m k = DayFromYear ?ym + ?w" by (simp add: MakeDay_def Let_def)
  have w: "monthOfDayWithinYear ?l ?w = ?mn" "0 \<le> ?w" "?w < 365 + ?l"
    using month_table_inverse[OF LeapDays_range month_norm assms] by blast+
  show Y: "YearFromDay (MakeDay y m k) = ?ym"
    unfolding md by (rule YearFromDay_unique) (use w in \<open>simp_all add: DaysInYear_LeapDays\<close>)
  have dw: "DayWithinYear (MakeDay y m k) = ?w"
    unfolding DayWithinYear_def Y unfolding md by simp
  show M: "MonthFromDay (MakeDay y m k) = ?mn"
    unfolding MonthFromDay_def Y dw by (rule w(1))
  show "DateFromDay (MakeDay y m k) = k"
    unfolding DateFromDay_def Y dw M by simp
qed

lemma monthLength_range: "0 \<le> l \<Longrightarrow> l \<le> 1 \<Longrightarrow> 28 \<le> monthLength l m \<and> monthLength l m \<le> 31"
  by (simp add: monthLength_def)

lemma MonthFromDay_range: "0 \<le> MonthFromDay d" "MonthFromDay d \<le> 11"
  unfolding MonthFromDay_def
  using month_table_range(1,2)[OF LeapDays_range DayWithinYear_range] by simp_all

lemma DateFromDay_range:
  "1 \<le> DateFromDay d"
  "DateFromDay d \<le> monthLength (LeapDays (YearFromDay d)) (MonthFromDay d)"
  unfolding DateFromDay_def MonthFromDay_def
  using month_table_range(3,4)[OF LeapDays_range DayWithinYear_range] by simp_all

lemma WeekDay_range: "0 \<le> WeekDay d" "WeekDay d \<le> 6"
  by (simp_all add: WeekDay_def)

text \<open>Every day is the day made from its own year, month and day of the month.\<close>

lemma MakeDay_of_fields:
  "MakeDay (YearFromDay d) (MonthFromDay d) (DateFromDay d) = d"
proof -
  have "MonthFromDay d div 12 = 0" "MonthFromDay d mod 12 = MonthFromDay d"
    using MonthFromDay_range[of d] by simp_all
  then show ?thesis
    by (simp add: MakeDay_def Let_def DateFromDay_def DayWithinYear_def)
qed

lemma monthStart_next:
  assumes "0 \<le> m" "m \<le> 10"
  shows "monthStart l (m + 1) = monthStart l m + monthLength l m"
proof -
  have "0 \<le> m" "m \<le> 11" using assms by simp_all
  from month_cases[OF this] assms(2) show ?thesis
    by (elim disjE) (simp_all add: monthStart_def monthLength_def)
qed

text \<open>Day \<open>k\<close> of the next month is day \<open>k\<close> past the end of this month.\<close>

lemma MakeDay_next_month:
  "MakeDay y (m + 1) k = MakeDay y m (k + monthLength (LeapDays (y + m div 12)) (m mod 12))"
proof (cases "m mod 12 = 11")
  case True
  have "12 * (m div 12) + m mod 12 = m" by simp
  then have "12 * (m div 12) + 11 = m" using True by simp
  then have e: "m + 1 = 12 * (m div 12 + 1) + 0" by (simp add: algebra_simps)
  have d: "(m + 1) div 12 = m div 12 + 1" by (rule int_div_pos_eq[OF e]) simp_all
  have r: "(m + 1) mod 12 = 0" by (rule int_mod_pos_eq[OF e]) simp_all
  have "DayFromYear (y + m div 12 + 1) = DayFromYear (y + m div 12) + 365 + LeapDays (y + m div 12)"
    using DayFromYear_Suc[of "y + m div 12"] by (simp add: DaysInYear_LeapDays)
  then show ?thesis
    using True by (simp add: MakeDay_def Let_def d r monthStart_def monthLength_def add.assoc)
next
  case False
  then have b: "0 \<le> m mod 12" "m mod 12 \<le> 10" using month_norm[of m] by linarith+
  have e: "m + 1 = 12 * (m div 12) + (m mod 12 + 1)" by simp
  have d: "(m + 1) div 12 = m div 12" by (rule int_div_pos_eq[OF e]) (use b in simp_all)
  have r: "(m + 1) mod 12 = m mod 12 + 1" by (rule int_mod_pos_eq[OF e]) (use b in simp_all)
  show ?thesis
    by (simp add: MakeDay_def Let_def d r monthStart_next[OF b])
qed

lemma monthLength_ge1: "1 \<le> monthLength (LeapDays y) m"
  using monthLength_range[OF LeapDays_range, of y m] by linarith

section \<open>Dates, valid and invalid\<close>

lemma getDate_cases: "getDate t = NaN \<or> (\<exists>n. getDate t = Num n \<and> 1 \<le> n \<and> n \<le> 31)"
proof (cases t)
  case (ValidDate day)
  then show ?thesis
    using DateFromDay_range[of day]
      monthLength_range[OF LeapDays_range, of "YearFromDay day" "MonthFromDay day"]
    by (simp add: getDate_def)
next
  case InvalidDate
  then show ?thesis by (simp add: getDate_def)
qed

lemma getDay_cases: "getDay t = NaN \<or> (\<exists>n. getDay t = Num n \<and> 0 \<le> n \<and> n \<le> 6)"
  by (cases t) (simp_all add: getDay_def WeekDay_range)

lemma getMonth_cases: "getMonth t = NaN \<or> (\<exists>n. getMonth t = Num n \<and> 0 \<le> n \<and> n \<le> 11)"
  by (cases t) (simp_all add: getMonth_def MonthFromDay_range)

lemma getDaysInMonth_cases:
  "getDaysInMonth y m = NaN \<or> (\<exists>n. getDaysInMonth y m = Num n \<and> 1 \<le> n \<and> n \<le> 31)"
  unfolding getDaysInMonth_def by (rule getDate_cases)

lemma getFirstDayOfMonth_cases:
  "getFirstDayOfMonth y m = NaN \<or> (\<exists>n. getFirstDayOfMonth y m = Num n \<and> 0 \<le> n \<and> n \<le> 6)"
  unfolding getFirstDayOfMonth_def by (rule getDay_cases)

section \<open>The loops\<close>

lemma pushDown_NaN: "pushDown f NaN acc = acc"
  by (subst pushDown.simps) (simp add: numGe_def)

lemma pushDown_Num: "pushDown f (Num i) acc = acc @ map (\<lambda>j. f (Num j)) (rev [0..i])"
proof (induction f "Num i" acc arbitrary: i rule: pushDown.induct)
  case (1 f calendarDays)
  show ?case
  proof (cases "i \<ge> 0")
    case True
    then have "[0..i] = [0..i - 1] @ [i]" by (simp add: upto_rec2)
    moreover have "pushDown f (Num (i - 1)) (calendarDays @ [f (Num i)])
        = (calendarDays @ [f (Num i)]) @ map (\<lambda>j. f (Num j)) (rev [0..i - 1])"
      using True by (intro 1) (simp_all add: numGe_def numSub_def)
    ultimately show ?thesis
      using True by (subst pushDown.simps) (simp add: numGe_def numSub_def)
  next
    case False
    then show ?thesis by (subst pushDown.simps) (simp add: numGe_def)
  qed
qed

lemma pushUp_NaN: "pushUp f (Num day) NaN acc = acc"
  by (subst pushUp.simps) (simp add: numLe_def)

lemma pushUp_Num:
  "pushUp f (Num day) (Num limit) acc = acc @ map (\<lambda>j. f (Num j)) [day..limit]"
proof (induction f "Num day" "Num limit" acc arbitrary: day rule: pushUp.induct)
  case (1 f calendarDays)
  show ?case
  proof (cases "day \<le> limit")
    case True
    then have "[day..limit] = day # [day + 1..limit]" by (simp add: upto_rec1)
    moreover have "pushUp f (Num (day + 1)) (Num limit) (calendarDays @ [f (Num day)])
        = (calendarDays @ [f (Num day)]) @ map (\<lambda>j. f (Num j)) [day + 1..limit]"
      using True by (intro 1) (simp_all add: numLe_def numAdd_def)
    ultimately show ?thesis
      using True by (subst pushUp.simps) (simp add: numLe_def numAdd_def)
  next
    case False
    then show ?thesis by (subst pushUp.simps) (simp add: numLe_def)
  qed
qed

lemma pushDown_eq: "pushDown f i acc = acc @ map f (countDown i)"
  by (cases i) (simp_all add: pushDown_Num pushDown_NaN countDown_def o_def)

lemma pushUp_eq: "pushUp f (Num 1) limit acc = acc @ map f (countUp limit)"
  by (cases limit) (simp_all add: pushUp_Num pushUp_NaN countUp_def o_def)

lemma renderCalendar_eq:
  "renderCalendar y m evs tks =
     map (\<lambda>i. renderCalendarDay y m evs tks (numSub (getDaysInMonth y (numSub m (Num 1))) i) False)
       (countDown (numSub (getFirstDayOfMonth y m) (Num 1)))
     @ map (\<lambda>day. renderCalendarDay y m evs tks day True) (countUp (getDaysInMonth y m))
     @ map (\<lambda>day. renderCalendarDay y m evs tks day False)
         (countUp (Num (42 - int (length (countDown (numSub (getFirstDayOfMonth y m) (Num 1))))
            - int (length (countUp (getDaysInMonth y m))))))"
  unfolding renderCalendar_def Let_def pushDown_eq pushUp_eq
  by (simp add: algebra_simps)

lemma length_countDown:
  "i = NaN \<or> (\<exists>n. i = Num n \<and> 0 \<le> n \<and> n \<le> 6) \<Longrightarrow>
   length (countDown (numSub i (Num 1))) \<le> 6"
  by (auto simp: countDown_def numSub_def)

lemma length_countUp:
  "l = NaN \<or> (\<exists>n. l = Num n \<and> 1 \<le> n \<and> n \<le> 31) \<Longrightarrow> length (countUp l) \<le> 31"
  by (auto simp: countUp_def)

lemma renderCalendar_length: "length (renderCalendar y m evs tks) = 42"
proof -
  have a: "length (countDown (numSub (getFirstDayOfMonth y m) (Num 1))) \<le> 6"
    by (rule length_countDown[OF getFirstDayOfMonth_cases])
  have b: "length (countUp (getDaysInMonth y m)) \<le> 31"
    by (rule length_countUp[OF getDaysInMonth_cases])
  show ?thesis unfolding renderCalendar_eq using a b by (simp add: countUp_def)
qed

section \<open>The months of the valid range\<close>

lemma MakeDay_firstOfMonth: "MakeDay y m 1 = firstOfMonth (12 * y + m)"
proof -
  have e: "12 * y + m = 12 * (y + m div 12) + m mod 12" by (simp add: algebra_simps)
  have "(12 * y + m) div 12 = y + m div 12"
    by (rule int_div_pos_eq[OF e]) simp_all
  moreover have "(12 * y + m) mod 12 = m mod 12"
    by (rule int_mod_pos_eq[OF e]) simp_all
  ultimately show ?thesis by (simp add: firstOfMonth_def MakeDay_def Let_def)
qed

lemma firstOfMonth_fields:
  "YearFromDay (firstOfMonth k) = k div 12"
  "MonthFromDay (firstOfMonth k) = k mod 12"
  "DateFromDay (firstOfMonth k) = 1"
  using MakeDay_fields[of 1 0 k] monthLength_ge1 by (simp_all add: firstOfMonth_def)

lemma firstOfMonth_Suc:
  "firstOfMonth (k + 1) = firstOfMonth k + monthLength (LeapDays (k div 12)) (k mod 12)"
  using MakeDay_next_month[of 0 k 1] by (simp add: firstOfMonth_def MakeDay_def Let_def)

lemma firstOfMonth_less: "firstOfMonth k < firstOfMonth (k + 1)"
  using firstOfMonth_Suc[of k] monthLength_ge1[of "k div 12" "k mod 12"] by linarith

lemma firstOfMonth_mono: "k \<le> k' \<Longrightarrow> firstOfMonth k \<le> firstOfMonth k'"
proof (induction k' rule: int_ge_induct)
  case base
  show ?case by simp
next
  case (step i)
  then show ?case using firstOfMonth_less[of i] by linarith
qed

lemma LeapDays_275760: "LeapDays 275760 = 1" and LeapDays_m271821: "LeapDays (- 271821) = 0"
  by (simp_all add: LeapDays_def DaysInYear_def)

lemma firstOfMonth_last: "firstOfMonth lastMonth = 99999988"
  and firstOfMonth_past_last: "firstOfMonth (lastMonth + 1) = 100000018"
  by (simp_all add: firstOfMonth_def lastMonth_def MakeDay_def DayFromYear_def monthStart_def
      LeapDays_275760)

lemma firstOfMonth_first: "firstOfMonth firstMonth = - 99999989"
  and firstOfMonth_before_first: "firstOfMonth (firstMonth - 1) = - 100000019"
  by (simp_all add: firstOfMonth_def firstMonth_def MakeDay_def DayFromYear_def monthStart_def
      LeapDays_m271821)

text \<open>A first of a month is a valid date exactly from \<open>firstMonth\<close> to \<open>lastMonth\<close>.\<close>

lemma TimeClip_firstOfMonth:
  "TimeClip (firstOfMonth k) =
     (if firstMonth \<le> k \<and> k \<le> lastMonth then ValidDate (firstOfMonth k) else InvalidDate)"
proof -
  have hi: "firstOfMonth k \<le> 100000000" if "k \<le> lastMonth"
    using firstOfMonth_mono[OF that] firstOfMonth_last by simp
  have lo: "- 100000000 \<le> firstOfMonth k" if "firstMonth \<le> k"
    using firstOfMonth_mono[OF that] firstOfMonth_first by simp
  have above: "100000000 < firstOfMonth k" if "lastMonth < k"
  proof -
    have "lastMonth + 1 \<le> k" using that by simp
    from firstOfMonth_mono[OF this] show ?thesis using firstOfMonth_past_last by simp
  qed
  have below: "firstOfMonth k < - 100000000" if "k < firstMonth"
  proof -
    have "k \<le> firstMonth - 1" using that by simp
    from firstOfMonth_mono[OF this] show ?thesis using firstOfMonth_before_first by simp
  qed
  show ?thesis
    using hi lo above below by (cases "firstMonth \<le> k"; cases "k \<le> lastMonth") (auto simp: TimeClip_def)
qed

section \<open>Navigation lemmas\<close>

text \<open>A date whose day of the month is 1 is the first of its month.\<close>

lemma first_of_its_month:
  assumes "getDate t = Num 1"
  shows "\<exists>day. t = ValidDate day \<and> day = firstOfMonth (12 * YearFromDay day + MonthFromDay day)"
proof (cases t)
  case (ValidDate day)
  then have "DateFromDay day = 1" using assms by (simp add: getDate_def)
  then have "day = MakeDay (YearFromDay day) (MonthFromDay day) 1"
    using MakeDay_of_fields[of day] by simp
  then show ?thesis using ValidDate by (simp add: MakeDay_firstOfMonth)
next
  case InvalidDate
  then show ?thesis using assms by (simp add: getDate_def)
qed

lemma mod12_next: "12 * (k div 12) + (k mod 12 + 1) = k + (1::int)"
  and mod12_prev: "12 * (k div 12) + (k mod 12 - 1) = k - (1::int)"
  by simp_all

lemma setMonth_firstOfMonth:
  "setMonth (ValidDate (firstOfMonth k)) (numAdd (getMonth (ValidDate (firstOfMonth k))) (Num 1))
     = TimeClip (firstOfMonth (k + 1))"
  "setMonth (ValidDate (firstOfMonth k)) (numSub (getMonth (ValidDate (firstOfMonth k))) (Num 1))
     = TimeClip (firstOfMonth (k - 1))"
  by (simp_all add: setMonth_def getMonth_def numAdd_def numSub_def firstOfMonth_fields
      MakeDay_firstOfMonth mod12_next mod12_prev)

lemma navigateMonth_firstOfMonth:
  assumes "currentDate st = ValidDate (firstOfMonth k)"
  shows "currentDate (navigateMonth Next st) = TimeClip (firstOfMonth (k + 1))"
    and "currentDate (navigateMonth Prev st) = TimeClip (firstOfMonth (k - 1))"
  using assms by (simp_all add: navigateMonth_def Let_def setMonth_firstOfMonth)

lemma navigateMonth_invalid:
  "currentDate st = InvalidDate \<Longrightarrow> currentDate (navigateMonth direction st) = InvalidDate"
  by (simp add: navigateMonth_def Let_def setMonth_def)

lemma navigateMonth_frame: "selectedDate (navigateMonth direction st) = selectedDate st"
  by (simp add: navigateMonth_def Let_def)

lemma handleDayPress_not_current: "handleDayPress day False st = st"
  by (simp add: handleDayPress_def)

lemma handleDayPress_currentDate: "currentDate (handleDayPress day isCurrent st) = currentDate st"
  by (simp add: handleDayPress_def)

lemma iterate_next:
  assumes "currentDate st = ValidDate (firstOfMonth k)" "firstMonth \<le> k" "k + int n \<le> lastMonth"
  shows "currentDate ((navigateMonth Next ^^ n) st) = ValidDate (firstOfMonth (k + int n))"
  using assms(3)
proof (induction n)
  case 0
  show ?case using assms(1) by simp
next
  case (Suc n)
  then have "currentDate ((navigateMonth Next ^^ n) st) = ValidDate (firstOfMonth (k + int n))"
    by simp
  from navigateMonth_firstOfMonth(1)[OF this] show ?case
    using Suc.prems assms(2) by (simp add: TimeClip_firstOfMonth algebra_simps)
qed

lemma iterate_prev:
  assumes "currentDate st = ValidDate (firstOfMonth k)" "k \<le> lastMonth" "firstMonth \<le> k - int n"
  shows "currentDate ((navigateMonth Prev ^^ n) st) = ValidDate (firstOfMonth (k - int n))"
  using assms(3)
proof (induction n)
  case 0
  show ?case using assms(1) by simp
next
  case (Suc n)
  then have "currentDate ((navigateMonth Prev ^^ n) st) = ValidDate (firstOfMonth (k - int n))"
    by simp
  from navigateMonth_firstOfMonth(2)[OF this] show ?case
    using Suc.prems assms(2) by (simp add: TimeClip_firstOfMonth algebra_simps)
qed

lemma iterate_invalid:
  "currentDate st = InvalidDate \<Longrightarrow> currentDate ((navigateMonth direction ^^ n) st) = InvalidDate"
  by (induction n) (simp_all add: navigateMonth_invalid)

lemma reachable_iterate: "reachable st \<Longrightarrow> reachable ((navigateMonth direction ^^ n) st)"
  by (induction n) (simp_all add: reachable.navigate)

lemma firstOfMonth_august_2025: "firstOfMonth 24307 = 20301"
  by (simp add: firstOfMonth_def MakeDay_def DayFromYear_def monthStart_def LeapDays_def DaysInYear_def)

text \<open>August 2025 is month 12 * 2025 + 7 = 24307.\<close>

lemma initial_date: "currentDate initialState = ValidDate (firstOfMonth 24307)"
  by (simp add: initialState_def newDate_def MakeFullYear_def MakeDay_firstOfMonth
      firstOfMonth_august_2025 TimeClip_def)

lemma valid_fields:
  "getFullYear (ValidDate (firstOfMonth k)) = Num (k div 12)"
  "getMonth (ValidDate (firstOfMonth k)) = Num (k mod 12)"
  "getDate (ValidDate (firstOfMonth k)) = Num 1"
  "monthNumber (ValidDate (firstOfMonth k)) = Num k"
  by (simp_all add: getFullYear_def getMonth_def getDate_def monthNumber_def firstOfMonth_fields)

lemma year50_date: "currentDate year50 = ValidDate (firstOfMonth 600)"
  unfolding year50_def
  using iterate_prev[OF initial_date, of 23707] by (simp add: firstMonth_def lastMonth_def)

lemma year50_fields:
  "reachable year50" "currentYear year50 = Num 50" "currentMonth year50 = Num 0"
proof -
  show "reachable year50" unfolding year50_def by (rule reachable_iterate[OF reachable.initial])
  show "currentYear year50 = Num 50" "currentMonth year50 = Num 0"
    by (simp_all add: currentYear_def currentMonth_def year50_date valid_fields)
qed

lemma pastLastMonth_date: "reachable pastLastMonth" "currentDate pastLastMonth = InvalidDate"
proof -
  show "reachable pastLastMonth"
    unfolding pastLastMonth_def by (rule reachable_iterate[OF reachable.initial])
  have a: "currentDate ((navigateMonth Next ^^ 3284821) initialState) = ValidDate (firstOfMonth lastMonth)"
    using iterate_next[OF initial_date, of 3284821] by (simp add: firstMonth_def lastMonth_def)
  have "pastLastMonth = navigateMonth Next ((navigateMonth Next ^^ 3284821) initialState)"
  proof -
    have "(3284822::nat) = Suc 3284821" by simp
    then show ?thesis unfolding pastLastMonth_def by (metis funpow.simps(2) o_apply)
  qed
  then show "currentDate pastLastMonth = InvalidDate"
    using navigateMonth_firstOfMonth(1)[OF a] by (simp add: TimeClip_firstOfMonth)
qed

lemma newDate_fields:
  assumes "1 \<le> k" "k \<le> monthLength (LeapDays (MakeFullYear y + m div 12)) (m mod 12)"
    and "- 100000000 \<le> MakeDay (MakeFullYear y) m k" "MakeDay (MakeFullYear y) m k \<le> 100000000"
  shows "getFullYear (newDate (Num y) (Num m) (Num k)) = Num (MakeFullYear y + m div 12)"
    and "getMonth (newDate (Num y) (Num m) (Num k)) = Num (m mod 12)"
    and "getDate (newDate (Num y) (Num m) (Num k)) = Num k"
  using MakeDay_fields[OF assms(1,2)] assms(3,4)
  by (simp_all add: newDate_def TimeClip_def getFullYear_def getMonth_def getDate_def)

lemma MakeDay_1950_0_5: "MakeDay 1950 0 5 = - 7301"
  by (simp add: MakeDay_def DayFromYear_def monthStart_def)

text \<open>
  Outside the years 0 to 99 a press on a day of the displayed month selects that day of
  the displayed month and year, provided the day is a valid date.
\<close>

lemma handleDayPress_current:
  assumes "currentYear st = Num y" "currentMonth st = Num m" "\<not> (0 \<le> y \<and> y \<le> 99)"
    and "1 \<le> day" "day \<le> monthLength (LeapDays y) m"
    and "- 100000000 \<le> MakeDay y m day" "MakeDay y m day \<le> 100000000"
  shows "map_option getFullYear (selectedDate (handleDayPress (Num day) True st)) = Some (Num y)"
    and "map_option getMonth (selectedDate (handleDayPress (Num day) True st)) = Some (Num m)"
    and "map_option getDate (selectedDate (handleDayPress (Num day) True st)) = Some (Num day)"
proof -
  have "getMonth (currentDate st) = Num m" using assms(2) by (simp add: currentMonth_def)
  then have "0 \<le> m \<and> m \<le> 11" using getMonth_cases[of "currentDate st"] by auto
  then have m: "m div 12 = 0" "m mod 12 = m" by simp_all
  have y: "MakeFullYear y = y" using assms(3) by (simp add: MakeFullYear_def)
  from newDate_fields[of day y m] assms(4-7)
  show "map_option getFullYear (selectedDate (handleDayPress (Num day) True st)) = Some (Num y)"
    and "map_option getMonth (selectedDate (handleDayPress (Num day) True st)) = Some (Num m)"
    and "map_option getDate (selectedDate (handleDayPress (Num day) True st)) = Some (Num day)"
    by (simp_all add: handleDayPress_def assms(1,2) m y)
qed

text \<open>The first of a month moves by one month, or leaves the valid range.\<close>

lemma navigateMonth_step:
  assumes "getDate (currentDate st) = Num 1" "monthNumber (currentDate st) = Num k"
  shows "currentDate (navigateMonth Next st) = TimeClip (firstOfMonth (k + 1))"
    and "currentDate (navigateMonth Prev st) = TimeClip (firstOfMonth (k - 1))"
proof -
  from first_of_its_month[OF assms(1)] obtain day where
    day: "currentDate st = ValidDate day" "day = firstOfMonth (12 * YearFromDay day + MonthFromDay day)"
    by blast
  have "k = 12 * YearFromDay day + MonthFromDay day"
    using assms(2) day(1) by (simp add: monthNumber_def)
  then have "currentDate st = ValidDate (firstOfMonth k)" using day by simp
  from navigateMonth_firstOfMonth[OF this]
  show "currentDate (navigateMonth Next st) = TimeClip (firstOfMonth (k + 1))"
    and "currentDate (navigateMonth Prev st) = TimeClip (firstOfMonth (k - 1))" by simp_all
qed

lemma reachable_date:
  "reachable st \<Longrightarrow>
   currentDate st = InvalidDate \<or>
   (\<exists>k. firstMonth \<le> k \<and> k \<le> lastMonth \<and> currentDate st = ValidDate (firstOfMonth k))"
proof (induction rule: reachable.induct)
  case initial
  show ?case
    by (intro disjI2 exI[of _ 24307]) (simp add: initial_date firstMonth_def lastMonth_def)
next
  case (navigate st direction)
  from navigate(2) show ?case
  proof
    assume "currentDate st = InvalidDate"
    then show ?thesis by (simp add: navigateMonth_invalid)
  next
    assume "\<exists>k. firstMonth \<le> k \<and> k \<le> lastMonth \<and> currentDate st = ValidDate (firstOfMonth k)"
    then obtain k where kb: "firstMonth \<le> k" "k \<le> lastMonth"
      and k: "currentDate st = ValidDate (firstOfMonth k)" by blast
    show ?thesis
    proof (cases direction)
      case Next
      show ?thesis
      proof (cases "k + 1 \<le> lastMonth")
        case True
        then have "currentDate (navigateMonth direction st) = ValidDate (firstOfMonth (k + 1))"
          using navigateMonth_firstOfMonth(1)[OF k] kb Next by (simp add: TimeClip_firstOfMonth)
        then show ?thesis using True kb by (intro disjI2 exI[of _ "k + 1"]) simp
      next
        case False
        then show ?thesis
          using navigateMonth_firstOfMonth(1)[OF k] Next by (simp add: TimeClip_firstOfMonth)
      qed
    next
      case Prev
      show ?thesis
      proof (cases "firstMonth \<le> k - 1")
        case True
        then have "currentDate (navigateMonth direction st) = ValidDate (firstOfMonth (k - 1))"
          using navigateMonth_firstOfMonth(2)[OF k] kb Prev by (simp add: TimeClip_firstOfMonth)
        then show ?thesis using True kb by (intro disjI2 exI[of _ "k - 1"]) simp
      next
        case False
        then show ?thesis
          using navigateMonth_firstOfMonth(2)[OF k] Prev by (simp add: TimeClip_firstOfMonth)
      qed
    qed
  qed
next
  case (press st day isCurrent)
  then show ?case by (simp add: handleDayPress_currentDate)
qed

section \<open>The shape of the grid\<close>

lemma MakeDay_day: "MakeDay y m d = MakeDay y m 1 + (d - 1)"
  by (simp add: MakeDay_def Let_def)

lemma daysOfMonth_eq: "daysOfMonth y m = monthLength (LeapDays (y + m div 12)) (m mod 12)"
  using MakeDay_next_month[of y m 1] MakeDay_day[of y m "1 + monthLength (LeapDays (y + m div 12)) (m mod 12)"]
  by (simp add: daysOfMonth_def)

lemma daysOfMonth_range: "28 \<le> daysOfMonth y m" "daysOfMonth y m \<le> 31"
  using monthLength_range[OF LeapDays_range, of "y + m div 12" "m mod 12"]
  by (simp_all add: daysOfMonth_eq)

lemma last_day_of_month: "MakeDay y (m + 1) 0 = MakeDay y m (daysOfMonth y m)"
  using MakeDay_next_month[of y m 0] by (simp add: daysOfMonth_eq)

lemma getDaysInMonth_eq:
  assumes "- 100000000 \<le> MakeDay (MakeFullYear y) (m + 1) 0"
    "MakeDay (MakeFullYear y) (m + 1) 0 \<le> 100000000"
  shows "getDaysInMonth (Num y) (Num m) = Num (daysOfMonth (MakeFullYear y) m)"
proof -
  let ?Y = "MakeFullYear y"
  have len: "1 \<le> daysOfMonth ?Y m" using daysOfMonth_range(1)[of ?Y m] by simp
  have "getDaysInMonth (Num y) (Num m) = Num (DateFromDay (MakeDay ?Y (m + 1) 0))"
    using assms by (simp add: getDaysInMonth_def newDate_def getDate_def numAdd_def TimeClip_def)
  also have "DateFromDay (MakeDay ?Y (m + 1) 0) = DateFromDay (MakeDay ?Y m (daysOfMonth ?Y m))"
    by (simp add: last_day_of_month)
  also have "\<dots> = daysOfMonth ?Y m"
    by (rule MakeDay_fields(3)) (use len in \<open>simp_all add: daysOfMonth_eq\<close>)
  finally show ?thesis .
qed

lemma getDaysInMonth_invalid:
  "100000000 < MakeDay (MakeFullYear y) (m + 1) 0 \<Longrightarrow> getDaysInMonth (Num y) (Num m) = NaN"
  by (simp add: getDaysInMonth_def newDate_def getDate_def numAdd_def TimeClip_def)

lemma getFirstDayOfMonth_eq:
  assumes "- 100000000 \<le> MakeDay (MakeFullYear y) m 1" "MakeDay (MakeFullYear y) m 1 \<le> 100000000"
  shows "getFirstDayOfMonth (Num y) (Num m) = Num (weekdayOfFirst (MakeFullYear y) m)"
  using assms by (simp add: getFirstDayOfMonth_def newDate_def getDay_def TimeClip_def weekdayOfFirst_def)

lemma countdown_days:
  assumes "- 1 \<le> n"
  shows "map (\<lambda>i. dp - i) (rev [0..n]) = [dp - n..dp]"
  using assms
proof (induction n rule: int_ge_induct)
  case base
  show ?case by simp
next
  case (step i)
  have a: "[0..i + 1] = [0..i] @ [i + 1]" using step.hyps by (simp add: upto_rec2)
  have b: "[dp - (i + 1)..dp] = (dp - (i + 1)) # [dp - i..dp]"
    using step.hyps by (subst upto_rec1) (simp_all add: algebra_simps)
  show ?case using step by (simp add: a b)
qed

lemma cell_fields:
  "cellDay (renderCalendarDay y m evs tks d b) = d"
  "isCurrentMonth (renderCalendarDay y m evs tks d b) = b"
  by (simp_all add: renderCalendarDay_def Let_def)

lemma leading_days:
  assumes "0 \<le> fw"
  shows "map (\<lambda>i. (numSub (Num dp) i, False)) (countDown (numSub (Num fw) (Num 1)))
     = map (\<lambda>d. (Num d, False)) [dp - fw + 1..dp]"
proof -
  have "map (\<lambda>i. dp - i) (rev [0..fw - 1]) = [dp - (fw - 1)..dp]"
    by (rule countdown_days) (use assms in simp)
  then have "map (\<lambda>d. (Num d, False)) (map (\<lambda>i. dp - i) (rev [0..fw - 1]))
      = map (\<lambda>d. (Num d, False)) [dp - fw + 1..dp]"
    by (simp add: algebra_simps)
  then show ?thesis
    by (simp add: countDown_def numSub_def o_def rev_map)
qed

text \<open>The day numbers and flags of the grid, when the three quantities are numbers.\<close>

lemma grid_days:
  assumes "getFirstDayOfMonth y m = Num fw" "getDaysInMonth y m = Num dim"
    "getDaysInMonth y (numSub m (Num 1)) = Num dp"
  shows "map (\<lambda>c. (cellDay c, isCurrentMonth c)) (renderCalendar y m evs tks) =
     map (\<lambda>d. (Num d, False)) [dp - fw + 1..dp]
     @ map (\<lambda>d. (Num d, True)) [1..dim]
     @ map (\<lambda>d. (Num d, False)) [1..42 - fw - dim]"
proof -
  have fw: "0 \<le> fw" "fw \<le> 6" using getFirstDayOfMonth_cases[of y m] assms(1) by auto
  have dim: "1 \<le> dim" "dim \<le> 31" using getDaysInMonth_cases[of y m] assms(2) by auto
  have a: "int (length (countDown (numSub (Num fw) (Num 1)))) = fw"
    using fw by (simp add: countDown_def numSub_def)
  have b: "int (length (countUp (Num dim))) = dim"
    using dim by (simp add: countUp_def)
  show ?thesis
    unfolding renderCalendar_eq assms a b
    by (simp add: cell_fields o_def leading_days[OF fw(1), unfolded o_def] countUp_def)
qed

text \<open>Without a month length there is no cell of the current month.\<close>

lemma grid_days_no_length:
  assumes "getFirstDayOfMonth y m = Num fw" "getDaysInMonth y m = NaN"
    "getDaysInMonth y (numSub m (Num 1)) = Num dp"
  shows "map (\<lambda>c. (cellDay c, isCurrentMonth c)) (renderCalendar y m evs tks) =
     map (\<lambda>d. (Num d, False)) [dp - fw + 1..dp]
     @ map (\<lambda>d. (Num d, False)) [1..42 - fw]"
proof -
  have fw: "0 \<le> fw" "fw \<le> 6" using getFirstDayOfMonth_cases[of y m] assms(1) by auto
  have a: "int (length (countDown (numSub (Num fw) (Num 1)))) = fw"
    using fw by (simp add: countDown_def numSub_def)
  show ?thesis
    unfolding renderCalendar_eq assms a
    by (simp add: cell_fields o_def leading_days[OF fw(1), unfolded o_def] countUp_def)
qed

lemma current_cells:
  assumes "map (\<lambda>c. (cellDay c, isCurrentMonth c)) cells =
     map (\<lambda>d. (Num d, False)) before @ map (\<lambda>d. (Num d, True)) current
       @ map (\<lambda>d. (Num d, False)) after"
  shows "length (filter isCurrentMonth cells) = length current"
proof -
  have "length (filter snd (map (\<lambda>c. (cellDay c, isCurrentMonth c)) cells)) = length current"
    unfolding assms by (simp add: filter_map o_def)
  then show ?thesis by (simp add: filter_map o_def)
qed

text \<open>
  The grid of a month whose year the \<^verbatim>\<open>Date\<close> constructor reads as it is, and whose
  days, with the last day of the month before, are all valid dates.
\<close>

lemma month_grid:
  assumes "\<not> (0 \<le> y \<and> y \<le> 99)" "- 100000000 \<le> MakeDay y m 0" "MakeDay y (m + 1) 0 \<le> 100000000"
  shows "getFirstDayOfMonth (Num y) (Num m) = Num (weekdayOfFirst y m)"
    and "getDaysInMonth (Num y) (Num m) = Num (daysOfMonth y m)"
    and "getDaysInMonth (Num y) (numSub (Num m) (Num 1)) = Num (daysOfMonth y (m - 1))"
    and "map (\<lambda>c. (cellDay c, isCurrentMonth c)) (renderCalendar (Num y) (Num m) evs tks) =
       map (\<lambda>d. (Num d, False)) [daysOfMonth y (m - 1) - weekdayOfFirst y m + 1..daysOfMonth y (m - 1)]
       @ map (\<lambda>d. (Num d, True)) [1..daysOfMonth y m]
       @ map (\<lambda>d. (Num d, False)) [1..42 - weekdayOfFirst y m - daysOfMonth y m]"
proof -
  have y: "MakeFullYear y = y" using assms(1) by (simp add: MakeFullYear_def)
  have first: "MakeDay y m 1 = MakeDay y m 0 + 1" using MakeDay_day[of y m 0] by simp
  have lastd: "MakeDay y (m + 1) 0 = MakeDay y m 1 + (daysOfMonth y m - 1)"
    using last_day_of_month[of y m] MakeDay_day[of y m "daysOfMonth y m"] by simp
  have r1: "- 100000000 \<le> MakeDay y m 1" "MakeDay y m 1 \<le> 100000000"
    using assms(2,3) first lastd daysOfMonth_range(1)[of y m] by simp_all
  have r2: "- 100000000 \<le> MakeDay y (m + 1) 0"
    using assms(2) first lastd daysOfMonth_range(1)[of y m] by simp
  have r3: "MakeDay y (m - 1 + 1) 0 \<le> 100000000" using r1 first by simp
  show a: "getFirstDayOfMonth (Num y) (Num m) = Num (weekdayOfFirst y m)"
    using getFirstDayOfMonth_eq[of y m] r1 by (simp add: y)
  show b: "getDaysInMonth (Num y) (Num m) = Num (daysOfMonth y m)"
    using getDaysInMonth_eq[of y m] r2 assms(3) by (simp add: y)
  show c: "getDaysInMonth (Num y) (numSub (Num m) (Num 1)) = Num (daysOfMonth y (m - 1))"
    using getDaysInMonth_eq[of y "m - 1"] assms(2) r3 by (simp add: y numSub_def)
  show "map (\<lambda>c. (cellDay c, isCurrentMonth c)) (renderCalendar (Num y) (Num m) evs tks) =
       map (\<lambda>d. (Num d, False)) [daysOfMonth y (m - 1) - weekdayOfFirst y m + 1..daysOfMonth y (m - 1)]
       @ map (\<lambda>d. (Num d, True)) [1..daysOfMonth y m]
       @ map (\<lambda>d. (Num d, False)) [1..42 - weekdayOfFirst y m - daysOfMonth y m]"
    by (rule grid_days[OF a b c])
qed

lemma december_before_january: "daysOfMonth y (0 - 1) = 31"
  by (simp add: daysOfMonth_eq monthLength_def)

lemma LeapDays_2024: "LeapDays 2024 = 1" and LeapDays_2023: "LeapDays 2023 = 0"
  and LeapDays_2025: "LeapDays 2025 = 0"
  by (simp_all add: LeapDays_def DaysInYear_def)

lemma february: "daysOfMonth 2024 1 = 29" "daysOfMonth 2023 1 = 28"
  by (simp_all add: daysOfMonth_eq monthLength_def LeapDays_2024 LeapDays_2023)

lemma MakeDay_samples:
  "MakeDay 2025 7 1 = 20301" "MakeDay 2025 0 1 = 20089" "MakeDay 2024 1 1 = 19754"
  "MakeDay 2023 1 1 = 19389" "MakeDay 1970 0 1 = 0" "MakeDay 50 0 1 = - 701265"
  "MakeDay 1950 0 1 = - 7305"
  by (simp_all add: MakeDay_def DayFromYear_def monthStart_def LeapDays_def DaysInYear_def)

lemma august_2025:
  "weekdayOfFirst 2025 7 = 5" "daysOfMonth 2025 7 = 31" "daysOfMonth 2025 (7 - 1) = 31"
  by (simp_all add: weekdayOfFirst_def MakeDay_samples WeekDay_def daysOfMonth_eq monthLength_def LeapDays_2025)

lemma january_2025:
  "weekdayOfFirst 2025 0 = 3" "daysOfMonth 2025 0 = 31"
  by (simp_all add: weekdayOfFirst_def MakeDay_samples WeekDay_def daysOfMonth_eq monthLength_def LeapDays_2025)

lemma no_current_cells:
  assumes "map (\<lambda>c. (cellDay c, isCurrentMonth c)) cells = map (\<lambda>d. (Num d, False)) days"
  shows "filter isCurrentMonth cells = []"
proof -
  have "map isCurrentMonth cells = map snd (map (\<lambda>c. (cellDay c, isCurrentMonth c)) cells)"
    by (simp add: o_def)
  then have "map isCurrentMonth cells = map (\<lambda>d. False) days"
    unfolding assms by (simp add: o_def)
  then have "set (map isCurrentMonth cells) \<subseteq> {False}" by auto
  then show ?thesis by (auto simp: filter_empty_conv)
qed

lemma month_before_january: "MakeDay y (0 - 1) d = MakeDay (y - 1) 11 d"
proof -
  have "(- 1::int) div 12 = - 1" "(- 1::int) mod 12 = 11" by simp_all
  then show ?thesis by (simp add: MakeDay_def Let_def)
qed

lemma MakeDay_ranges:
  "MakeDay 2024 1 0 = 19753" "MakeDay 2024 2 0 = 19782"
  "MakeDay 2023 1 0 = 19388" "MakeDay 2023 2 0 = 19416"
  "MakeDay 2025 0 0 = 20088" "MakeDay 2025 1 0 = 20119"
  "MakeDay 2025 7 0 = 20300" "MakeDay 2025 8 0 = 20331"
  by (simp_all add: MakeDay_def DayFromYear_def monthStart_def LeapDays_def DaysInYear_def)

lemma february_cells:
  "length (filter isCurrentMonth (renderCalendar (Num 2024) (Num 1) evs tks)) = 29"
  "length (filter isCurrentMonth (renderCalendar (Num 2023) (Num 1) evs tks)) = 28"
proof -
  have "length (filter isCurrentMonth (renderCalendar (Num 2024) (Num 1) evs tks))
      = length [1..daysOfMonth 2024 1]"
    by (rule current_cells, rule month_grid(4)) (simp_all add: MakeDay_ranges)
  then show "length (filter isCurrentMonth (renderCalendar (Num 2024) (Num 1) evs tks)) = 29"
    by (simp add: february)
  have "length (filter isCurrentMonth (renderCalendar (Num 2023) (Num 1) evs tks))
      = length [1..daysOfMonth 2023 1]"
    by (rule current_cells, rule month_grid(4)) (simp_all add: MakeDay_ranges)
  then show "length (filter isCurrentMonth (renderCalendar (Num 2023) (Num 1) evs tks)) = 28"
    by (simp add: february)
qed

lemma weekdayOfFirst_range: "0 \<le> weekdayOfFirst y m" "weekdayOfFirst y m \<le> 6"
  by (simp_all add: weekdayOfFirst_def WeekDay_range)

lemma september275760_fields:
  "reachable september275760" "currentYear september275760 = Num 275760"
  "currentMonth september275760 = Num 8"
proof -
  have "currentDate september275760 = ValidDate (firstOfMonth (24307 + int 3284821))"
    unfolding september275760_def
    by (rule iterate_next[OF initial_date]) (simp_all add: firstMonth_def lastMonth_def)
  then have d: "currentDate september275760 = ValidDate (firstOfMonth 3309128)" by simp
  show "reachable september275760"
    unfolding september275760_def by (rule reachable_iterate[OF reachable.initial])
  show "currentYear september275760 = Num 275760" "currentMonth september275760 = Num 8"
    by (simp_all add: currentYear_def currentMonth_def d valid_fields)
qed

lemma september_275760:
  "getFirstDayOfMonth (Num 275760) (Num 8) = Num 1"
  "getDaysInMonth (Num 275760) (Num 8) = NaN"
  "getDaysInMonth (Num 275760) (numSub (Num 8) (Num 1)) = Num 31"
  "daysOfMonth 275760 8 = 30"
proof -
  have f: "MakeDay 275760 8 1 = 99999988"
    using firstOfMonth_last by (simp add: MakeDay_firstOfMonth lastMonth_def)
  have y: "MakeFullYear 275760 = 275760" by (simp add: MakeFullYear_def)
  show "getFirstDayOfMonth (Num 275760) (Num 8) = Num 1"
    using getFirstDayOfMonth_eq[of 275760 8] by (simp add: y f weekdayOfFirst_def WeekDay_def)
  show len: "daysOfMonth 275760 8 = 30" by (simp add: daysOfMonth_eq monthLength_def)
  have "MakeDay 275760 9 0 = 99999988 + 29"
    using last_day_of_month[of 275760 8] MakeDay_day[of 275760 8 30] by (simp add: len f)
  then show "getDaysInMonth (Num 275760) (Num 8) = NaN"
    by (intro getDaysInMonth_invalid) (simp add: y)
  have p: "MakeDay 275760 8 0 = 99999987" using MakeDay_day[of 275760 8 0] by (simp add: f)
  have "getDaysInMonth (Num 275760) (Num 7) = Num (daysOfMonth 275760 7)"
    using getDaysInMonth_eq[of 275760 7] by (simp add: y p)
  then show "getDaysInMonth (Num 275760) (numSub (Num 8) (Num 1)) = Num 31"
    by (simp add: numSub_def daysOfMonth_eq monthLength_def)
qed

lemma january_50:
  "getFirstDayOfMonth (Num 50) (Num 0) = Num 0" "weekdayOfFirst 50 0 = 6"
  using getFirstDayOfMonth_eq[of 50 0]
  by (simp_all add: MakeFullYear_def weekdayOfFirst_def MakeDay_samples WeekDay_def)

section \<open>The filter and the key\<close>

lemma startsWith_take: "startsWith s k \<longleftrightarrow> take (length k) s = k"
  by (induction s k rule: startsWith.induct) auto

lemma matchesDate_beginsWith: "matchesDate key field = beginsWith key field"
  by (simp add: matchesDate_def beginsWith_def startsWith_take split: option.splits)

lemma filterByDate_eq:
  "filterByDate field key xs = filter (\<lambda>x. beginsWith key (field x)) (present (Some xs))"
  by (induction field key xs rule: filterByDate.induct)
     (simp_all add: present_def orEmpty_def matchesDate_beginsWith)

lemma filterByDate_present:
  "filterByDate field key (orEmpty xs) = filter (\<lambda>x. beginsWith key (field x)) (present xs)"
  using filterByDate_eq[of field key "orEmpty xs"] by (simp add: present_def orEmpty_def)

lemma digits_nonempty: "1 \<le> length (digits n)"
  by (induction n rule: digits.induct) (subst digits.simps, simp)

lemma digits_length_ge:
  "10 \<le> n \<Longrightarrow> 2 \<le> length (digits n)"
  "100 \<le> n \<Longrightarrow> 3 \<le> length (digits n)"
  "1000 \<le> n \<Longrightarrow> 4 \<le> length (digits n)"
proof -
  have step: "10 \<le> m \<Longrightarrow> length (digits m) = length (digits (m div 10)) + 1" for m
    by (subst digits.simps) simp
  show a: "10 \<le> n \<Longrightarrow> 2 \<le> length (digits n)" for n
    using step[of n] digits_nonempty[of "n div 10"] by simp
  show b: "100 \<le> n \<Longrightarrow> 3 \<le> length (digits n)" for n
    using step[of n] a[of "n div 10"] by simp
  show "1000 \<le> n \<Longrightarrow> 4 \<le> length (digits n)"
    using step[of n] b[of "n div 10"] by simp
qed

lemma year_unpadded: "1000 \<le> y \<Longrightarrow> padStart 4 CHR ''0'' (String (Num y)) = String (Num y)"
  using digits_length_ge(3)[of "nat y"] by (simp add: padStart_def String_def)

lemma dateString_iso: "1000 \<le> y \<Longrightarrow> dateString (Num y) m d = isoDateKey (Num y) m d"
  by (simp add: dateString_def isoDateKey_def year_unpadded)

lemma dateString_2025_08_02: "dateString (Num 2025) (Num 8) (Num 2) = ''2025-08-02''"
  and dateString_2025_08_03: "dateString (Num 2025) (Num 8) (Num 3) = ''2025-08-03''"
  and dateString_2025_08_27: "dateString (Num 2025) (Num 8) (Num 27) = ''2025-08-27''"
  and dateString_999_08_02: "dateString (Num 999) (Num 8) (Num 2) = ''999-08-02''"
  by (simp_all add: dateString_def String_def padStart_def digits.simps)

lemma getEventsForDate_eq:
  "getEventsForDate y m evs tks d =
     \<lparr>dayEvents = filter (\<lambda>e. beginsWith (dateString y (numAdd m (Num 1)) d) (start_datetime e)) (present evs),
      dayTasks = filter (\<lambda>t. beginsWith (dateString y (numAdd m (Num 1)) d) (due_date t)) (present tks)\<rparr>"
  by (simp add: getEventsForDate_def Let_def filterByDate_present)

lemma getEventsForSelectedDate_eq:
  "getEventsForSelectedDate (Some sel) evs tks =
     \<lparr>dayEvents = filter (\<lambda>e. beginsWith
          (dateString (getFullYear sel) (numAdd (getMonth sel) (Num 1)) (getDate sel)) (start_datetime e)) (present evs),
      dayTasks = filter (\<lambda>t. beginsWith
          (dateString (getFullYear sel) (numAdd (getMonth sel) (Num 1)) (getDate sel)) (due_date t)) (present tks)\<rparr>"
  by (simp add: getEventsForSelectedDate_def Let_def filterByDate_present)

lemma present_simps:
  "present None = []" "present (Some []) = []"
  "present (Some (None # xs)) = present (Some xs)"
  "present (Some (Some x # xs)) = x # present (Some xs)"
  by (simp_all add: present_def orEmpty_def)

lemma renderCalendarDay_eq:
  "renderCalendarDay y m evs tks d b =
     \<lparr>cellDay = d, isCurrentMonth = b,
      cellEvents = filter (\<lambda>e. beginsWith (dateString y (numAdd m (Num 1)) d) (start_datetime e)) (present evs),
      cellTasks = filter (\<lambda>t. beginsWith (dateString y (numAdd m (Num 1)) d) (due_date t)) (present tks)\<rparr>"
  by (simp add: renderCalendarDay_def Let_def getEventsForDate_eq)

text \<open>Every cell, of the displayed month or not, is filled from the displayed month's key.\<close>

lemma cell_lists:
  assumes "c \<in> set (renderCalendar y m evs tks)"
  shows "cellEvents c = filter (\<lambda>e. beginsWith (dateString y (numAdd m (Num 1)) (cellDay c)) (start_datetime e)) (present evs)"
    and "cellTasks c = filter (\<lambda>t. beginsWith (dateString y (numAdd m (Num 1)) (cellDay c)) (due_date t)) (present tks)"
proof -
  from assms obtain d b where "c = renderCalendarDay y m evs tks d b"
    unfolding renderCalendar_eq by auto
  then show "cellEvents c = filter (\<lambda>e. beginsWith (dateString y (numAdd m (Num 1)) (cellDay c)) (start_datetime e)) (present evs)"
    and "cellTasks c = filter (\<lambda>t. beginsWith (dateString y (numAdd m (Num 1)) (cellDay c)) (due_date t)) (present tks)"
    by (simp_all add: renderCalendarDay_eq)
qed

lemma first_cell_august_2025:
  "renderCalendar (Num 2025) (Num 7) evs tks ! 0
     = renderCalendarDay (Num 2025) (Num 7) evs tks (Num 27) False"
proof -
  have h: "\<not> (0 \<le> (2025::int) \<and> (2025::int) \<le> 99)" "- 100000000 \<le> MakeDay 2025 7 0"
    "MakeDay 2025 (7 + 1) 0 \<le> 100000000"
    by (simp_all add: MakeDay_ranges)
  note g = month_grid(1,2,3)[OF h]
  have "rev [0..(4::int)] = [4, 3, 2, 1, 0]" by (simp add: upto_rec1)
  then show ?thesis
    unfolding renderCalendar_eq g using august_2025
    by (simp add: countDown_def numSub_def)
qed

section \<open>The month-view response\<close>

lemma isArray_truthy: "isArray x \<Longrightarrow> truthy x"
  by (cases x) (simp_all add: isArray_def truthy_def)

lemma isArray_elements: "isArray x \<Longrightarrow> x = JArr (elements x)"
  by (cases x) (simp_all add: isArray_def elements_def)

lemma property_of_array: "isArray x \<Longrightarrow> property x name = JUndefined"
  by (cases x) (simp_all add: isArray_def property_def)

lemma flatMap_events:
  "flatMap (\<lambda>day. property day ''events'') (filter hasEvents days)
     = concat (map (\<lambda>day. if hasEvents day then elements (property day ''events'') else []) days)"
proof (induction days)
  case Nil
  show ?case by (simp add: flatMap_def flat_def)
next
  case (Cons day days)
  show ?case
  proof (cases "hasEvents day")
    case True
    then have "property day ''events'' = JArr (elements (property day ''events''))"
      by (intro isArray_elements) (simp add: hasEvents_def)
    moreover have "flat [JArr zs] = zs" for zs by (simp add: flat_def)
    ultimately have "flat [property day ''events''] = elements (property day ''events'')"
      by metis
    then show ?thesis using Cons True by (simp add: flatMap_def flat_def)
  next
    case False
    then show ?thesis using Cons by simp
  qed
qed

section \<open>Reading back a written date\<close>

lemma digit_char:
  assumes "n < 10"
  shows "isDigit (''0123456789'' ! n)" "digitValue (''0123456789'' ! n) = n"
proof -
  have "\<forall>k \<in> set [0..<10]. isDigit (''0123456789'' ! k) \<and> digitValue (''0123456789'' ! k) = k"
    by (simp add: upt_rec isDigit_def digitValue_def)
  then show "isDigit (''0123456789'' ! n)" "digitValue (''0123456789'' ! n) = n"
    using assms by simp_all
qed

lemma digits_digitsOnly: "digitsOnly (digits n)"
proof (induction n rule: digits.induct)
  case (1 n)
  show ?case
  proof (cases "n < 10")
    case True
    then show ?thesis
      by (subst digits.simps) (simp add: digitsOnly_def digit_char(1))
  next
    case False
    then have "digitsOnly (digits (n div 10))" by (rule 1)
    moreover have "isDigit (''0123456789'' ! (n mod 10))" by (rule digit_char(1)) simp
    ultimately show ?thesis
      using False by (subst digits.simps) (simp add: digitsOnly_def)
  qed
qed

lemma valueOf_digits: "foldl (\<lambda>n c. 10 * n + digitValue c) 0 (digits n) = n"
proof (induction n rule: digits.induct)
  case (1 n)
  show ?case
  proof (cases "n < 10")
    case True
    then show ?thesis by (subst digits.simps) (simp add: digit_char(2))
  next
    case False
    then have "foldl (\<lambda>n c. 10 * n + digitValue c) 0 (digits (n div 10)) = n div 10" by (rule 1)
    moreover have "digitValue (''0123456789'' ! (n mod 10)) = n mod 10" by (rule digit_char(2)) simp
    ultimately show ?thesis
      using False by (subst digits.simps) simp
  qed
qed

lemma foldl_zeros: "foldl (\<lambda>n c. 10 * n + digitValue c) 0 (replicate k CHR ''0'') = 0"
  by (induction k) (simp_all add: digitValue_def)

lemma digits_length_le:
  "n < 10 \<Longrightarrow> length (digits n) = 1"
  "n < 100 \<Longrightarrow> length (digits n) \<le> 2"
  "n < 1000 \<Longrightarrow> length (digits n) \<le> 3"
  "n < 10000 \<Longrightarrow> length (digits n) \<le> 4"
proof -
  have step: "\<not> m < 10 \<Longrightarrow> length (digits m) = length (digits (m div 10)) + 1" for m
    by (subst digits.simps) simp
  show a: "n < 10 \<Longrightarrow> length (digits n) = 1" for n
    by (subst digits.simps) simp
  show b: "n < 100 \<Longrightarrow> length (digits n) \<le> 2" for n
    using step[of n] a[of n] a[of "n div 10"] by (cases "n < 10") simp_all
  show c: "n < 1000 \<Longrightarrow> length (digits n) \<le> 3" for n
    using step[of n] a[of n] b[of "n div 10"] by (cases "n < 10") simp_all
  show "n < 10000 \<Longrightarrow> length (digits n) \<le> 4"
    using step[of n] a[of n] c[of "n div 10"] by (cases "n < 10") simp_all
qed

text \<open>A number written with \<open>k\<close> digits, zero-padded, reads back as itself.\<close>

lemma padded:
  assumes "0 \<le> n" "length (digits (nat n)) \<le> k"
  shows "length (padStart k CHR ''0'' (String (Num n))) = k"
    and "digitsOnly (padStart k CHR ''0'' (String (Num n)))"
    and "numberOf (padStart k CHR ''0'' (String (Num n))) = n"
proof -
  have s: "String (Num n) = digits (nat n)" using assms(1) by (simp add: String_def)
  show "length (padStart k CHR ''0'' (String (Num n))) = k"
    using assms(2) by (simp add: s padStart_def)
  have "isDigit CHR ''0''" by (simp add: isDigit_def)
  then show "digitsOnly (padStart k CHR ''0'' (String (Num n)))"
    using digits_digitsOnly[of "nat n"] by (auto simp: s padStart_def digitsOnly_def list_all_iff)
  show "numberOf (padStart k CHR ''0'' (String (Num n))) = n"
    using assms(1) by (simp add: s padStart_def numberOf_def foldl_zeros valueOf_digits)
qed

lemma readDate_parts:
  assumes "length a = 4" "length b = 2" "length c = 2" "digitsOnly a" "digitsOnly b" "digitsOnly c"
  shows "readDate (a @ ''-'' @ b @ ''-'' @ c @ rest) = Some (numberOf a, numberOf b, numberOf c)"
    and "drop 10 (a @ ''-'' @ b @ ''-'' @ c @ rest) = rest"
proof -
  let ?s = "a @ ''-'' @ b @ ''-'' @ c @ rest"
  have t4: "take 4 ?s = a" using assms(1) by simp
  have d5: "drop 5 ?s = b @ ''-'' @ c @ rest" using assms(1) by simp
  have d8: "drop 8 ?s = c @ rest" using assms(1,2) by simp
  have n4: "?s ! 4 = CHR ''-''" using assms(1) by (simp add: nth_append)
  have n7: "?s ! 7 = CHR ''-''" using assms(1,2) by (simp add: nth_append)
  have len: "10 \<le> length ?s" using assms(1,2,3) by simp
  have t2b: "take 2 (drop 5 ?s) = b" unfolding d5 using assms(2) by simp
  have t2c: "take 2 (drop 8 ?s) = c" unfolding d8 using assms(3) by simp
  show "readDate ?s = Some (numberOf a, numberOf b, numberOf c)"
    unfolding readDate_def t4 t2b t2c n4 n7 using len assms(4,5,6) by simp
  show "drop 10 ?s = rest" using assms(1,2,3) by simp
qed

lemma readDate_isoDateKey:
  assumes "calendarDate y m d"
  shows "readDate (isoDateKey (Num y) (Num m) (Num d) @ rest) = Some (y, m, d)"
    and "drop 10 (isoDateKey (Num y) (Num m) (Num d) @ rest) = rest"
proof -
  have b: "0 \<le> y" "y \<le> 9999" "1 \<le> m" "m \<le> 12" "1 \<le> d" "d \<le> monthLength (LeapDays y) (m - 1)"
    using assms by (simp_all add: calendarDate_def)
  have "d \<le> 31"
    using b monthLength_range[OF LeapDays_range, of y "m - 1"] by simp
  then have n: "nat y < 10000" "nat m < 100" "nat d < 100" using b by linarith+
  have y: "0 \<le> y" "length (digits (nat y)) \<le> 4"
    using b digits_length_le(4)[OF n(1)] by simp_all
  have m: "0 \<le> m" "length (digits (nat m)) \<le> 2"
    using b digits_length_le(2)[OF n(2)] by simp_all
  have d: "0 \<le> d" "length (digits (nat d)) \<le> 2"
    using b digits_length_le(2)[OF n(3)] by simp_all
  note py = padded[OF y] and pm = padded[OF m] and pd = padded[OF d]
  have e: "isoDateKey (Num y) (Num m) (Num d) @ rest =
      padStart 4 CHR ''0'' (String (Num y)) @ ''-'' @ padStart 2 CHR ''0'' (String (Num m)) @ ''-''
        @ padStart 2 CHR ''0'' (String (Num d)) @ rest"
    by (simp add: isoDateKey_def)
  show "readDate (isoDateKey (Num y) (Num m) (Num d) @ rest) = Some (y, m, d)"
    unfolding e using readDate_parts(1)[OF py(1) pm(1) pd(1) py(2) pm(2) pd(2), of rest]
    by (simp add: py(3) pm(3) pd(3))
  show "drop 10 (isoDateKey (Num y) (Num m) (Num d) @ rest) = rest"
    unfolding e by (rule readDate_parts(2)[OF py(1) pm(1) pd(1) py(2) pm(2) pd(2)])
qed

lemma isoDateKey_nonempty: "isoDateKey y m d @ rest \<noteq> []"
  by (simp add: isoDateKey_def)

lemma dayOf_calendarDate:
  "calendarDate y m d \<Longrightarrow> dayOf y m d = Time (MakeDay y (m - 1) d)"
  using monthLength_range[OF LeapDays_range, of y "m - 1"]
  by (simp add: calendarDate_def dayOf_def)

lemma DayFromYear_0: "DayFromYear 0 = - 719528" and DayFromYear_10000: "DayFromYear 10000 = 2932897"
  by (simp_all add: DayFromYear_def)

lemma calendarDate_day_range:
  assumes "calendarDate y m d"
  shows "- 719528 \<le> MakeDay y (m - 1) d" "MakeDay y (m - 1) d < 2932897"
proof -
  have b: "0 \<le> y" "y \<le> 9999" "1 \<le> m" "m \<le> 12" "1 \<le> d" "d \<le> monthLength (LeapDays y) (m - 1)"
    using assms by (simp_all add: calendarDate_def)
  have f: "YearFromDay (MakeDay y (m - 1) d) = y + (m - 1) div 12"
    by (rule MakeDay_fields(1)) (use b in simp_all)
  have "(m - 1) div 12 = 0" using b by simp
  then have yr: "YearFromDay (MakeDay y (m - 1) d) = y" using f by simp
  note yb = YearFromDay_bounds[of "MakeDay y (m - 1) d"]
  have "DayFromYear 0 \<le> DayFromYear y" by (rule DayFromYear_mono) (use b in simp)
  then show "- 719528 \<le> MakeDay y (m - 1) d" using yb yr by (simp add: DayFromYear_0)
  have "DayFromYear (y + 1) \<le> DayFromYear 10000" by (rule DayFromYear_mono) (use b in simp)
  then show "MakeDay y (m - 1) d < 2932897"
    using yb yr DayFromYear_Suc[of y] by (simp add: DayFromYear_10000)
qed

section \<open>The time of a date string\<close>

lemma clipTime_day:
  assumes "- 719528 \<le> day" "day < 2932897" "- 86400000 < ms" "ms < 172800000"
  shows "clipTime (86400000 * day + ms) = Some (86400000 * day + ms)"
  using assms by (simp add: clipTime_def)

text \<open>A date alone is midnight UTC of that day.\<close>

lemma dateParse_date_only:
  assumes "calendarDate y m d"
  shows "dateParse localTZA engine (isoDateKey (Num y) (Num m) (Num d))
     = Some (86400000 * MakeDay y (m - 1) d)"
proof -
  have "isoParse localTZA (isoDateKey (Num y) (Num m) (Num d)) = Time (86400000 * MakeDay y (m - 1) d)"
    using readDate_isoDateKey[OF assms, of "[]"] isoDateKey_nonempty[of "Num y" "Num m" "Num d" "[]"]
    by (simp add: isoParse_def dayOf_calendarDate[OF assms])
  moreover have "clipTime (86400000 * MakeDay y (m - 1) d + 0) = Some (86400000 * MakeDay y (m - 1) d + 0)"
    by (rule clipTime_day[OF calendarDate_day_range[OF assms]]) simp_all
  ultimately show ?thesis by (simp add: dateParse_def)
qed

text \<open>A date with a time of day, and with or without a zone.\<close>

lemma isoParse_date_time:
  assumes "calendarDate y m d" "rest \<noteq> []" "readTime rest = Some (t, z)" "readZone z = Some zone"
  shows "isoParse localTZA (isoDateKey (Num y) (Num m) (Num d) @ rest) =
     (if msOf t = Illegal \<or> zoneIllegal zone then Illegal
      else (case msOf t of
              Time ms \<Rightarrow> Time (toUTC localTZA zone (86400000 * MakeDay y (m - 1) d + ms))
            | _ \<Rightarrow> Unspecified))"
  using readDate_isoDateKey[OF assms(1), of rest] isoDateKey_nonempty[of "Num y" "Num m" "Num d" rest]
    assms(2,3,4)
  by (simp add: isoParse_def dayOf_calendarDate[OF assms(1)])

lemma readTime_samples:
  "readTime ''T14:00:00Z'' = Some ((14, 0, 0, 0), ''Z'')"
  "readTime ''T14:00:00'' = Some ((14, 0, 0, 0), [])"
  "readTime ''T10:00:00Z'' = Some ((10, 0, 0, 0), ''Z'')"
  "readTime ''T09:00:00Z'' = Some ((9, 0, 0, 0), ''Z'')"
  "readTime ''T25:00:00Z'' = Some ((25, 0, 0, 0), ''Z'')"
  "readTime ''T01:00:00'' = Some ((1, 0, 0, 0), [])"
  by (simp_all add: readTime_def Let_def digitsOnly_def isDigit_def numberOf_def digitValue_def)

lemma readZone_samples: "readZone ''Z'' = Some Zulu" "readZone [] = Some NoZone"
  by (simp_all add: readZone_def)

lemma dateParse_zulu:
  assumes "calendarDate y m d"
  shows "dateParse localTZA engine (isoDateKey (Num y) (Num m) (Num d) @ ''T14:00:00Z'')
       = Some (86400000 * MakeDay y (m - 1) d + 50400000)"
    and "dateParse localTZA engine (isoDateKey (Num y) (Num m) (Num d) @ ''T10:00:00Z'')
       = Some (86400000 * MakeDay y (m - 1) d + 36000000)"
    and "dateParse localTZA engine (isoDateKey (Num y) (Num m) (Num d) @ ''T09:00:00Z'')
       = Some (86400000 * MakeDay y (m - 1) d + 32400000)"
    and "dateParse localTZA engine (isoDateKey (Num y) (Num m) (Num d) @ ''T25:00:00Z'') = None"
proof -
  note r = calendarDate_day_range[OF assms]
  have a: "isoParse localTZA (isoDateKey (Num y) (Num m) (Num d) @ ''T14:00:00Z'')
      = Time (86400000 * MakeDay y (m - 1) d + 50400000)"
    by (subst isoParse_date_time[OF assms _ readTime_samples(1) readZone_samples(1)])
       (simp_all add: msOf_def zoneIllegal_def toUTC_def)
  have b: "isoParse localTZA (isoDateKey (Num y) (Num m) (Num d) @ ''T10:00:00Z'')
      = Time (86400000 * MakeDay y (m - 1) d + 36000000)"
    by (subst isoParse_date_time[OF assms _ readTime_samples(3) readZone_samples(1)])
       (simp_all add: msOf_def zoneIllegal_def toUTC_def)
  have c: "isoParse localTZA (isoDateKey (Num y) (Num m) (Num d) @ ''T09:00:00Z'')
      = Time (86400000 * MakeDay y (m - 1) d + 32400000)"
    by (subst isoParse_date_time[OF assms _ readTime_samples(4) readZone_samples(1)])
       (simp_all add: msOf_def zoneIllegal_def toUTC_def)
  have d: "isoParse localTZA (isoDateKey (Num y) (Num m) (Num d) @ ''T25:00:00Z'') = Illegal"
    by (subst isoParse_date_time[OF assms _ readTime_samples(5) readZone_samples(1)])
       (simp_all add: msOf_def zoneIllegal_def toUTC_def)
  show "dateParse localTZA engine (isoDateKey (Num y) (Num m) (Num d) @ ''T14:00:00Z'')
       = Some (86400000 * MakeDay y (m - 1) d + 50400000)"
    unfolding dateParse_def a using clipTime_day[OF r, of 50400000] by simp
  show "dateParse localTZA engine (isoDateKey (Num y) (Num m) (Num d) @ ''T10:00:00Z'')
       = Some (86400000 * MakeDay y (m - 1) d + 36000000)"
    unfolding dateParse_def b using clipTime_day[OF r, of 36000000] by simp
  show "dateParse localTZA engine (isoDateKey (Num y) (Num m) (Num d) @ ''T09:00:00Z'')
       = Some (86400000 * MakeDay y (m - 1) d + 32400000)"
    unfolding dateParse_def c using clipTime_day[OF r, of 32400000] by simp
  show "dateParse localTZA engine (isoDateKey (Num y) (Num m) (Num d) @ ''T25:00:00Z'') = None"
    unfolding dateParse_def d by simp
qed

section \<open>The agenda's order\<close>

lemma mset_insertSorted: "mset (insertSorted c x ys) = add_mset x (mset ys)"
  by (induction ys) simp_all

lemma mset_sortWith: "mset (sortWith c xs) = mset xs"
  by (induction xs) (simp_all add: sortWith_def mset_insertSorted)

lemma conformingSort_sortWith: "conformingSort sortWith"
  by (simp add: conformingSort_def mset_sortWith)

lemma conformingSort_empty: "conformingSort engineSort \<Longrightarrow> engineSort c [] = []"
proof -
  assume "conformingSort engineSort"
  then have "mset (engineSort c []) = mset []" unfolding conformingSort_def by blast
  then show ?thesis by simp
qed

lemma compare_valid:
  assumes "itemTime parse a \<noteq> None" "itemTime parse b \<noteq> None"
  shows "sortOrder (compareItems parse a b) = the (itemTime parse a) - the (itemTime parse b)"
  using assms by (auto simp: compareItems_def sortOrder_def)

lemma compare_not_NaN:
  assumes "itemTime parse a \<noteq> None" "itemTime parse b \<noteq> None"
  shows "compareItems parse a b \<noteq> None"
  using assms by (auto simp: compareItems_def)

text \<open>When every time is valid the comparator is consistent.\<close>

lemma consistent_valid:
  assumes "\<forall>a\<in>S. itemTime parse a \<noteq> None"
  shows "consistentComparator (compareItems parse) S"
  unfolding consistentComparator_def
  using assms by (auto simp: compare_valid compare_not_NaN)

lemma insertSorted_insort:
  assumes "itemTime parse x \<noteq> None" "\<forall>y\<in>set ys. itemTime parse y \<noteq> None"
  shows "insertSorted (compareItems parse) x ys = insort_key (\<lambda>a. the (itemTime parse a)) x ys"
  using assms by (induction ys) (simp_all add: compare_valid)

lemma sortWith_sort_key:
  assumes "\<forall>y\<in>set xs. itemTime parse y \<noteq> None"
  shows "sortWith (compareItems parse) xs = sort_key (\<lambda>a. the (itemTime parse a)) xs"
  using assms
proof (induction xs)
  case Nil
  show ?case by (simp add: sortWith_def)
next
  case (Cons x xs)
  then have "sortWith (compareItems parse) xs = sort_key (\<lambda>a. the (itemTime parse a)) xs" by simp
  moreover have "\<forall>y\<in>set (sort_key (\<lambda>a. the (itemTime parse a)) xs). itemTime parse y \<noteq> None"
    using Cons.prems by simp
  ultimately show ?case
    using Cons.prems insertSorted_insort[of parse x "sort_key (\<lambda>a. the (itemTime parse a)) xs"]
    by (simp add: sortWith_def)
qed

lemma engineSort_sort_key:
  assumes "conformingSort engineSort" "\<forall>y\<in>set xs. itemTime parse y \<noteq> None"
  shows "engineSort (compareItems parse) xs = sort_key (\<lambda>a. the (itemTime parse a)) xs"
proof -
  have "consistentComparator (compareItems parse) (set xs)" by (rule consistent_valid[OF assms(2)])
  then have "engineSort (compareItems parse) xs = sortWith (compareItems parse) xs"
    using assms(1) unfolding conformingSort_def by blast
  then show ?thesis by (simp add: sortWith_sort_key[OF assms(2)])
qed

lemma filter_key_valid:
  assumes "\<forall>y\<in>set xs. itemTime parse y \<noteq> None"
  shows "filter (\<lambda>a. itemTime parse a = Some k) xs = filter (\<lambda>a. the (itemTime parse a) = k) xs"
  using assms by (intro filter_cong) auto

text \<open>
  The agenda of a day whose items all have a valid time: the events and tasks of the
  day, ascending in time, those of one time in the order events, then tasks.
\<close>

lemma agenda_valid:
  assumes "conformingSort engineSort"
    and valid: "\<forall>a \<in> set (map EventItem (dayEvents items) @ map TaskItem (dayTasks items)).
       itemTime parse a \<noteq> None"
  shows "mset (allItems engineSort parse items)
       = mset (map EventItem (dayEvents items) @ map TaskItem (dayTasks items))"
    and "sorted (map (\<lambda>a. the (itemTime parse a)) (allItems engineSort parse items))"
    and "filter (\<lambda>a. itemTime parse a = Some k) (allItems engineSort parse items)
       = map EventItem (filter (\<lambda>e. itemTime parse (EventItem e) = Some k) (dayEvents items))
         @ map TaskItem (filter (\<lambda>t. itemTime parse (TaskItem t) = Some k) (dayTasks items))"
proof -
  let ?merged = "map EventItem (dayEvents items) @ map TaskItem (dayTasks items)"
  let ?key = "\<lambda>a. the (itemTime parse a)"
  have eq: "allItems engineSort parse items = sort_key ?key ?merged"
    unfolding allItems_def by (rule engineSort_sort_key[OF assms(1) valid])
  show "mset (allItems engineSort parse items) = mset ?merged" unfolding eq by simp
  show "sorted (map ?key (allItems engineSort parse items))" unfolding eq by simp
  have valid': "\<forall>a \<in> set (sort_key ?key ?merged). itemTime parse a \<noteq> None"
    using valid by simp
  have "filter (\<lambda>a. itemTime parse a = Some k) (sort_key ?key ?merged)
      = filter (\<lambda>a. ?key a = k) (sort_key ?key ?merged)"
    by (rule filter_key_valid[OF valid'])
  also have "\<dots> = filter (\<lambda>a. ?key a = k) ?merged" by (rule sort_key_stable)
  also have "\<dots> = filter (\<lambda>a. itemTime parse a = Some k) ?merged"
    by (rule filter_key_valid[OF valid, symmetric])
  also have "\<dots> = map EventItem (filter (\<lambda>e. itemTime parse (EventItem e) = Some k) (dayEvents items))
       @ map TaskItem (filter (\<lambda>t. itemTime parse (TaskItem t) = Some k) (dayTasks items))"
    by (simp add: filter_map o_def)
  finally show "filter (\<lambda>a. itemTime parse a = Some k) (allItems engineSort parse items)
       = map EventItem (filter (\<lambda>e. itemTime parse (EventItem e) = Some k) (dayEvents items))
         @ map TaskItem (filter (\<lambda>t. itemTime parse (TaskItem t) = Some k) (dayTasks items))"
    unfolding eq .
qed

text \<open>One event and one task: the task comes first exactly when its time is the earlier.\<close>

lemma agenda_pair:
  assumes "conformingSort engineSort"
    and "itemTime parse (EventItem e) = Some start" "itemTime parse (TaskItem t) = Some due"
  shows "allItems engineSort parse \<lparr>dayEvents = [e], dayTasks = [t]\<rparr> =
     (if due < start then [TaskItem t, EventItem e] else [EventItem e, TaskItem t])"
proof -
  have valid: "\<forall>y\<in>set [EventItem e, TaskItem t]. itemTime parse y \<noteq> None"
    using assms(2,3) by simp
  have "engineSort (compareItems parse) [EventItem e, TaskItem t]
      = sort_key (\<lambda>a. the (itemTime parse a)) [EventItem e, TaskItem t]"
    by (rule engineSort_sort_key[OF assms(1) valid])
  then show ?thesis using assms(2,3) by (simp add: allItems_def)
qed

lemma dateParse_local_time:
  assumes "calendarDate y m d" "rest \<noteq> []" "readTime rest = Some (t, [])" "msOf t = Time ms"
    and "0 \<le> ms" "ms < 86400000"
    and "- 86400000 < localTZA (86400000 * MakeDay y (m - 1) d + ms)"
    and "localTZA (86400000 * MakeDay y (m - 1) d + ms) < 86400000"
  shows "dateParse localTZA engine (isoDateKey (Num y) (Num m) (Num d) @ rest)
       = Some (86400000 * MakeDay y (m - 1) d + ms - localTZA (86400000 * MakeDay y (m - 1) d + ms))"
proof -
  let ?t = "86400000 * MakeDay y (m - 1) d + ms"
  have a: "isoParse localTZA (isoDateKey (Num y) (Num m) (Num d) @ rest) = Time (?t - localTZA ?t)"
    by (subst isoParse_date_time[OF assms(1,2,3) readZone_samples(2)])
       (simp_all add: assms(4) zoneIllegal_def toUTC_def)
  have "clipTime (86400000 * MakeDay y (m - 1) d + (ms - localTZA ?t))
      = Some (86400000 * MakeDay y (m - 1) d + (ms - localTZA ?t))"
    by (rule clipTime_day[OF calendarDate_day_range[OF assms(1)]]) (use assms(5-8) in simp_all)
  then show ?thesis unfolding dateParse_def a by (simp add: algebra_simps)
qed

lemma renderSelectedDayEvents_eq:
  "renderSelectedDayEvents engineSort parse (Some sel) events tasks =
     (if allItems engineSort parse (getEventsForSelectedDate (Some sel) events tasks) = [] then EmptyDay
      else EventsList (allItems engineSort parse (getEventsForSelectedDate (Some sel) events tasks)))"
  by (simp add: renderSelectedDayEvents_def Let_def)

lemma key_2025_08_02: "isoDateKey (Num 2025) (Num 8) (Num 2) = ''2025-08-02''"
  by (simp add: isoDateKey_def String_def padStart_def digits.simps)

lemma calendarDate_2025_08_02: "calendarDate 2025 8 2"
  by (simp add: calendarDate_def monthLength_def)

lemma MakeDay_2025_7_2: "MakeDay 2025 7 2 = 20302"
  by (simp add: MakeDay_def DayFromYear_def monthStart_def LeapDays_def DaysInYear_def)

lemma msOf_samples: "msOf (14, 0, 0, 0) = Time 50400000" "msOf (1, 0, 0, 0) = Time 3600000"
  by (simp_all add: msOf_def)

lemma selected_2_august_2025:
  "getFullYear (newDate (Num 2025) (Num 7) (Num 2)) = Num 2025"
  "numAdd (getMonth (newDate (Num 2025) (Num 7) (Num 2))) (Num 1) = Num 8"
  "getDate (newDate (Num 2025) (Num 7) (Num 2)) = Num 2"
  using newDate_fields[of 2 2025 7]
  by (simp_all add: MakeFullYear_def monthLength_def MakeDay_2025_7_2 numAdd_def)

lemma sample_times:
  "dateParse localTZA engine ''2025-08-02'' = Some 1754092800000"
  "dateParse localTZA engine ''2025-08-02T14:00:00Z'' = Some 1754143200000"
  "dateParse localTZA engine ''2025-08-02T10:00:00Z'' = Some 1754128800000"
  "dateParse localTZA engine ''2025-08-02T09:00:00Z'' = Some 1754125200000"
  "dateParse localTZA engine ''2025-08-02T25:00:00Z'' = None"
  using dateParse_date_only[OF calendarDate_2025_08_02, of localTZA engine]
    dateParse_zulu[OF calendarDate_2025_08_02, of localTZA engine]
  by (simp_all add: key_2025_08_02 MakeDay_2025_7_2)

lemma sample_local_times:
  "dateParse utcPlus14 engine ''2025-08-02T14:00:00'' = Some 1754092800000"
  "dateParse utcPlus2 engine ''2025-08-02T01:00:00'' = Some 1754089200000"
proof -
  have "dateParse utcPlus14 engine (isoDateKey (Num 2025) (Num 8) (Num 2) @ ''T14:00:00'')
      = Some (86400000 * MakeDay 2025 (8 - 1) 2 + 50400000
          - utcPlus14 (86400000 * MakeDay 2025 (8 - 1) 2 + 50400000))"
    by (rule dateParse_local_time[OF calendarDate_2025_08_02 _ readTime_samples(2) msOf_samples(1)])
       (simp_all add: utcPlus14_def)
  then show "dateParse utcPlus14 engine ''2025-08-02T14:00:00'' = Some 1754092800000"
    by (simp add: key_2025_08_02 MakeDay_2025_7_2 utcPlus14_def)
  have "dateParse utcPlus2 engine (isoDateKey (Num 2025) (Num 8) (Num 2) @ ''T01:00:00'')
      = Some (86400000 * MakeDay 2025 (8 - 1) 2 + 3600000
          - utcPlus2 (86400000 * MakeDay 2025 (8 - 1) 2 + 3600000))"
    by (rule dateParse_local_time[OF calendarDate_2025_08_02 _ readTime_samples(6) msOf_samples(2)])
       (simp_all add: utcPlus2_def)
  then show "dateParse utcPlus2 engine ''2025-08-02T01:00:00'' = Some 1754089200000"
    by (simp add: key_2025_08_02 MakeDay_2025_7_2 utcPlus2_def)
qed

lemma sample_day:
  "getEventsForSelectedDate (Some (newDate (Num 2025) (Num 7) (Num 2)))
       (Some [Some (eventAt ''2025-08-02T10:00:00Z''), Some (eventAt ''2025-08-02T25:00:00Z''),
              Some (eventAt ''2025-08-02T09:00:00Z'')]) None
     = \<lparr>dayEvents = [eventAt ''2025-08-02T10:00:00Z'', eventAt ''2025-08-02T25:00:00Z'',
          eventAt ''2025-08-02T09:00:00Z''], dayTasks = []\<rparr>"
  by (simp add: getEventsForSelectedDate_eq selected_2_august_2025 dateString_2025_08_02
      present_simps beginsWith_def eventAt_def)

text \<open>
  On the three events of the sample the comparator is not consistent: the event that
  does not parse ties with both others, which do not tie with each other.
\<close>

lemma comparator_inconsistent:
  "\<not> consistentComparator (compareItems (dateParse localTZA engine))
      (set [EventItem (eventAt ''2025-08-02T10:00:00Z''), EventItem (eventAt ''2025-08-02T25:00:00Z''),
            EventItem (eventAt ''2025-08-02T09:00:00Z'')])"
  by (simp add: consistentComparator_def compareItems_def itemTime_def eventAt_def sample_times)

section \<open>The filter at run time\<close>

lemma startsWithCall_missing: "missingField name x \<Longrightarrow> startsWithCall (property x name) key = Inr False"
  by (auto simp: missingField_def startsWithCall_def)

lemma startsWithCall_text:
  "textField name x \<Longrightarrow> startsWithCall (property x name) key = Inr (fieldBeginsWith name key x)"
  by (auto simp: textField_def startsWithCall_def fieldBeginsWith_def startsWith_take split: json.splits)

lemma startsWithCall_other:
  "\<not> missingField name x \<Longrightarrow> \<not> textField name x \<Longrightarrow> startsWithCall (property x name) key = Inl TypeError"
  by (auto simp: missingField_def textField_def startsWithCall_def split: json.splits)

lemma missing_never_matches: "missingField name x \<Longrightarrow> \<not> fieldBeginsWith name key x"
  by (auto simp: missingField_def fieldBeginsWith_def)

text \<open>
  The filter returns exactly when every date field it meets is missing or a string, and
  then it keeps the elements whose string begins with the key.
\<close>

lemma filterAtRuntime_eq:
  "filterAtRuntime name key xs =
     (if list_all (\<lambda>x. missingField name x \<or> textField name x) xs
      then Inr (filter (fieldBeginsWith name key) xs) else Inl TypeError)"
proof (induction xs)
  case Nil
  show ?case by simp
next
  case (Cons x xs)
  consider "missingField name x" | "textField name x" | "\<not> missingField name x" "\<not> textField name x"
    by blast
  then show ?case
  proof cases
    case 1
    then show ?thesis
      using Cons by (simp add: startsWithCall_missing missing_never_matches)
  next
    case 2
    then show ?thesis using Cons by (simp add: startsWithCall_text)
  next
    case 3
    then show ?thesis by (simp add: startsWithCall_other)
  qed
qed

lemma filterBoth_eq:
  assumes "missingOrText ''start_datetime'' events" "missingOrText ''due_date'' tasks"
  shows "filterBoth key events tasks =
     Inr (filter (fieldBeginsWith ''start_datetime'' key) (orEmpty events),
          filter (fieldBeginsWith ''due_date'' key) (orEmpty tasks))"
  using assms by (simp add: filterBoth_def filterAtRuntime_eq missingOrText_def)

lemma filterBoth_raises:
  assumes "\<not> missingOrText ''start_datetime'' events \<or> \<not> missingOrText ''due_date'' tasks"
  shows "filterBoth key events tasks = Inl TypeError"
  using assms by (auto simp: filterBoth_def filterAtRuntime_eq missingOrText_def)

lemma orEmpty_empty: "xs = None \<or> xs = Some [] \<Longrightarrow> orEmpty xs = []"
  by (auto simp: orEmpty_def)

lemma missingOrText_empty: "xs = None \<or> xs = Some [] \<Longrightarrow> missingOrText name xs"
  by (auto simp: missingOrText_def orEmpty_def)

text \<open>Typed events and tasks, as the objects they are at run time, never raise.\<close>

lemma property_eventObject:
  "property (eventObject x) ''start_datetime'' =
     (case x of None \<Rightarrow> JUndefined
      | Some e \<Rightarrow> (case start_datetime e of None \<Rightarrow> JUndefined | Some s \<Rightarrow> JStr s))"
  by (simp add: property_def eventObject_def dateMember_def split: option.splits)

lemma property_taskObject:
  "property (taskObject x) ''due_date'' =
     (case x of None \<Rightarrow> JUndefined
      | Some t \<Rightarrow> (case due_date t of None \<Rightarrow> JUndefined | Some s \<Rightarrow> JStr s))"
  by (simp add: property_def taskObject_def dateMember_def split: option.splits)

lemma typed_events_at_runtime:
  "filterAtRuntime ''start_datetime'' key (map eventObject xs)
     = Inr (map (\<lambda>e. eventObject (Some e)) (filterByDate start_datetime key xs))"
proof (induction xs)
  case Nil
  show ?case by simp
next
  case (Cons x xs)
  show ?case
  proof (cases x)
    case None
    then show ?thesis using Cons by (simp add: property_eventObject startsWithCall_def)
  next
    case (Some e)
    then show ?thesis
      using Cons
      by (cases "start_datetime e") (simp_all add: property_eventObject startsWithCall_def matchesDate_def)
  qed
qed

lemma typed_tasks_at_runtime:
  "filterAtRuntime ''due_date'' key (map taskObject xs)
     = Inr (map (\<lambda>t. taskObject (Some t)) (filterByDate due_date key xs))"
proof (induction xs)
  case Nil
  show ?case by simp
next
  case (Cons x xs)
  show ?case
  proof (cases x)
    case None
    then show ?thesis using Cons by (simp add: property_taskObject startsWithCall_def)
  next
    case (Some t)
    then show ?thesis
      using Cons
      by (cases "due_date t") (simp_all add: property_taskObject startsWithCall_def matchesDate_def)
  qed
qed

lemma orEmpty_map: "orEmpty (map_option (map f) xs) = map f (orEmpty xs)"
  by (cases xs) (simp_all add: orEmpty_def)

lemma typed_filter_at_runtime:
  "getEventsForDateAtRuntime y m (map_option (map eventObject) events)
       (map_option (map taskObject) tasks) d
     = Inr (map (\<lambda>e. eventObject (Some e)) (dayEvents (getEventsForDate y m events tasks d)),
            map (\<lambda>t. taskObject (Some t)) (dayTasks (getEventsForDate y m events tasks d)))"
  by (simp add: getEventsForDateAtRuntime_def filterBoth_def orEmpty_map typed_events_at_runtime
      typed_tasks_at_runtime getEventsForDate_def Let_def)

section \<open>The claims\<close>

text \<open>
  C1. For every year and every month the month grid has exactly 42 day cells, whatever
  the length of the month and whatever weekday it starts on; also when a year or month
  is \<^verbatim>\<open>NaN\<close> or names no date a \<^verbatim>\<open>Date\<close> can hold.
\<close>

theorem C1_grid_has_42_cells: "length (renderCalendar y m evs tks) = 42"
  by (rule renderCalendar_length)

text \<open>
  C2. Every cell of the grid, the cells of the adjacent months included, should hold the
  events and tasks of the cell's own calendar date. In the code every cell is filled from
  the key of the displayed month and the cell's day number (\<open>cell_lists\<close>): in the grid
  of August 2025 the first cell is 27 July, and it holds an event of 27 August, which
  does not begin with the key of 27 July.
\<close>

theorem C2_adjacent_cell_filled_from_displayed_month:
  "cellDay (renderCalendar (Num 2025) (Num 7) (Some [Some (eventAt ''2025-08-27T10:00:00Z'')]) None ! 0)
     = Num 27 \<and>
   \<not> isCurrentMonth (renderCalendar (Num 2025) (Num 7)
        (Some [Some (eventAt ''2025-08-27T10:00:00Z'')]) None ! 0) \<and>
   cellEvents (renderCalendar (Num 2025) (Num 7) (Some [Some (eventAt ''2025-08-27T10:00:00Z'')]) None ! 0)
     = [eventAt ''2025-08-27T10:00:00Z''] \<and>
   \<not> beginsWith (isoDateKey (Num 2025) (Num 7) (Num 27))
        (start_datetime (eventAt ''2025-08-27T10:00:00Z''))"
  unfolding first_cell_august_2025 renderCalendarDay_eq
  by (simp add: numAdd_def dateString_2025_08_27 present_simps beginsWith_def eventAt_def)
     (simp add: isoDateKey_def String_def padStart_def digits.simps)

text \<open>
  C3. For a target date (year, one-based month, day) both filters return exactly the
  events whose start timestamp, and the tasks whose due date, begins with the key
  year-month-day, the month and the day padded to two digits and the year written as it
  is; for a year of at least four digits that is the zero-padded key YYYY-MM-DD. The event
  starting at 2025-08-02T10:00:00Z matches (2025, 8, 2) and not (2025, 8, 3).
\<close>

theorem C3_date_match_filter:
  "getEventsForDate y m evs tks d =
     \<lparr>dayEvents = filter (\<lambda>e. beginsWith (dateString y (numAdd m (Num 1)) d) (start_datetime e)) (present evs),
      dayTasks = filter (\<lambda>t. beginsWith (dateString y (numAdd m (Num 1)) d) (due_date t)) (present tks)\<rparr> \<and>
   getEventsForSelectedDate (Some sel) evs tks =
     \<lparr>dayEvents = filter (\<lambda>e. beginsWith
          (dateString (getFullYear sel) (numAdd (getMonth sel) (Num 1)) (getDate sel)) (start_datetime e)) (present evs),
      dayTasks = filter (\<lambda>t. beginsWith
          (dateString (getFullYear sel) (numAdd (getMonth sel) (Num 1)) (getDate sel)) (due_date t)) (present tks)\<rparr> \<and>
   numAdd (Num (k - 1)) (Num 1) = Num k \<and>
   dateString y m d =
     String y @ ''-'' @ padStart 2 CHR ''0'' (String m) @ ''-'' @ padStart 2 CHR ''0'' (String d) \<and>
   (1000 \<le> n \<longrightarrow> dateString (Num n) m d = isoDateKey (Num n) m d) \<and>
   dateString (Num 2025) (Num 8) (Num 2) = ''2025-08-02'' \<and>
   beginsWith (dateString (Num 2025) (Num 8) (Num 2)) (Some ''2025-08-02T10:00:00Z'') \<and>
   \<not> beginsWith (dateString (Num 2025) (Num 8) (Num 3)) (Some ''2025-08-02T10:00:00Z'')"
  using getEventsForDate_eq[of y m evs tks d] getEventsForSelectedDate_eq[of sel evs tks]
    dateString_iso[of n m d]
  by (simp add: dateString_2025_08_02 dateString_2025_08_03 beginsWith_def numAdd_def)
     (simp add: dateString_def)

theorem C3_witness:
  "dayEvents (getEventsForDate (Num 2025) (Num (8 - 1))
      (Some [Some (eventAt ''2025-08-02T10:00:00Z''), Some (eventAt ''2025-08-03T10:00:00Z'')]) None (Num 2))
     = [eventAt ''2025-08-02T10:00:00Z''] \<and>
   dateString (Num 2025) (Num 8) (Num 2) = isoDateKey (Num 2025) (Num 8) (Num 2)"
proof -
  let ?evs = "Some [Some (eventAt ''2025-08-02T10:00:00Z''), Some (eventAt ''2025-08-03T10:00:00Z'')]"
  note inst = C3_date_match_filter[of "Num 2025" "Num (8 - 1)" ?evs None "Num 2"
      "newDate (Num 2025) (Num 7) (Num 2)" 8 2025]
  note inst2 = C3_date_match_filter[of "Num 2025" "Num 8" ?evs None "Num 2"
      "newDate (Num 2025) (Num 7) (Num 2)" 8 2025]
  have a: "getEventsForDate (Num 2025) (Num (8 - 1)) ?evs None (Num 2) =
     \<lparr>dayEvents = filter (\<lambda>e. beginsWith (dateString (Num 2025) (numAdd (Num (8 - 1)) (Num 1)) (Num 2))
        (start_datetime e)) (present ?evs),
      dayTasks = filter (\<lambda>t. beginsWith (dateString (Num 2025) (numAdd (Num (8 - 1)) (Num 1)) (Num 2))
        (due_date t)) (present None)\<rparr>"
    using inst by blast
  have k: "numAdd (Num (8 - 1)) (Num 1) = Num 8" using inst by blast
  have "1000 \<le> (2025::int)" by simp
  then have b: "dateString (Num 2025) (Num 8) (Num 2) = isoDateKey (Num 2025) (Num 8) (Num 2)"
    using inst2 by blast
  have c: "dayEvents (getEventsForDate (Num 2025) (Num (8 - 1)) ?evs None (Num 2))
      = [eventAt ''2025-08-02T10:00:00Z'']"
    unfolding a k by (simp add: present_simps beginsWith_def eventAt_def dateString_2025_08_02)
  show ?thesis using b c by blast
qed

text \<open>
  As the claim is worded the key is zero-padded throughout; a year below 1000 is not
  padded, so an event dated 0999-08-02 is not found under the target (999, 8, 2).
\<close>

theorem C3_year_is_not_padded:
  "dateString (Num 999) (Num 8) (Num 2) = ''999-08-02'' \<and>
   isoDateKey (Num 999) (Num 8) (Num 2) = ''0999-08-02'' \<and>
   dayEvents (getEventsForDate (Num 999) (Num (8 - 1))
      (Some [Some (eventAt ''0999-08-02T10:00:00Z'')]) None (Num 2)) = []"
  by (simp add: getEventsForDate_eq numAdd_def dateString_999_08_02 present_simps beginsWith_def eventAt_def)
     (simp add: isoDateKey_def String_def padStart_def digits.simps)

text \<open>
  C4. Let the sort do what ECMA-262 asks of \<^verbatim>\<open>Array.prototype.sort\<close>. The agenda view
  shows the sorted items of the selected day, or the empty-day view when there are none.
  When the time of every matching item is valid, the agenda is a rearrangement of the
  day's events followed by its tasks that ascends in time and keeps the items of equal
  time in that order, events before tasks. The time of a task whose due date is a
  calendar date alone is midnight UTC of that date, in every time zone and engine. An
  event of that date at 14:00Z is 14 hours later, and the task is listed before it. An
  event at 14:00 local time comes after the task exactly when local time is less than
  14 hours ahead of UTC; from 14 hours on the event is listed first.
\<close>

theorem C4_agenda_order:
  assumes "conformingSort engineSort"
  shows
  "renderSelectedDayEvents engineSort parse (Some sel) events tasks =
     (if allItems engineSort parse (getEventsForSelectedDate (Some sel) events tasks) = [] then EmptyDay
      else EventsList (allItems engineSort parse (getEventsForSelectedDate (Some sel) events tasks))) \<and>
   ((\<forall>a \<in> set (map EventItem (dayEvents items) @ map TaskItem (dayTasks items)).
       itemTime parse a \<noteq> None) \<longrightarrow>
     mset (allItems engineSort parse items)
       = mset (map EventItem (dayEvents items) @ map TaskItem (dayTasks items)) \<and>
     sorted (map (\<lambda>a. the (itemTime parse a)) (allItems engineSort parse items)) \<and>
     filter (\<lambda>a. itemTime parse a = Some k) (allItems engineSort parse items)
       = map EventItem (filter (\<lambda>e. itemTime parse (EventItem e) = Some k) (dayEvents items))
         @ map TaskItem (filter (\<lambda>t. itemTime parse (TaskItem t) = Some k) (dayTasks items))) \<and>
   (calendarDate y m d \<longrightarrow>
     itemTime (dateParse localTZA engine)
         (TaskItem (t\<lparr>due_date := Some (isoDateKey (Num y) (Num m) (Num d))\<rparr>))
       = Some (86400000 * MakeDay y (m - 1) d) \<and>
     itemTime (dateParse localTZA engine)
         (EventItem (e\<lparr>start_datetime := Some (isoDateKey (Num y) (Num m) (Num d) @ ''T14:00:00Z'')\<rparr>))
       = Some (86400000 * MakeDay y (m - 1) d + 50400000) \<and>
     allItems engineSort (dateParse localTZA engine)
         \<lparr>dayEvents = [e\<lparr>start_datetime := Some (isoDateKey (Num y) (Num m) (Num d) @ ''T14:00:00Z'')\<rparr>],
          dayTasks = [t\<lparr>due_date := Some (isoDateKey (Num y) (Num m) (Num d))\<rparr>]\<rparr>
       = [TaskItem (t\<lparr>due_date := Some (isoDateKey (Num y) (Num m) (Num d))\<rparr>),
          EventItem (e\<lparr>start_datetime := Some (isoDateKey (Num y) (Num m) (Num d) @ ''T14:00:00Z'')\<rparr>)] \<and>
     (- 86400000 < localTZA (86400000 * MakeDay y (m - 1) d + 50400000) \<and>
      localTZA (86400000 * MakeDay y (m - 1) d + 50400000) < 86400000 \<longrightarrow>
        allItems engineSort (dateParse localTZA engine)
            \<lparr>dayEvents = [e\<lparr>start_datetime := Some (isoDateKey (Num y) (Num m) (Num d) @ ''T14:00:00'')\<rparr>],
             dayTasks = [t\<lparr>due_date := Some (isoDateKey (Num y) (Num m) (Num d))\<rparr>]\<rparr>
          = (if localTZA (86400000 * MakeDay y (m - 1) d + 50400000) < 50400000
             then [TaskItem (t\<lparr>due_date := Some (isoDateKey (Num y) (Num m) (Num d))\<rparr>),
                   EventItem (e\<lparr>start_datetime := Some (isoDateKey (Num y) (Num m) (Num d) @ ''T14:00:00'')\<rparr>)]
             else [EventItem (e\<lparr>start_datetime := Some (isoDateKey (Num y) (Num m) (Num d) @ ''T14:00:00'')\<rparr>),
                   TaskItem (t\<lparr>due_date := Some (isoDateKey (Num y) (Num m) (Num d))\<rparr>)])))"
proof -
  let ?key = "isoDateKey (Num y) (Num m) (Num d)"
  let ?day = "86400000 * MakeDay y (m - 1) d"
  let ?parse = "dateParse localTZA engine"
  let ?t = "t\<lparr>due_date := Some ?key\<rparr>"
  let ?ez = "e\<lparr>start_datetime := Some (?key @ ''T14:00:00Z'')\<rparr>"
  let ?el = "e\<lparr>start_datetime := Some (?key @ ''T14:00:00'')\<rparr>"
  have due: "itemTime ?parse (TaskItem ?t) = Some ?day" if "calendarDate y m d"
    using dateParse_date_only[OF that, of localTZA engine] by (simp add: itemTime_def)
  have startz: "itemTime ?parse (EventItem ?ez) = Some (?day + 50400000)" if "calendarDate y m d"
    using dateParse_zulu(1)[OF that, of localTZA engine] by (simp add: itemTime_def)
  have pairz: "allItems engineSort ?parse \<lparr>dayEvents = [?ez], dayTasks = [?t]\<rparr>
      = [TaskItem ?t, EventItem ?ez]" if "calendarDate y m d"
    using agenda_pair[OF assms startz[OF that] due[OF that]] by simp
  have pairl: "allItems engineSort ?parse \<lparr>dayEvents = [?el], dayTasks = [?t]\<rparr>
      = (if localTZA (?day + 50400000) < 50400000 then [TaskItem ?t, EventItem ?el]
         else [EventItem ?el, TaskItem ?t])"
    if c: "calendarDate y m d" and lo: "- 86400000 < localTZA (?day + 50400000)"
      and hi: "localTZA (?day + 50400000) < 86400000"
  proof -
    have "dateParse localTZA engine (?key @ ''T14:00:00'')
        = Some (?day + 50400000 - localTZA (?day + 50400000))"
      by (rule dateParse_local_time[OF c _ readTime_samples(2) msOf_samples(1)]) (use lo hi in simp_all)
    then have "itemTime ?parse (EventItem ?el) = Some (?day + 50400000 - localTZA (?day + 50400000))"
      by (simp add: itemTime_def)
    from agenda_pair[OF assms this due[OF c]] show ?thesis by simp
  qed
  show ?thesis
    using renderSelectedDayEvents_eq[of engineSort parse sel events tasks]
      agenda_valid(1)[OF assms, where items = items and parse = parse]
      agenda_valid(2)[OF assms, where items = items and parse = parse]
      agenda_valid(3)[OF assms, where items = items and parse = parse and k = k]
      due startz pairz pairl
    by blast
qed

theorem C4_witness:
  "allItems sortWith (dateParse utcPlus2 strictEngine)
      \<lparr>dayEvents = [eventAt ''2025-08-02T14:00:00''], dayTasks = [taskDue ''2025-08-02'']\<rparr>
     = [TaskItem (taskDue ''2025-08-02''), EventItem (eventAt ''2025-08-02T14:00:00'')] \<and>
   allItems sortWith (dateParse utcPlus2 strictEngine)
      \<lparr>dayEvents = [eventAt ''2025-08-02T14:00:00Z''], dayTasks = [taskDue ''2025-08-02'']\<rparr>
     = [TaskItem (taskDue ''2025-08-02''), EventItem (eventAt ''2025-08-02T14:00:00Z'')] \<and>
   itemTime (dateParse utcPlus2 strictEngine) (TaskItem (taskDue ''2025-08-02'')) = Some 1754092800000 \<and>
   sorted (map (\<lambda>a. the (itemTime (dateParse utcPlus2 strictEngine) a))
     (allItems sortWith (dateParse utcPlus2 strictEngine)
        \<lparr>dayEvents = [eventAt ''2025-08-02T14:00:00Z''], dayTasks = [taskDue ''2025-08-02'']\<rparr>))"
proof -
  let ?items = "\<lparr>dayEvents = [eventAt ''2025-08-02T14:00:00Z''], dayTasks = [taskDue ''2025-08-02'']\<rparr>"
  let ?parse = "dateParse utcPlus2 strictEngine"
  note inst = C4_agenda_order[OF conformingSort_sortWith, of ?parse "newDate (Num 2025) (Num 7) (Num 2)"
      None None ?items 0 2025 8 2 utcPlus2 strictEngine "taskDue []" "eventAt []"]
  have u: "(taskDue [])\<lparr>due_date := Some ''2025-08-02''\<rparr> = taskDue ''2025-08-02''"
    "(eventAt [])\<lparr>start_datetime := Some ''2025-08-02T14:00:00Z''\<rparr> = eventAt ''2025-08-02T14:00:00Z''"
    "(eventAt [])\<lparr>start_datetime := Some ''2025-08-02T14:00:00''\<rparr> = eventAt ''2025-08-02T14:00:00''"
    by (simp_all add: taskDue_def eventAt_def)
  have tz: "- 86400000 < utcPlus2 (86400000 * MakeDay 2025 (8 - 1) 2 + 50400000) \<and>
      utcPlus2 (86400000 * MakeDay 2025 (8 - 1) 2 + 50400000) < 86400000"
    by (simp add: utcPlus2_def)
  from inst calendarDate_2025_08_02 have
    a: "itemTime ?parse (TaskItem ((taskDue [])\<lparr>due_date := Some (isoDateKey (Num 2025) (Num 8) (Num 2))\<rparr>))
       = Some (86400000 * MakeDay 2025 (8 - 1) 2)"
    and b: "itemTime ?parse
         (EventItem ((eventAt [])\<lparr>start_datetime := Some (isoDateKey (Num 2025) (Num 8) (Num 2) @ ''T14:00:00Z'')\<rparr>))
       = Some (86400000 * MakeDay 2025 (8 - 1) 2 + 50400000)"
    and c: "allItems sortWith ?parse
         \<lparr>dayEvents = [(eventAt [])\<lparr>start_datetime := Some (isoDateKey (Num 2025) (Num 8) (Num 2) @ ''T14:00:00Z'')\<rparr>],
          dayTasks = [(taskDue [])\<lparr>due_date := Some (isoDateKey (Num 2025) (Num 8) (Num 2))\<rparr>]\<rparr>
       = [TaskItem ((taskDue [])\<lparr>due_date := Some (isoDateKey (Num 2025) (Num 8) (Num 2))\<rparr>),
          EventItem ((eventAt [])\<lparr>start_datetime := Some (isoDateKey (Num 2025) (Num 8) (Num 2) @ ''T14:00:00Z'')\<rparr>)]"
    by blast+
  from inst calendarDate_2025_08_02 tz have
    d: "allItems sortWith ?parse
            \<lparr>dayEvents = [(eventAt [])\<lparr>start_datetime := Some (isoDateKey (Num 2025) (Num 8) (Num 2) @ ''T14:00:00'')\<rparr>],
             dayTasks = [(taskDue [])\<lparr>due_date := Some (isoDateKey (Num 2025) (Num 8) (Num 2))\<rparr>]\<rparr>
          = (if utcPlus2 (86400000 * MakeDay 2025 (8 - 1) 2 + 50400000) < 50400000
             then [TaskItem ((taskDue [])\<lparr>due_date := Some (isoDateKey (Num 2025) (Num 8) (Num 2))\<rparr>),
                   EventItem ((eventAt [])\<lparr>start_datetime := Some (isoDateKey (Num 2025) (Num 8) (Num 2) @ ''T14:00:00'')\<rparr>)]
             else [EventItem ((eventAt [])\<lparr>start_datetime := Some (isoDateKey (Num 2025) (Num 8) (Num 2) @ ''T14:00:00'')\<rparr>),
                   TaskItem ((taskDue [])\<lparr>due_date := Some (isoDateKey (Num 2025) (Num 8) (Num 2))\<rparr>)])"
    by blast
  have a': "itemTime ?parse (TaskItem (taskDue ''2025-08-02'')) = Some 1754092800000"
    using a by (simp add: key_2025_08_02 u MakeDay_2025_7_2)
  have b': "itemTime ?parse (EventItem (eventAt ''2025-08-02T14:00:00Z'')) = Some 1754143200000"
    using b by (simp add: key_2025_08_02 u MakeDay_2025_7_2)
  have c': "allItems sortWith ?parse ?items
      = [TaskItem (taskDue ''2025-08-02''), EventItem (eventAt ''2025-08-02T14:00:00Z'')]"
    using c by (simp add: key_2025_08_02 u)
  have d': "allItems sortWith ?parse
      \<lparr>dayEvents = [eventAt ''2025-08-02T14:00:00''], dayTasks = [taskDue ''2025-08-02'']\<rparr>
     = [TaskItem (taskDue ''2025-08-02''), EventItem (eventAt ''2025-08-02T14:00:00'')]"
    using d by (simp add: key_2025_08_02 u utcPlus2_def)
  have valid: "\<forall>a \<in> set (map EventItem (dayEvents ?items) @ map TaskItem (dayTasks ?items)).
      itemTime ?parse a \<noteq> None"
    using a' b' by simp
  from inst valid have "sorted (map (\<lambda>a. the (itemTime ?parse a)) (allItems sortWith ?parse ?items))"
    by blast
  then show ?thesis using a' c' d' by blast
qed

text \<open>
  As the claim is worded it holds on any selected day, and the time of the task is the
  start of its day. A start timestamp that matches the day and does not parse (hour 25)
  has the time \<^verbatim>\<open>NaN\<close>; the comparator answers \<^verbatim>\<open>NaN\<close> for it and is no longer
  consistent (\<open>comparator_inconsistent\<close>), so the order is left to the engine: the stable
  insertion sort, which conforms, leaves the 09:00 event behind the 10:00 event.
  Midnight UTC is not the start of the local day: two hours east of UTC an event at
  01:00 local time is listed before the task of its day, and fourteen hours east the
  event at 14:00 local time ties with the task and is listed first; every conforming
  sort gives these two orders (\<open>agenda_pair\<close>).
\<close>

theorem C4_invalid_time_and_time_zone:
  "(\<forall>localTZA engine.
      itemTime (dateParse localTZA engine) (EventItem (eventAt ''2025-08-02T10:00:00Z'')) = Some 1754128800000 \<and>
      itemTime (dateParse localTZA engine) (EventItem (eventAt ''2025-08-02T25:00:00Z'')) = None \<and>
      itemTime (dateParse localTZA engine) (EventItem (eventAt ''2025-08-02T09:00:00Z'')) = Some 1754125200000 \<and>
      allItems sortWith (dateParse localTZA engine)
        (getEventsForSelectedDate (Some (newDate (Num 2025) (Num 7) (Num 2)))
           (Some [Some (eventAt ''2025-08-02T10:00:00Z''), Some (eventAt ''2025-08-02T25:00:00Z''),
                  Some (eventAt ''2025-08-02T09:00:00Z'')]) None)
       = [EventItem (eventAt ''2025-08-02T10:00:00Z''), EventItem (eventAt ''2025-08-02T25:00:00Z''),
          EventItem (eventAt ''2025-08-02T09:00:00Z'')]) \<and>
   conformingSort (sortWith ::
      (AgendaItem \<Rightarrow> AgendaItem \<Rightarrow> int option) \<Rightarrow> AgendaItem list \<Rightarrow> AgendaItem list) \<and>
   \<not> inOrder (compareItems (dateParse utc strictEngine))
      (allItems sortWith (dateParse utc strictEngine)
        (getEventsForSelectedDate (Some (newDate (Num 2025) (Num 7) (Num 2)))
           (Some [Some (eventAt ''2025-08-02T10:00:00Z''), Some (eventAt ''2025-08-02T25:00:00Z''),
                  Some (eventAt ''2025-08-02T09:00:00Z'')]) None)) \<and>
   itemTime (dateParse utcPlus2 strictEngine) (EventItem (eventAt ''2025-08-02T01:00:00'')) = Some 1754089200000 \<and>
   itemTime (dateParse utcPlus2 strictEngine) (TaskItem (taskDue ''2025-08-02'')) = Some 1754092800000 \<and>
   allItems sortWith (dateParse utcPlus2 strictEngine)
      \<lparr>dayEvents = [eventAt ''2025-08-02T01:00:00''], dayTasks = [taskDue ''2025-08-02'']\<rparr>
     = [EventItem (eventAt ''2025-08-02T01:00:00''), TaskItem (taskDue ''2025-08-02'')] \<and>
   allItems sortWith (dateParse utcPlus14 strictEngine)
      \<lparr>dayEvents = [eventAt ''2025-08-02T14:00:00''], dayTasks = [taskDue ''2025-08-02'']\<rparr>
     = [EventItem (eventAt ''2025-08-02T14:00:00''), TaskItem (taskDue ''2025-08-02'')]"
proof -
  have times: "itemTime (dateParse localTZA engine) (EventItem (eventAt ''2025-08-02T10:00:00Z'')) = Some 1754128800000"
    "itemTime (dateParse localTZA engine) (EventItem (eventAt ''2025-08-02T25:00:00Z'')) = None"
    "itemTime (dateParse localTZA engine) (EventItem (eventAt ''2025-08-02T09:00:00Z'')) = Some 1754125200000"
    "itemTime (dateParse localTZA engine) (TaskItem (taskDue ''2025-08-02'')) = Some 1754092800000"
    for localTZA engine
    by (simp_all add: itemTime_def eventAt_def taskDue_def sample_times)
  have local: "itemTime (dateParse utcPlus2 strictEngine) (EventItem (eventAt ''2025-08-02T01:00:00'')) = Some 1754089200000"
    "itemTime (dateParse utcPlus14 strictEngine) (EventItem (eventAt ''2025-08-02T14:00:00'')) = Some 1754092800000"
    by (simp_all add: itemTime_def eventAt_def sample_local_times)
  have sorted3: "allItems sortWith (dateParse localTZA engine)
        (getEventsForSelectedDate (Some (newDate (Num 2025) (Num 7) (Num 2)))
           (Some [Some (eventAt ''2025-08-02T10:00:00Z''), Some (eventAt ''2025-08-02T25:00:00Z''),
                  Some (eventAt ''2025-08-02T09:00:00Z'')]) None)
       = [EventItem (eventAt ''2025-08-02T10:00:00Z''), EventItem (eventAt ''2025-08-02T25:00:00Z''),
          EventItem (eventAt ''2025-08-02T09:00:00Z'')]" for localTZA engine
    unfolding sample_day
    by (simp add: allItems_def sortWith_def compareItems_def sortOrder_def times)
  have unordered: "\<not> inOrder (compareItems (dateParse utc strictEngine))
      (allItems sortWith (dateParse utc strictEngine)
        (getEventsForSelectedDate (Some (newDate (Num 2025) (Num 7) (Num 2)))
           (Some [Some (eventAt ''2025-08-02T10:00:00Z''), Some (eventAt ''2025-08-02T25:00:00Z''),
                  Some (eventAt ''2025-08-02T09:00:00Z'')]) None))"
    unfolding sorted3 by (simp add: compareItems_def sortOrder_def times)
  have east2: "allItems sortWith (dateParse utcPlus2 strictEngine)
      \<lparr>dayEvents = [eventAt ''2025-08-02T01:00:00''], dayTasks = [taskDue ''2025-08-02'']\<rparr>
     = [EventItem (eventAt ''2025-08-02T01:00:00''), TaskItem (taskDue ''2025-08-02'')]"
    using agenda_pair[OF conformingSort_sortWith local(1) times(4)] by simp
  have east14: "allItems sortWith (dateParse utcPlus14 strictEngine)
      \<lparr>dayEvents = [eventAt ''2025-08-02T14:00:00''], dayTasks = [taskDue ''2025-08-02'']\<rparr>
     = [EventItem (eventAt ''2025-08-02T14:00:00''), TaskItem (taskDue ''2025-08-02'')]"
    using agenda_pair[OF conformingSort_sortWith local(2) times(4)] by simp
  show ?thesis
    using times(1,2,3) sorted3 conformingSort_sortWith unordered local(1) times(4) east2 east14
    by blast
qed

text \<open>
  C5. Take a month whose year is not one of 0 to 99 and whose days, with the last day of
  the month before, are dates a \<^verbatim>\<open>Date\<close> can hold. Its grid is, in this order: the last
  \<open>weekdayOfFirst\<close> day numbers of the month before, not of the current month, where
  \<open>weekdayOfFirst\<close> is the weekday of the first day of the month (0 = Sunday); the days 1
  to \<open>daysOfMonth\<close>, of the current month, where \<open>daysOfMonth\<close> is the number of days of
  the calendar month, the leap rule included; the day numbers from 1 on, not of the
  current month, up to 42 cells. The month before January is December of the year
  before, of 31 days; August 2025 begins on a Friday; February has 29 current-month
  cells in 2024 and 28 in 2023.
\<close>

theorem C5_grid_structure:
  assumes "\<not> (0 \<le> y \<and> y \<le> 99)" "- 100000000 \<le> MakeDay y m 0" "MakeDay y (m + 1) 0 \<le> 100000000"
  shows "map (\<lambda>c. (cellDay c, isCurrentMonth c)) (renderCalendar (Num y) (Num m) evs tks) =
       map (\<lambda>d. (Num d, False)) [daysOfMonth y (m - 1) - weekdayOfFirst y m + 1..daysOfMonth y (m - 1)]
       @ map (\<lambda>d. (Num d, True)) [1..daysOfMonth y m]
       @ map (\<lambda>d. (Num d, False)) [1..42 - weekdayOfFirst y m - daysOfMonth y m] \<and>
     getFirstDayOfMonth (Num y) (Num m) = Num (weekdayOfFirst y m) \<and>
     getDaysInMonth (Num y) (Num m) = Num (daysOfMonth y m) \<and>
     getDaysInMonth (Num y) (numSub (Num m) (Num 1)) = Num (daysOfMonth y (m - 1)) \<and>
     length (filter isCurrentMonth (renderCalendar (Num y) (Num m) evs tks)) = nat (daysOfMonth y m) \<and>
     0 \<le> weekdayOfFirst y m \<and> weekdayOfFirst y m \<le> 6 \<and>
     daysOfMonth y m = monthLength (LeapDays (y + m div 12)) (m mod 12) \<and>
     daysOfMonth y (0 - 1) = 31 \<and>
     MakeDay y (0 - 1) 1 = MakeDay (y - 1) 11 1 \<and>
     weekdayOfFirst 2025 7 = 5 \<and>
     length (filter isCurrentMonth (renderCalendar (Num 2024) (Num 1) evs tks)) = 29 \<and>
     length (filter isCurrentMonth (renderCalendar (Num 2023) (Num 1) evs tks)) = 28"
proof -
  note g = month_grid(1,2,3)[OF assms] month_grid(4)[OF assms, of evs tks]
  have "length (filter isCurrentMonth (renderCalendar (Num y) (Num m) evs tks))
      = length [1..daysOfMonth y m]"
    by (rule current_cells[OF g(4)])
  then have n: "length (filter isCurrentMonth (renderCalendar (Num y) (Num m) evs tks))
      = nat (daysOfMonth y m)" by simp
  show ?thesis
    using g n weekdayOfFirst_range[of y m] daysOfMonth_eq[of y m] december_before_january[of y]
      month_before_january[of y 1] august_2025(1) february_cells[of evs tks]
    by blast
qed

theorem C5_witness:
  "map (\<lambda>c. (cellDay c, isCurrentMonth c)) (renderCalendar (Num 2025) (Num 0) None None) =
     map (\<lambda>d. (Num d, False)) [29..31] @ map (\<lambda>d. (Num d, True)) [1..31]
       @ map (\<lambda>d. (Num d, False)) [1..8] \<and>
   getFirstDayOfMonth (Num 2025) (Num 0) = Num 3"
proof -
  have h: "\<not> (0 \<le> (2025::int) \<and> (2025::int) \<le> 99)" "- 100000000 \<le> MakeDay 2025 0 0"
    "MakeDay 2025 (0 + 1) 0 \<le> 100000000"
    by (simp_all add: MakeDay_ranges)
  note inst = C5_grid_structure[OF h, of None None]
  have a: "map (\<lambda>c. (cellDay c, isCurrentMonth c)) (renderCalendar (Num 2025) (Num 0) None None) =
       map (\<lambda>d. (Num d, False)) [daysOfMonth 2025 (0 - 1) - weekdayOfFirst 2025 0 + 1..daysOfMonth 2025 (0 - 1)]
       @ map (\<lambda>d. (Num d, True)) [1..daysOfMonth 2025 0]
       @ map (\<lambda>d. (Num d, False)) [1..42 - weekdayOfFirst 2025 0 - daysOfMonth 2025 0]"
    using inst by blast
  have b: "getFirstDayOfMonth (Num 2025) (Num 0) = Num (weekdayOfFirst 2025 0)"
    using inst by blast
  have c: "daysOfMonth 2025 (0 - 1) = 31" by (rule december_before_january)
  show ?thesis unfolding a b c january_2025 by simp
qed

text \<open>
  As the claim is worded this holds for every year and month. September 275760, which
  the "next month" button reaches, has 30 days; its last day is later than the last date
  a \<^verbatim>\<open>Date\<close> can hold, so \<^verbatim>\<open>getDaysInMonth\<close> is \<^verbatim>\<open>NaN\<close> and the grid has no cell of
  the current month: after the one cell of 31 August come the day numbers 1 to 41, none
  of the current month.
\<close>

theorem C5_no_current_cell_in_september_275760:
  "reachable september275760 \<and> currentYear september275760 = Num 275760 \<and>
   currentMonth september275760 = Num 8 \<and>
   daysOfMonth 275760 8 = 30 \<and>
   getDaysInMonth (Num 275760) (Num 8) = NaN \<and>
   map (\<lambda>c. (cellDay c, isCurrentMonth c)) (renderCalendar (Num 275760) (Num 8) None None) =
     map (\<lambda>d. (Num d, False)) [31..31] @ map (\<lambda>d. (Num d, False)) [1..41] \<and>
   filter isCurrentMonth (renderCalendar (Num 275760) (Num 8) None None) = []"
proof -
  have a: "map (\<lambda>c. (cellDay c, isCurrentMonth c)) (renderCalendar (Num 275760) (Num 8) None None) =
     map (\<lambda>d. (Num d, False)) [31 - 1 + 1..31] @ map (\<lambda>d. (Num d, False)) [1..42 - 1]"
    by (rule grid_days_no_length[OF september_275760(1,2,3)])
  then have b: "map (\<lambda>c. (cellDay c, isCurrentMonth c)) (renderCalendar (Num 275760) (Num 8) None None) =
     map (\<lambda>d. (Num d, False)) ([31..31] @ [1..41])" by simp
  have c: "filter isCurrentMonth (renderCalendar (Num 275760) (Num 8) None None) = []"
    by (rule no_current_cells[OF b])
  show ?thesis using september275760_fields september_275760(2,4) b c by simp
qed

text \<open>
  C6. At run time the elements of the two collections are JSON values. When every date
  field is missing or a string, both filters return, without an error, exactly the
  elements whose date field is a string that begins with the key, and the agenda returns
  those items, sorted; an element whose date field is missing is never among them, and
  an event and a task without their date fields give two empty lists. When the events
  and the tasks are empty or undefined, both filters return empty lists and the agenda
  is empty. Typed events and tasks give at run time what the typed filter gives.
\<close>

theorem C6_missing_dates_and_empty_collections:
  assumes "conformingSort engineSort"
  shows
  "(missingOrText ''start_datetime'' events \<and> missingOrText ''due_date'' tasks \<longrightarrow>
     getEventsForDateAtRuntime y m events tasks d =
       Inr (filter (fieldBeginsWith ''start_datetime'' (dateString y (numAdd m (Num 1)) d)) (orEmpty events),
            filter (fieldBeginsWith ''due_date'' (dateString y (numAdd m (Num 1)) d)) (orEmpty tasks)) \<and>
     getEventsForSelectedDateAtRuntime (Some sel) events tasks =
       Inr (filter (fieldBeginsWith ''start_datetime''
              (dateString (getFullYear sel) (numAdd (getMonth sel) (Num 1)) (getDate sel))) (orEmpty events),
            filter (fieldBeginsWith ''due_date''
              (dateString (getFullYear sel) (numAdd (getMonth sel) (Num 1)) (getDate sel))) (orEmpty tasks)) \<and>
     allItemsAtRuntime engineSort parse other sel events tasks =
       Inr (engineSort (compareAtRuntime parse other)
         (map EventAtRuntime (filter (fieldBeginsWith ''start_datetime''
              (dateString (getFullYear sel) (numAdd (getMonth sel) (Num 1)) (getDate sel))) (orEmpty events))
          @ map TaskAtRuntime (filter (fieldBeginsWith ''due_date''
              (dateString (getFullYear sel) (numAdd (getMonth sel) (Num 1)) (getDate sel))) (orEmpty tasks))))) \<and>
   (missingField name x \<longrightarrow> \<not> fieldBeginsWith name key x) \<and>
   (missingField ''start_datetime'' event \<and> missingField ''due_date'' task \<longrightarrow>
     getEventsForDateAtRuntime y m (Some [event]) (Some [task]) d = Inr ([], []) \<and>
     getEventsForSelectedDateAtRuntime (Some sel) (Some [event]) (Some [task]) = Inr ([], [])) \<and>
   ((events = None \<or> events = Some []) \<and> (tasks = None \<or> tasks = Some []) \<longrightarrow>
     getEventsForDateAtRuntime y m events tasks d = Inr ([], []) \<and>
     getEventsForSelectedDateAtRuntime selected events tasks = Inr ([], []) \<and>
     allItemsAtRuntime engineSort parse other sel events tasks = Inr []) \<and>
   getEventsForDateAtRuntime y m (map_option (map eventObject) typedEvents)
       (map_option (map taskObject) typedTasks) d
     = Inr (map (\<lambda>e. eventObject (Some e)) (dayEvents (getEventsForDate y m typedEvents typedTasks d)),
            map (\<lambda>t. taskObject (Some t)) (dayTasks (getEventsForDate y m typedEvents typedTasks d)))"
proof -
  have a: "getEventsForDateAtRuntime y m events tasks d =
       Inr (filter (fieldBeginsWith ''start_datetime'' (dateString y (numAdd m (Num 1)) d)) (orEmpty events),
            filter (fieldBeginsWith ''due_date'' (dateString y (numAdd m (Num 1)) d)) (orEmpty tasks))"
    if "missingOrText ''start_datetime'' events" "missingOrText ''due_date'' tasks"
    using filterBoth_eq[OF that] by (simp add: getEventsForDateAtRuntime_def)
  have b: "getEventsForSelectedDateAtRuntime (Some sel) events tasks =
       Inr (filter (fieldBeginsWith ''start_datetime''
              (dateString (getFullYear sel) (numAdd (getMonth sel) (Num 1)) (getDate sel))) (orEmpty events),
            filter (fieldBeginsWith ''due_date''
              (dateString (getFullYear sel) (numAdd (getMonth sel) (Num 1)) (getDate sel))) (orEmpty tasks))"
    if "missingOrText ''start_datetime'' events" "missingOrText ''due_date'' tasks"
    using filterBoth_eq[OF that] by (simp add: getEventsForSelectedDateAtRuntime_def)
  have c: "allItemsAtRuntime engineSort parse other sel events tasks =
       Inr (engineSort (compareAtRuntime parse other)
         (map EventAtRuntime (filter (fieldBeginsWith ''start_datetime''
              (dateString (getFullYear sel) (numAdd (getMonth sel) (Num 1)) (getDate sel))) (orEmpty events))
          @ map TaskAtRuntime (filter (fieldBeginsWith ''due_date''
              (dateString (getFullYear sel) (numAdd (getMonth sel) (Num 1)) (getDate sel))) (orEmpty tasks))))"
    if "missingOrText ''start_datetime'' events" "missingOrText ''due_date'' tasks"
    using b[OF that] by (simp add: allItemsAtRuntime_def)
  have e: "getEventsForDateAtRuntime y m events tasks d = Inr ([], []) \<and>
     getEventsForSelectedDateAtRuntime selected events tasks = Inr ([], []) \<and>
     allItemsAtRuntime engineSort parse other sel events tasks = Inr []"
    if ee: "events = None \<or> events = Some []" and te: "tasks = None \<or> tasks = Some []"
  proof -
    note m = missingOrText_empty[OF ee, of "''start_datetime''"] missingOrText_empty[OF te, of "''due_date''"]
    note o = orEmpty_empty[OF ee] orEmpty_empty[OF te]
    have 1: "getEventsForDateAtRuntime y m events tasks d = Inr ([], [])"
      using a[OF m] by (simp add: o)
    have 2: "getEventsForSelectedDateAtRuntime selected events tasks = Inr ([], [])"
      using filterBoth_eq[OF m] by (cases selected) (simp_all add: getEventsForSelectedDateAtRuntime_def o)
    have 3: "allItemsAtRuntime engineSort parse other sel events tasks = Inr []"
      using c[OF m] by (simp add: o conformingSort_empty[OF assms])
    show ?thesis using 1 2 3 by blast
  qed
  have f: "getEventsForDateAtRuntime y m (Some [event]) (Some [task]) d = Inr ([], []) \<and>
     getEventsForSelectedDateAtRuntime (Some sel) (Some [event]) (Some [task]) = Inr ([], [])"
    if "missingField ''start_datetime'' event" "missingField ''due_date'' task"
    using that filterBoth_eq[of "Some [event]" "Some [task]"]
    by (simp add: getEventsForDateAtRuntime_def getEventsForSelectedDateAtRuntime_def
        missingOrText_def orEmpty_def missing_never_matches)
  show ?thesis
    using a b c e f missing_never_matches[of name x key]
      typed_filter_at_runtime[of y m typedEvents typedTasks d]
    by blast
qed

theorem C6_witness:
  "getEventsForDateAtRuntime (Num 2025) (Num 7)
      (Some [JObj [(''start_datetime'', JStr ''2025-08-02T10:00:00Z'')], JObj [(''title'', JStr ''Interview'')],
             JNull, JObj [(''start_datetime'', JNull)]])
      None (Num 2)
     = Inr ([JObj [(''start_datetime'', JStr ''2025-08-02T10:00:00Z'')]], []) \<and>
   allItemsAtRuntime sortWith (dateParse utc strictEngine) (\<lambda>v. None) (newDate (Num 2025) (Num 7) (Num 2))
      (Some []) None = Inr [] \<and>
   \<not> fieldBeginsWith ''start_datetime'' ''2025-08-02'' (JObj [(''title'', JStr ''Interview'')]) \<and>
   getEventsForDateAtRuntime (Num 2025) (Num 7) (Some [JObj [(''title'', JStr ''Interview'')]])
      (Some [JNull]) (Num 2) = Inr ([], [])"
proof -
  let ?events = "Some [JObj [(''start_datetime'', JStr ''2025-08-02T10:00:00Z'')],
      JObj [(''title'', JStr ''Interview'')], JNull, JObj [(''start_datetime'', JNull)]]"
  note inst = C6_missing_dates_and_empty_collections[OF conformingSort_sortWith,
      where events = "?events" and tasks = None and y = "Num 2025" and m = "Num 7" and d = "Num 2"
        and sel = "newDate (Num 2025) (Num 7) (Num 2)" and parse = "dateParse utc strictEngine"
        and other = "\<lambda>v. None" and name = "''start_datetime''"
        and x = "JObj [(''title'', JStr ''Interview'')]" and key = "''2025-08-02''"
        and event = "JObj [(''title'', JStr ''Interview'')]" and task = JNull]
  note inst2 = C6_missing_dates_and_empty_collections[OF conformingSort_sortWith,
      where events = "Some []" and tasks = None and sel = "newDate (Num 2025) (Num 7) (Num 2)"
        and parse = "dateParse utc strictEngine" and other = "\<lambda>v. None"]
  have h: "missingOrText ''start_datetime'' ?events \<and> missingOrText ''due_date'' None"
    by (simp add: missingOrText_def orEmpty_def missingField_def textField_def property_def)
  from inst h have "getEventsForDateAtRuntime (Num 2025) (Num 7) ?events None (Num 2) =
       Inr (filter (fieldBeginsWith ''start_datetime'' (dateString (Num 2025) (numAdd (Num 7) (Num 1)) (Num 2)))
              (orEmpty ?events),
            filter (fieldBeginsWith ''due_date'' (dateString (Num 2025) (numAdd (Num 7) (Num 1)) (Num 2)))
              (orEmpty None))"
    by blast
  then have a: "getEventsForDateAtRuntime (Num 2025) (Num 7) ?events None (Num 2)
      = Inr ([JObj [(''start_datetime'', JStr ''2025-08-02T10:00:00Z'')]], [])"
    by (simp add: numAdd_def dateString_2025_08_02 orEmpty_def fieldBeginsWith_def property_def)
  have "missingField ''start_datetime'' (JObj [(''title'', JStr ''Interview'')])"
    by (simp add: missingField_def property_def)
  with inst have b: "\<not> fieldBeginsWith ''start_datetime'' ''2025-08-02'' (JObj [(''title'', JStr ''Interview'')])"
    by blast
  have "(Some [] = None \<or> Some [] = Some ([]::json list)) \<and> ((None::json list option) = None \<or> (None::json list option) = Some [])"
    by simp
  with inst2 have c: "allItemsAtRuntime sortWith (dateParse utc strictEngine) (\<lambda>v. None)
      (newDate (Num 2025) (Num 7) (Num 2)) (Some []) None = Inr []"
    by blast
  have "missingField ''start_datetime'' (JObj [(''title'', JStr ''Interview'')]) \<and>
      missingField ''due_date'' JNull"
    by (simp add: missingField_def property_def)
  with inst have d: "getEventsForDateAtRuntime (Num 2025) (Num 7)
      (Some [JObj [(''title'', JStr ''Interview'')]]) (Some [JNull]) (Num 2) = Inr ([], [])"
    by blast
  show ?thesis using a b c d by blast
qed

text \<open>
  As the claim is worded a malformed date field never matches and causes no error. A
  due date that begins with the key and goes on with anything matches the day. A date
  field that is not a string, a number of milliseconds say, has no \<^verbatim>\<open>startsWith\<close>:
  both filters and the agenda raise a \<^verbatim>\<open>TypeError\<close> (\<open>filterAtRuntime_eq\<close>).
\<close>

theorem C6_malformed_date_matches_or_raises:
  "\<not> wellFormedDate ''2025-08-02garbage'' \<and>
   getEventsForDateAtRuntime (Num 2025) (Num 7) None
      (Some [JObj [(''due_date'', JStr ''2025-08-02garbage'')]]) (Num 2)
     = Inr ([], [JObj [(''due_date'', JStr ''2025-08-02garbage'')]]) \<and>
   dayTasks (getEventsForDate (Num 2025) (Num 7) None (Some [Some (taskDue ''2025-08-02garbage'')]) (Num 2))
     = [taskDue ''2025-08-02garbage''] \<and>
   getEventsForDateAtRuntime (Num 2025) (Num 7)
      (Some [JObj [(''start_datetime'', JNum 1754128800000)]]) None (Num 2) = Inl TypeError \<and>
   getEventsForSelectedDateAtRuntime (Some (newDate (Num 2025) (Num 7) (Num 2)))
      (Some [JObj [(''start_datetime'', JNum 1754128800000)]]) None = Inl TypeError \<and>
   (\<forall>engineSort parse other.
      allItemsAtRuntime engineSort parse other (newDate (Num 2025) (Num 7) (Num 2))
        (Some [JObj [(''start_datetime'', JNum 1754128800000)]]) None = Inl TypeError)"
proof -
  have a: "\<not> wellFormedDate ''2025-08-02garbage''" by (simp add: wellFormedDate_def)
  have b: "getEventsForDateAtRuntime (Num 2025) (Num 7) None
      (Some [JObj [(''due_date'', JStr ''2025-08-02garbage'')]]) (Num 2)
     = Inr ([], [JObj [(''due_date'', JStr ''2025-08-02garbage'')]])"
    by (simp add: getEventsForDateAtRuntime_def numAdd_def dateString_2025_08_02 filterBoth_def
        orEmpty_def property_def startsWithCall_def)
  have c: "dayTasks (getEventsForDate (Num 2025) (Num 7) None (Some [Some (taskDue ''2025-08-02garbage'')]) (Num 2))
     = [taskDue ''2025-08-02garbage'']"
    by (simp add: getEventsForDate_eq numAdd_def dateString_2025_08_02 present_simps beginsWith_def
        taskDue_def)
  have r: "\<not> missingOrText ''start_datetime'' (Some [JObj [(''start_datetime'', JNum 1754128800000)]])"
    by (simp add: missingOrText_def orEmpty_def missingField_def textField_def property_def)
  have d: "getEventsForDateAtRuntime (Num 2025) (Num 7)
      (Some [JObj [(''start_datetime'', JNum 1754128800000)]]) None (Num 2) = Inl TypeError"
    using filterBoth_raises[of "Some [JObj [(''start_datetime'', JNum 1754128800000)]]" None] r
    by (simp add: getEventsForDateAtRuntime_def)
  have e: "getEventsForSelectedDateAtRuntime (Some (newDate (Num 2025) (Num 7) (Num 2)))
      (Some [JObj [(''start_datetime'', JNum 1754128800000)]]) None = Inl TypeError"
    using filterBoth_raises[of "Some [JObj [(''start_datetime'', JNum 1754128800000)]]" None] r
    by (simp add: getEventsForSelectedDateAtRuntime_def)
  have f: "allItemsAtRuntime engineSort parse other (newDate (Num 2025) (Num 7) (Num 2))
        (Some [JObj [(''start_datetime'', JNum 1754128800000)]]) None = Inl TypeError"
    for engineSort parse other
    unfolding allItemsAtRuntime_def e by simp
  show ?thesis using a b c d e f by blast
qed

text \<open>
  C7. \<^verbatim>\<open>navigateMonth\<close> leaves the selection alone (\<open>navigateMonth_frame\<close>) and moves a
  first-of-month date by one month (\<open>navigateMonth_step\<close>); \<^verbatim>\<open>handleDayPress\<close> with
  \<open>isCurrentMonth = false\<close> changes nothing (\<open>handleDayPress_not_current\<close>), and with
  \<open>true\<close> it selects that day of the displayed month and year as long as the displayed year
  is not one of 0 to 99 (\<open>handleDayPress_current\<close>). In the reachable state \<open>year50\<close>,
  which displays January of the year 50, pressing day 5 selects 5 January 1950.
\<close>

theorem C7_selection_in_year_50:
  "reachable year50 \<and> currentYear year50 = Num 50 \<and> currentMonth year50 = Num 0 \<and>
   map_option getFullYear (selectedDate (handleDayPress (Num 5) True year50)) = Some (Num 1950) \<and>
   map_option getMonth (selectedDate (handleDayPress (Num 5) True year50)) = Some (Num 0) \<and>
   map_option getDate (selectedDate (handleDayPress (Num 5) True year50)) = Some (Num 5)"
  using year50_fields newDate_fields[of 5 50 0]
  by (simp add: handleDayPress_def MakeFullYear_def monthLength_def MakeDay_1950_0_5)

text \<open>
  C8. From a displayed month of January of a year \<open>Y\<close> from -271820 to 275759, twelve
  presses of "next month" lead to January of \<open>Y + 1\<close>, and the grids of both months have
  42 cells.
\<close>

theorem C8_twelve_months_forward:
  assumes "getFullYear (currentDate st) = Num Y" "getMonth (currentDate st) = Num 0"
    "getDate (currentDate st) = Num 1" "- 271820 \<le> Y" "Y \<le> 275759"
  shows "getFullYear (currentDate ((navigateMonth Next ^^ 12) st)) = Num (Y + 1) \<and>
    getMonth (currentDate ((navigateMonth Next ^^ 12) st)) = Num 0 \<and>
    getDate (currentDate ((navigateMonth Next ^^ 12) st)) = Num 1 \<and>
    length (renderCalendar (currentYear st) (currentMonth st) evs tks) = 42 \<and>
    length (renderCalendar (currentYear ((navigateMonth Next ^^ 12) st))
      (currentMonth ((navigateMonth Next ^^ 12) st)) evs tks) = 42"
proof -
  from first_of_its_month[OF assms(3)] obtain day where
    day: "currentDate st = ValidDate day" "day = firstOfMonth (12 * YearFromDay day + MonthFromDay day)"
    by blast
  have "YearFromDay day = Y" "MonthFromDay day = 0"
    using assms(1,2) day(1) by (simp_all add: getFullYear_def getMonth_def)
  then have cur: "currentDate st = ValidDate (firstOfMonth (12 * Y))" using day by simp
  have "currentDate ((navigateMonth Next ^^ 12) st) = ValidDate (firstOfMonth (12 * Y + int 12))"
    by (rule iterate_next[OF cur]) (use assms(4,5) in \<open>simp_all add: firstMonth_def lastMonth_def\<close>)
  moreover have "(12 * Y + 12) div 12 = Y + 1" "(12 * Y + 12) mod 12 = 0" by simp_all
  ultimately show ?thesis by (simp add: valid_fields renderCalendar_length)
qed

theorem C8_witness:
  "getFullYear (currentDate ((navigateMonth Next ^^ 12)
      \<lparr>currentDate = newDate (Num 2025) (Num 0) (Num 1), selectedDate = None\<rparr>)) = Num 2026 \<and>
   getMonth (currentDate ((navigateMonth Next ^^ 12)
      \<lparr>currentDate = newDate (Num 2025) (Num 0) (Num 1), selectedDate = None\<rparr>)) = Num 0"
proof -
  have d: "MakeDay 2025 0 1 = 20089" by (simp add: MakeDay_def DayFromYear_def monthStart_def)
  have f: "getFullYear (newDate (Num 2025) (Num 0) (Num 1)) = Num 2025"
    "getMonth (newDate (Num 2025) (Num 0) (Num 1)) = Num 0"
    "getDate (newDate (Num 2025) (Num 0) (Num 1)) = Num 1"
    using newDate_fields[of 1 2025 0] monthLength_ge1 by (simp_all add: MakeFullYear_def d)
  show ?thesis
    using C8_twelve_months_forward[of "\<lparr>currentDate = newDate (Num 2025) (Num 0) (Num 1), selectedDate = None\<rparr>" 2025] f
    by simp
qed

text \<open>
  As the claim is worded \<open>Y\<close> is any year. From January 275760 the ninth press leaves the
  dates a \<^verbatim>\<open>Date\<close> can hold: the displayed month is then Invalid Date, and it stays so,
  with \<^verbatim>\<open>NaN\<close> for its year, not 275761.
\<close>

theorem C8_from_january_275760:
  "getFullYear (newDate (Num 275760) (Num 0) (Num 1)) = Num 275760 \<and>
   getMonth (newDate (Num 275760) (Num 0) (Num 1)) = Num 0 \<and>
   getDate (newDate (Num 275760) (Num 0) (Num 1)) = Num 1 \<and>
   currentDate ((navigateMonth Next ^^ 12)
      \<lparr>currentDate = newDate (Num 275760) (Num 0) (Num 1), selectedDate = None\<rparr>) = InvalidDate \<and>
   getFullYear (currentDate ((navigateMonth Next ^^ 12)
      \<lparr>currentDate = newDate (Num 275760) (Num 0) (Num 1), selectedDate = None\<rparr>)) = NaN"
proof -
  let ?st = "\<lparr>currentDate = newDate (Num 275760) (Num 0) (Num 1), selectedDate = None\<rparr>"
  have v: "firstOfMonth 3309120 = 99999744"
    by (simp add: firstOfMonth_def MakeDay_def DayFromYear_def monthStart_def)
  have nd: "newDate (Num 275760) (Num 0) (Num 1) = ValidDate (firstOfMonth 3309120)"
    by (simp add: newDate_def MakeFullYear_def MakeDay_firstOfMonth v TimeClip_def)
  have cur: "currentDate ?st = ValidDate (firstOfMonth 3309120)" using nd by simp
  have "currentDate ((navigateMonth Next ^^ 8) ?st) = ValidDate (firstOfMonth (3309120 + int 8))"
    by (rule iterate_next[OF cur]) (simp_all add: firstMonth_def lastMonth_def)
  then have a: "currentDate ((navigateMonth Next ^^ 8) ?st) = ValidDate (firstOfMonth lastMonth)"
    by (simp add: lastMonth_def)
  have b: "currentDate (navigateMonth Next ((navigateMonth Next ^^ 8) ?st)) = InvalidDate"
    using navigateMonth_firstOfMonth(1)[OF a] by (simp add: TimeClip_firstOfMonth)
  have "(navigateMonth Next ^^ 12) ?st
      = (navigateMonth Next ^^ 3) (navigateMonth Next ((navigateMonth Next ^^ 8) ?st))"
  proof -
    have "(12::nat) = 3 + Suc 8" by simp
    then show ?thesis by (metis funpow_add funpow.simps(2) o_apply)
  qed
  then have c: "currentDate ((navigateMonth Next ^^ 12) ?st) = InvalidDate"
    using iterate_invalid[OF b, where direction = Next and n = 3] by simp
  have d: "getFullYear (newDate (Num 275760) (Num 0) (Num 1)) = Num 275760"
    "getMonth (newDate (Num 275760) (Num 0) (Num 1)) = Num 0"
    "getDate (newDate (Num 275760) (Num 0) (Num 1)) = Num 1"
    unfolding nd by (simp_all add: valid_fields)
  have e: "getFullYear (currentDate ((navigateMonth Next ^^ 12) ?st)) = NaN"
    unfolding c by (simp add: getFullYear_def)
  show ?thesis using c d e by blast
qed

text \<open>
  C9. A month-view response that is neither an array, nor an object whose \<^verbatim>\<open>weeks\<close> is
  an array, nor an object whose \<^verbatim>\<open>events\<close> is an array gives no events; an array is
  taken as it is; a \<^verbatim>\<open>weeks\<close> array gives the events of its days, week after week;
  an \<^verbatim>\<open>events\<close> array is taken as it is; a tasks response that is not an array gives no
  tasks. The extraction is total: every property is read through a guard, so none of its
  steps can raise.
\<close>

theorem C9_events_extracted_from_any_response:
  "(\<not> isArray eventsData \<and> \<not> isArray (property eventsData ''weeks'') \<and>
      \<not> isArray (property eventsData ''events'') \<longrightarrow> eventsArray eventsData = []) \<and>
   eventsArray (JArr es) = es \<and>
   (property eventsData ''weeks'' = JArr weeks \<longrightarrow>
      eventsArray eventsData
        = concat (map (\<lambda>day. if hasEvents day then elements (property day ''events'') else [])
            (flat weeks))) \<and>
   (\<not> isArray (property eventsData ''weeks'') \<and> property eventsData ''events'' = JArr es \<longrightarrow>
      eventsArray eventsData = es) \<and>
   (\<not> isArray tasksData \<longrightarrow> tasksArray tasksData = []) \<and>
   tasksArray (JArr ts) = ts"
proof -
  have a: "eventsArray eventsData = []"
    if "\<not> isArray eventsData" "\<not> isArray (property eventsData ''weeks'')"
      "\<not> isArray (property eventsData ''events'')"
    using that by (simp add: eventsArray_def)
  have b: "eventsArray (JArr es) = es"
    by (simp add: eventsArray_def property_def isArray_def elements_def truthy_def)
  have c: "eventsArray eventsData
        = concat (map (\<lambda>day. if hasEvents day then elements (property day ''events'') else [])
            (flat weeks))"
    if "property eventsData ''weeks'' = JArr weeks"
    using that by (simp add: eventsArray_def isArray_def truthy_def elements_def flatMap_events)
  have d: "eventsArray eventsData = es"
    if "\<not> isArray (property eventsData ''weeks'')" "property eventsData ''events'' = JArr es"
  proof -
    have "\<not> isArray eventsData" using that(2) property_of_array[of eventsData "''events''"] by auto
    then show ?thesis using that by (simp add: eventsArray_def isArray_def truthy_def elements_def)
  qed
  have e: "\<not> isArray tasksData \<Longrightarrow> tasksArray tasksData = []" by (simp add: tasksArray_def)
  have f: "tasksArray (JArr ts) = ts" by (simp add: tasksArray_def isArray_def elements_def)
  show ?thesis using a b c d e f by blast
qed

theorem C9_witness:
  "eventsArray (JStr ''Internal Server Error'') = [] \<and>
   eventsArray (JObj [(''month'', JNum 8), (''weeks'', JStr ''none'')]) = [] \<and>
   eventsArray
     (JObj [(''weeks'',
        JArr [JArr [JObj [(''date'', JStr ''2025-08-01''), (''events'', JArr [JStr ''a''])], JNull],
              JArr [JObj [(''events'', JArr [JStr ''b'', JStr ''c''])], JObj [(''date'', JStr ''2025-08-04'')]]])])
     = [JStr ''a'', JStr ''b'', JStr ''c''] \<and>
   eventsArray (JObj [(''events'', JArr [JStr ''a''])]) = [JStr ''a''] \<and>
   tasksArray (JObj [(''detail'', JStr ''Not authenticated'')]) = []"
proof -
  let ?weeks = "[JArr [JObj [(''date'', JStr ''2025-08-01''), (''events'', JArr [JStr ''a''])], JNull],
              JArr [JObj [(''events'', JArr [JStr ''b'', JStr ''c''])], JObj [(''date'', JStr ''2025-08-04'')]]]"
  note a = C9_events_extracted_from_any_response[of "JStr ''Internal Server Error''" "[]" "[]"
      "JObj [(''detail'', JStr ''Not authenticated'')]" "[]"]
  note b = C9_events_extracted_from_any_response[of "JObj [(''month'', JNum 8), (''weeks'', JStr ''none'')]"
      "[]" "[]" JNull "[]"]
  note c = C9_events_extracted_from_any_response[of "JObj [(''weeks'', JArr ?weeks)]" "[]" ?weeks JNull "[]"]
  note d = C9_events_extracted_from_any_response[of "JObj [(''events'', JArr [JStr ''a''])]" "[JStr ''a'']" "[]"
      JNull "[]"]
  have 1: "eventsArray (JStr ''Internal Server Error'') = []"
    and 5: "tasksArray (JObj [(''detail'', JStr ''Not authenticated'')]) = []"
    using a by (simp_all add: isArray_def property_def)
  have 2: "eventsArray (JObj [(''month'', JNum 8), (''weeks'', JStr ''none'')]) = []"
    using b by (simp add: isArray_def property_def)
  have 3: "eventsArray (JObj [(''weeks'', JArr ?weeks)]) = [JStr ''a'', JStr ''b'', JStr ''c'']"
    using c by (simp add: property_def flat_def hasEvents_def truthy_def isArray_def elements_def)
  have 4: "eventsArray (JObj [(''events'', JArr [JStr ''a''])]) = [JStr ''a'']"
    using d by (simp add: isArray_def property_def)
  show ?thesis using 1 2 3 4 5 by blast
qed

text \<open>
  C10. In every state reachable from the initial state the displayed month is held as the
  first day of a month or is Invalid Date. The initial date is a first;
  \<^verbatim>\<open>navigateMonth\<close> takes the first of month number \<open>k\<close> (twelve times the year plus
  the month) to the first of month \<open>k + 1\<close> or \<open>k - 1\<close> when that month is one of May
  -271821 to September 275760, so that no month is skipped or shown twice, and to
  Invalid Date otherwise; Invalid Date stays Invalid Date.
\<close>

theorem C10_first_of_month_or_invalid:
  "(reachable st \<longrightarrow> currentDate st = InvalidDate \<or> getDate (currentDate st) = Num 1) \<and>
   getDate (currentDate initialState) = Num 1 \<and>
   (getDate (currentDate st) = Num 1 \<and> monthNumber (currentDate st) = Num k \<longrightarrow>
      (firstMonth \<le> k + 1 \<and> k + 1 \<le> lastMonth \<longrightarrow>
         getDate (currentDate (navigateMonth Next st)) = Num 1 \<and>
         monthNumber (currentDate (navigateMonth Next st)) = Num (k + 1)) \<and>
      (firstMonth \<le> k - 1 \<and> k - 1 \<le> lastMonth \<longrightarrow>
         getDate (currentDate (navigateMonth Prev st)) = Num 1 \<and>
         monthNumber (currentDate (navigateMonth Prev st)) = Num (k - 1)) \<and>
      (lastMonth < k + 1 \<longrightarrow> currentDate (navigateMonth Next st) = InvalidDate) \<and>
      (k - 1 < firstMonth \<longrightarrow> currentDate (navigateMonth Prev st) = InvalidDate)) \<and>
   (currentDate st = InvalidDate \<longrightarrow> currentDate (navigateMonth direction st) = InvalidDate)"
proof -
  have a: "currentDate st = InvalidDate \<or> getDate (currentDate st) = Num 1" if "reachable st"
    using reachable_date[OF that] by (auto simp: valid_fields)
  have b: "getDate (currentDate initialState) = Num 1"
    by (simp add: initial_date valid_fields)
  have c: "getDate (currentDate (navigateMonth Next st)) = Num 1 \<and>
      monthNumber (currentDate (navigateMonth Next st)) = Num (k + 1)"
    if "getDate (currentDate st) = Num 1" "monthNumber (currentDate st) = Num k"
      "firstMonth \<le> k + 1 \<and> k + 1 \<le> lastMonth"
    using navigateMonth_step(1)[OF that(1,2)] that(3) by (simp add: TimeClip_firstOfMonth valid_fields)
  have d: "getDate (currentDate (navigateMonth Prev st)) = Num 1 \<and>
      monthNumber (currentDate (navigateMonth Prev st)) = Num (k - 1)"
    if "getDate (currentDate st) = Num 1" "monthNumber (currentDate st) = Num k"
      "firstMonth \<le> k - 1 \<and> k - 1 \<le> lastMonth"
    using navigateMonth_step(2)[OF that(1,2)] that(3) by (simp add: TimeClip_firstOfMonth valid_fields)
  have e: "currentDate (navigateMonth Next st) = InvalidDate"
    if "getDate (currentDate st) = Num 1" "monthNumber (currentDate st) = Num k" "lastMonth < k + 1"
    using navigateMonth_step(1)[OF that(1,2)] that(3) by (simp add: TimeClip_firstOfMonth)
  have f: "currentDate (navigateMonth Prev st) = InvalidDate"
    if "getDate (currentDate st) = Num 1" "monthNumber (currentDate st) = Num k" "k - 1 < firstMonth"
    using navigateMonth_step(2)[OF that(1,2)] that(3) by (simp add: TimeClip_firstOfMonth)
  show ?thesis using a b c d e f navigateMonth_invalid[of st direction] by blast
qed

theorem C10_witness:
  "reachable (navigateMonth Next initialState) \<and>
   getDate (currentDate (navigateMonth Next initialState)) = Num 1 \<and>
   monthNumber (currentDate (navigateMonth Next initialState)) = Num 24308"
proof -
  note inst = C10_first_of_month_or_invalid[of initialState 24307 Next]
  have a: "getDate (currentDate initialState) = Num 1 \<and> monthNumber (currentDate initialState) = Num 24307"
    by (simp add: initial_date valid_fields)
  have b: "firstMonth \<le> 24307 + 1 \<and> 24307 + 1 \<le> lastMonth"
    by (simp add: firstMonth_def lastMonth_def)
  from inst a b have "getDate (currentDate (navigateMonth Next initialState)) = Num 1 \<and>
      monthNumber (currentDate (navigateMonth Next initialState)) = Num (24307 + 1)" by blast
  then show ?thesis using reachable.navigate[OF reachable.initial, of Next] by simp
qed

text \<open>
  As the claim is worded the displayed month is a first of a month in every reachable
  state. One press of "next month" past September 275760 it is Invalid Date, whose day of
  the month is \<^verbatim>\<open>NaN\<close>.
\<close>

theorem C10_invalid_date_is_reachable:
  "reachable pastLastMonth \<and> getDate (currentDate pastLastMonth) = NaN \<and>
   getDate (currentDate pastLastMonth) \<noteq> Num 1"
  using pastLastMonth_date by (simp add: getDate_def)

end
